(* ===== verification/Ocee_Prelude.thy ===== *)
theory Ocee_Prelude
  imports Main "HOL-Library.Sublist" "HOL-Library.Char_ord"
begin

text \<open>
  Shared base of the development: the parts of the Go language and of its standard library
  that the program uses, as executable functions.
  A Go \<^verbatim>\<open>string\<close> is a byte sequence, and a HOL \<^typ>\<open>char\<close> is one byte, so Go strings are
  \<^typ>\<open>string\<close>. A Go integer is an \<^typ>\<open>int\<close> together with explicit two's complement
  conversions (\<open>wrap32\<close>, \<open>wrap64\<close>) at the places where the source converts or shifts.
  The theory also declares the collections of simplification rules the other theories use and
  the locale of partial codecs (encode/decode pairs), which the decimal printer and base64
  implement.
\<close>

named_theorems char_class \<open>definitions of the classes of characters, for deciding a concrete character\<close>
named_theorems db_defs \<open>definitions of the database statements\<close>

type_synonym duration = int \<comment> \<open>time.Duration: nanoseconds, int64\<close>
type_synonym time = int \<comment> \<open>time.Time: nanoseconds since an epoch\<close>

abbreviation nl :: char where
  "nl \<equiv> CHR 0x0A"

abbreviation second :: duration where
  "second \<equiv> 1000000000"

abbreviation millisecond :: duration where
  "millisecond \<equiv> 1000000"

section \<open>Integers\<close>

text \<open>Conversion to a signed integer of a given width keeps the low bits.\<close>

definition wrap :: "nat \<Rightarrow> int \<Rightarrow> int" where
  "wrap w x = (x + 2 ^ (w - 1)) mod 2 ^ w - 2 ^ (w - 1)"

definition wrap32 :: "int \<Rightarrow> int" where
  "wrap32 x = wrap 32 x"

definition wrap64 :: "int \<Rightarrow> int" where
  "wrap64 x = wrap 64 x"

text \<open>Go's integer division truncates towards zero.\<close>

definition quot :: "int \<Rightarrow> int \<Rightarrow> int" where
  "quot a b = sgn a * sgn b * (\<bar>a\<bar> div \<bar>b\<bar>)"

section \<open>Strings\<close>

definition TrimPrefix :: "string \<Rightarrow> string \<Rightarrow> string" where
  "TrimPrefix s p = (if prefix p s then drop (length p) s else s)"

definition TrimSuffix :: "string \<Rightarrow> string \<Rightarrow> string" where
  "TrimSuffix s p = (if suffix p s then take (length s - length p) s else s)"

text \<open>The index functions return \<^const>\<open>None\<close> where Go returns -1.\<close>

fun IndexByte :: "string \<Rightarrow> char \<Rightarrow> nat option" where
  "IndexByte [] b = None"
| "IndexByte (c # cs) b = (if c = b then Some 0 else map_option Suc (IndexByte cs b))"

fun LastIndex :: "string \<Rightarrow> string \<Rightarrow> nat option" where
  "LastIndex [] sub = (if sub = [] then Some 0 else None)"
| "LastIndex (c # cs) sub =
     (case LastIndex cs sub of
        Some i \<Rightarrow> Some (Suc i)
      | None \<Rightarrow> if prefix sub (c # cs) then Some 0 else None)"

text \<open>\<open>strings.Cut\<close> with a one-byte separator: the text before it, after it, and whether it occurs.\<close>

fun CutByte :: "string \<Rightarrow> char \<Rightarrow> string \<times> string \<times> bool" where
  "CutByte [] sep = ([], [], False)"
| "CutByte (c # cs) sep =
     (if c = sep then ([], cs, True)
      else case CutByte cs sep of (a, b, found) \<Rightarrow> (c # a, b, found))"

text \<open>
  The UTF-8 encodings of the code points \<^verbatim>\<open>unicode.IsSpace\<close> accepts. Each starts with an ASCII
  byte or a lead byte, never with a continuation byte, so matching them as byte prefixes at every
  position finds the same places as Go's decoding loop, also in strings that are not valid UTF-8.
\<close>

definition space_runes :: "string list" where
  "space_runes =
     [[CHR 0x09], [CHR 0x0A], [CHR 0x0B], [CHR 0x0C], [CHR 0x0D], [CHR 0x20],
      [CHR 0xC2, CHR 0x85], [CHR 0xC2, CHR 0xA0], [CHR 0xE1, CHR 0x9A, CHR 0x80],
      [CHR 0xE2, CHR 0x80, CHR 0x80], [CHR 0xE2, CHR 0x80, CHR 0x81],
      [CHR 0xE2, CHR 0x80, CHR 0x82], [CHR 0xE2, CHR 0x80, CHR 0x83],
      [CHR 0xE2, CHR 0x80, CHR 0x84], [CHR 0xE2, CHR 0x80, CHR 0x85],
      [CHR 0xE2, CHR 0x80, CHR 0x86], [CHR 0xE2, CHR 0x80, CHR 0x87],
      [CHR 0xE2, CHR 0x80, CHR 0x88], [CHR 0xE2, CHR 0x80, CHR 0x89],
      [CHR 0xE2, CHR 0x80, CHR 0x8A], [CHR 0xE2, CHR 0x80, CHR 0xA8],
      [CHR 0xE2, CHR 0x80, CHR 0xA9], [CHR 0xE2, CHR 0x80, CHR 0xAF],
      [CHR 0xE2, CHR 0x81, CHR 0x9F], [CHR 0xE3, CHR 0x80, CHR 0x80]]"

text \<open>Bytes of the white space code point a string starts (ends) with, 0 if there is none.\<close>

definition space_len :: "string \<Rightarrow> nat" where
  "space_len s = (case List.find (\<lambda>r. prefix r s) space_runes of None \<Rightarrow> 0 | Some r \<Rightarrow> length r)"

definition space_len_end :: "string \<Rightarrow> nat" where
  "space_len_end s =
     (case List.find (\<lambda>r. suffix r s) space_runes of None \<Rightarrow> 0 | Some r \<Rightarrow> length r)"

fun flush_field :: "string \<Rightarrow> string list" where
  "flush_field [] = []"
| "flush_field cur = [rev cur]"

text \<open>
  \<open>strings.Fields\<close>: \<open>cur\<close> is the field read so far, reversed, and \<open>k\<close> the number of bytes of the
  current white space code point still to skip.
\<close>

fun fields_from :: "string \<Rightarrow> nat \<Rightarrow> string \<Rightarrow> string list" where
  "fields_from cur k [] = flush_field cur"
| "fields_from cur (Suc k) (c # cs) = fields_from cur k cs"
| "fields_from cur 0 (c # cs) =
     (case space_len (c # cs) of
        0 \<Rightarrow> fields_from (c # cur) 0 cs
      | Suc n \<Rightarrow> flush_field cur @ fields_from [] n cs)"

definition Fields :: "string \<Rightarrow> string list" where
  "Fields s = fields_from [] 0 s"

lemma space_len_le: "space_len s \<le> length s"
  by (auto simp: space_len_def find_Some_iff prefix_length_le split: option.splits)

lemma space_len_end_le: "space_len_end s \<le> length s"
  by (auto simp: space_len_end_def find_Some_iff suffix_length_le split: option.splits)

function TrimLeft :: "string \<Rightarrow> string" where
  "TrimLeft s = (if space_len s = 0 then s else TrimLeft (drop (space_len s) s))"
  by pat_completeness auto
termination
proof (relation "measure length")
  fix s :: string
  assume "space_len s \<noteq> 0"
  then show "(drop (space_len s) s, s) \<in> measure length"
    using space_len_le [of s] by auto
qed simp

function TrimRight :: "string \<Rightarrow> string" where
  "TrimRight s =
     (if space_len_end s = 0 then s else TrimRight (take (length s - space_len_end s) s))"
  by pat_completeness auto
termination
proof (relation "measure length")
  fix s :: string
  assume "space_len_end s \<noteq> 0"
  then show "(take (length s - space_len_end s) s, s) \<in> measure length"
    using space_len_end_le [of s] by auto
qed simp

declare TrimLeft.simps [simp del] TrimRight.simps [simp del]

definition TrimSpace :: "string \<Rightarrow> string" where
  "TrimSpace s = TrimRight (TrimLeft s)"

text \<open>
  \<open>strings.ToLower\<close>: an all-ASCII string is lowered byte by byte; any other string goes through
  the Unicode tables, which are the parameter \<open>uni\<close>.
\<close>

definition is_ascii :: "string \<Rightarrow> bool" where
  "is_ascii s = list_all (\<lambda>c. of_char c < (128 :: nat)) s"

definition char_within :: "char \<Rightarrow> char \<Rightarrow> char \<Rightarrow> bool" where
  "char_within lo hi c = (lo \<le> c \<and> c \<le> hi)"

declare char_within_def [char_class]

definition lower_byte :: "char \<Rightarrow> char" where
  "lower_byte c =
     (if char_within (CHR ''A'') (CHR ''Z'') c then char_of (of_char c + (32 :: nat)) else c)"

definition ToLower :: "(string \<Rightarrow> string) \<Rightarrow> string \<Rightarrow> string" where
  "ToLower uni s = (if is_ascii s then map lower_byte s else uni s)"

section \<open>Decimal numbers\<close>

text \<open>\<open>strconv.Itoa\<close>, and the verb \<^verbatim>\<open>%d\<close> of \<^verbatim>\<open>fmt\<close>.\<close>

definition digit_char :: "nat \<Rightarrow> char" where
  "digit_char d = char_of (48 + d)"

fun show_nat :: "nat \<Rightarrow> string" where
  "show_nat n = (if n < 10 then [digit_char n] else show_nat (n div 10) @ [digit_char (n mod 10)])"

declare show_nat.simps [simp del]

definition Itoa :: "int \<Rightarrow> string" where
  "Itoa n = (if n < 0 then CHR ''-'' # show_nat (nat (- n)) else show_nat (nat n))"

text \<open>
  \<open>strconv.ParseUint\<close> in base 10 at 64 bits: the loop stops at the first byte that is not a digit
  and at the first overflow, whichever comes first.
\<close>

datatype num_error = ErrSyntax | ErrRange

definition is_digit :: "char \<Rightarrow> bool" where
  "is_digit c = char_within (CHR ''0'') (CHR ''9'') c"

definition digit_val :: "char \<Rightarrow> nat" where
  "digit_val c = of_char c - 48"

fun parse_uint_loop :: "string \<Rightarrow> nat \<Rightarrow> num_error + nat" where
  "parse_uint_loop [] n = Inr n"
| "parse_uint_loop (c # cs) n =
     (if \<not> is_digit c then Inl ErrSyntax
      else if n * 10 + digit_val c \<ge> 2 ^ 64 then Inl ErrRange
      else parse_uint_loop cs (n * 10 + digit_val c))"

definition ParseUint :: "string \<Rightarrow> num_error + nat" where
  "ParseUint s = (if s = [] then Inl ErrSyntax else parse_uint_loop s 0)"

text \<open>
  \<open>strconv.ParseInt(s, 10, 64)\<close> returns a value and an error. A range error comes with the nearest
  representable value, so a caller that drops the error reads a saturated number.
\<close>

definition ParseInt :: "string \<Rightarrow> int \<times> num_error option" where
  "ParseInt s =
     (case s of
        [] \<Rightarrow> (0, Some ErrSyntax)
      | c # cs \<Rightarrow>
          let neg = (c = CHR ''-''); ds = (if c = CHR ''+'' \<or> neg then cs else s) in
          (case ParseUint ds of
             Inl ErrSyntax \<Rightarrow> (0, Some ErrSyntax)
           | Inl ErrRange \<Rightarrow> ((if neg then - (2 ^ 63) else 2 ^ 63 - 1), Some ErrRange)
           | Inr un \<Rightarrow>
               if \<not> neg \<and> un \<ge> 2 ^ 63 then (2 ^ 63 - 1, Some ErrRange)
               else if neg \<and> un > 2 ^ 63 then (- (2 ^ 63), Some ErrRange)
               else ((if neg then - int un else int un), None)))"

text \<open>
  \<open>strconv.Atoi\<close>: its fast path for short strings computes what \<^const>\<open>ParseInt\<close> computes, and every
  caller in the program drops the value when there is an error.
\<close>

definition Atoi :: "string \<Rightarrow> num_error + int" where
  "Atoi s = (case ParseInt s of (n, None) \<Rightarrow> Inr n | (_, Some e) \<Rightarrow> Inl e)"

section \<open>Partial codecs\<close>

text \<open>
  An encoder with a decoder that inverts it on the values \<open>ok\<close>. What follows for every such pair
  is proved once here.
\<close>

locale partial_codec =
  fixes enc :: "'a \<Rightarrow> string"
    and dec :: "string \<Rightarrow> 'a option"
    and ok :: "'a \<Rightarrow> bool"
  assumes dec_enc: "ok x \<Longrightarrow> dec (enc x) = Some x"
begin

lemma enc_inj: "ok x \<Longrightarrow> ok y \<Longrightarrow> enc x = enc y \<longleftrightarrow> x = y"
  by (metis dec_enc option.inject)

lemma dec_map_enc:
  assumes "list_all ok xs"
  shows "map dec (map enc xs) = map Some xs"
  using assms by (induction xs) (auto simp: dec_enc)

lemma enc_image_inj: "inj_on enc (Collect ok)"
  by (auto simp: inj_on_def enc_inj)

end

section \<open>Facts about integers\<close>

lemma wrap_id: "0 < w \<Longrightarrow> - (2 ^ (w - 1)) \<le> x \<Longrightarrow> x < 2 ^ (w - 1) \<Longrightarrow> wrap w x = x"
proof -
  assume w: "0 < w" and b: "- (2 ^ (w - 1)) \<le> x" "x < 2 ^ (w - 1)"
  have "(2 :: int) ^ w = 2 * 2 ^ (w - 1)"
    using w by (cases w) auto
  with b have "(x + 2 ^ (w - 1)) mod 2 ^ w = x + 2 ^ (w - 1)"
    by (intro mod_pos_pos_trivial) auto
  then show ?thesis by (simp add: wrap_def)
qed

lemma wrap_range: "0 < w \<Longrightarrow> - (2 ^ (w - 1)) \<le> wrap w x \<and> wrap w x < 2 ^ (w - 1)"
proof -
  assume w: "0 < w"
  have e: "(2 :: int) ^ w = 2 * 2 ^ (w - 1)"
    using w by (cases w) auto
  have "0 \<le> (x + 2 ^ (w - 1)) mod 2 ^ w" "(x + 2 ^ (w - 1)) mod 2 ^ w < 2 ^ w"
    by auto
  with e show ?thesis by (simp add: wrap_def)
qed

lemma wrap32_id [simp]: "- 2147483648 \<le> x \<Longrightarrow> x < 2147483648 \<Longrightarrow> wrap32 x = x"
  using wrap_id [of 32 x] by (simp add: wrap32_def)

lemma wrap64_id [simp]:
  "- 9223372036854775808 \<le> x \<Longrightarrow> x < 9223372036854775808 \<Longrightarrow> wrap64 x = x"
  using wrap_id [of 64 x] by (simp add: wrap64_def)

lemma wrap32_range: "- 2147483648 \<le> wrap32 x" "wrap32 x < 2147483648"
  using wrap_range [of 32 x] by (simp_all add: wrap32_def)

lemma wrap64_range: "- 9223372036854775808 \<le> wrap64 x" "wrap64 x < 9223372036854775808"
  using wrap_range [of 64 x] by (simp_all add: wrap64_def)

lemma quot_nonneg: "0 \<le> a \<Longrightarrow> 0 < b \<Longrightarrow> quot a b = a div b"
  by (cases "a = 0") (auto simp: quot_def)

lemma quot_nonneg_ge0: "0 \<le> a \<Longrightarrow> 0 < b \<Longrightarrow> 0 \<le> quot a b"
  by (simp add: quot_nonneg pos_imp_zdiv_nonneg_iff)

section \<open>Facts about strings\<close>

lemma IndexByte_None: "IndexByte s b = None \<longleftrightarrow> b \<notin> set s"
  by (induction s) auto

lemma IndexByte_append:
  "b \<notin> set s \<Longrightarrow> IndexByte (s @ b # t) b = Some (length s)"
  by (induction s) auto

lemma CutByte_append [simp]:
  "sep \<notin> set a \<Longrightarrow> CutByte (a @ sep # b) sep = (a, b, True)"
  by (induction a) auto

lemma LastIndex_prefix: "LastIndex s sub = Some i \<Longrightarrow> i \<le> length s \<and> prefix sub (drop i s)"
  by (induction s arbitrary: i) (auto split: option.splits if_splits)

lemma LastIndex_None: "LastIndex s sub = None \<longleftrightarrow> (\<forall>i \<le> length s. \<not> prefix sub (drop i s))"
proof (induction s)
  case Nil
  then show ?case by simp
next
  case (Cons c cs)
  have split: "(\<forall>i \<le> length (c # cs). \<not> prefix sub (drop i (c # cs))) \<longleftrightarrow>
      \<not> prefix sub (c # cs) \<and> (\<forall>i \<le> length cs. \<not> prefix sub (drop i cs))"
    using All_less_Suc2 [of "Suc (length cs)" "\<lambda>i. \<not> prefix sub (drop i (c # cs))"]
    by (simp add: less_Suc_eq_le)
  show ?case
    unfolding split using Cons.IH by (auto split: option.splits)
qed

lemma LastIndex_last:
  "LastIndex s sub = Some i \<Longrightarrow> i < j \<Longrightarrow> j \<le> length s \<Longrightarrow> \<not> prefix sub (drop j s)"
proof (induction s arbitrary: i j)
  case Nil
  then show ?case by (auto split: if_splits)
next
  case (Cons c cs)
  then obtain j' where j: "j = Suc j'" "j' \<le> length cs"
    by (cases j) auto
  show ?case
  proof (cases "LastIndex cs sub")
    case None
    then show ?thesis using j by (auto simp: LastIndex_None)
  next
    case (Some k)
    with Cons j show ?thesis by auto
  qed
qed

lemma LastIndex_append:
  "LastIndex t sub = Some i \<Longrightarrow> LastIndex (s @ t) sub = Some (length s + i)"
  by (induction s) auto

text \<open>
  The last occurrence is the one at the start of \<open>t\<close> when the pattern does not occur in \<open>t\<close> again.
\<close>

lemma LastIndex_at:
  assumes "prefix sub t" and "t \<noteq> []" and "LastIndex (tl t) sub = None"
  shows "LastIndex (s @ t) sub = Some (length s)"
proof -
  from assms(2) obtain c cs where "t = c # cs" by (cases t) auto
  with assms have "LastIndex t sub = Some 0" by simp
  from LastIndex_append [OF this] show ?thesis by simp
qed

text \<open>A needle \<open>sub @ rest\<close> can only occur where \<open>rest\<close> occurs later on.\<close>

lemma LastIndex_None_suffix:
  assumes "LastIndex (drop (length a) s) b = None"
  shows "LastIndex s (a @ b) = None"
proof (rule ccontr)
  assume "LastIndex s (a @ b) \<noteq> None"
  then obtain i where "i \<le> length s" and p: "prefix (a @ b) (drop i s)"
    using LastIndex_prefix by blast
  from p obtain r where r: "drop i s = a @ b @ r" by (auto simp: prefix_def)
  then have "drop (i + length a) s = b @ r"
    by (metis add.commute append_eq_conv_conj drop_drop)
  then have "prefix b (drop i (drop (length a) s))"
    by (simp add: add.commute)
  moreover have "i + length a \<le> length s"
    using \<open>i \<le> length s\<close> arg_cong [OF r, of length] by (simp del: length_drop add: length_drop)
  ultimately show False
    using assms by (auto simp: LastIndex_None)
qed

lemma LastIndex_no_head: "c \<notin> set t \<Longrightarrow> LastIndex t (c # p) = None"
  by (induction t) auto

lemma CutByte_absent: "sep \<notin> set s \<Longrightarrow> CutByte s sep = (s, [], False)"
  by (induction s) auto

lemma LastIndex_None_take:
  assumes "LastIndex t p = None"
  shows "LastIndex (take k t) p = None"
proof -
  have "prefix p (drop i t)" if "prefix p (drop i (take k t))" for i
    using that by (metis drop_take prefix_order.trans take_is_prefix)
  with assms show ?thesis by (fastforce simp: LastIndex_None)
qed

lemma TrimSuffix_append [simp]: "TrimSuffix (s @ p) p = s"
  by (auto simp: TrimSuffix_def suffix_def)

lemma TrimPrefix_append [simp]: "TrimPrefix (p @ s) p = s"
  by (simp add: TrimPrefix_def)

section \<open>Texts without white space\<close>

text \<open>Printable ASCII bytes other than the space: none of them starts a white space code point.\<close>

definition solid_char :: "char \<Rightarrow> bool" where
  "solid_char c = (CHR ''!'' \<le> c \<and> c \<le> CHR ''~'')"

declare solid_char_def [char_class] is_digit_def [char_class] less_eq_char_def [char_class]

definition solid :: "string \<Rightarrow> bool" where
  "solid s = list_all solid_char s"

lemma solid_simps [simp]:
  "solid []" "solid (c # s) \<longleftrightarrow> solid_char c \<and> solid s" "solid (s @ t) \<longleftrightarrow> solid s \<and> solid t"
  by (auto simp: solid_def)

lemma solid_char_cases: "solid_char c \<Longrightarrow> r \<in> set space_runes \<Longrightarrow> \<not> prefix r (c # cs)"
  by (auto simp: space_runes_def char_class)

lemma space_len_solid [simp]: "solid_char c \<Longrightarrow> space_len (c # cs) = 0"
  using solid_char_cases
  by (auto simp: space_len_def split: option.splits dest!: iffD1 [OF find_Some_iff])

lemma space_len_blank [simp]: "space_len (CHR '' '' # cs) = 1"
  by (simp add: space_len_def space_runes_def)

lemma fields_from_solid: "solid w \<Longrightarrow> fields_from cur 0 (w @ s) = fields_from (rev w @ cur) 0 s"
  by (induction w arbitrary: cur) auto

lemma flush_field_rev: "w \<noteq> [] \<Longrightarrow> flush_field (rev w) = [w]"
  by (cases "rev w") auto

lemma Fields_solid: "solid w \<Longrightarrow> w \<noteq> [] \<Longrightarrow> Fields w = [w]"
  using fields_from_solid [of w "[]" "[]"] by (simp add: Fields_def flush_field_rev)

lemma Fields_cons:
  assumes "solid w" and "w \<noteq> []"
  shows "Fields (w @ CHR '' '' # s) = w # Fields s"
  using fields_from_solid [of w "[]" "CHR '' '' # s"] assms
  by (simp add: Fields_def flush_field_rev)

lemma nl_notin_solid: "solid s \<Longrightarrow> nl \<notin> set s"
  by (auto simp: solid_def list_all_iff char_class)

lemma blank_notin_solid: "solid s \<Longrightarrow> CHR '' '' \<notin> set s"
  by (auto simp: solid_def list_all_iff char_class)

section \<open>Decimal printing and parsing are inverse\<close>

lemma digit_char_facts:
  assumes "d < 10"
  shows "is_digit (digit_char d)" "digit_val (digit_char d) = d" "solid_char (digit_char d)"
    "digit_char d \<noteq> CHR ''-''" "digit_char d \<noteq> CHR ''+''" "digit_char d \<noteq> CHR ''=''"
proof -
  have "of_char (digit_char d) = 48 + d"
    using assms by (simp add: digit_char_def)
  then show "is_digit (digit_char d)" "digit_val (digit_char d) = d" "solid_char (digit_char d)"
    "digit_char d \<noteq> CHR ''-''" "digit_char d \<noteq> CHR ''+''" "digit_char d \<noteq> CHR ''=''"
    using assms by (auto simp: char_class digit_val_def)
qed

lemma show_nat_set: "c \<in> set (show_nat n) \<Longrightarrow> \<exists>d < 10. c = digit_char d"
proof (induction n rule: show_nat.induct)
  case (1 n)
  have "n mod 10 < 10" by simp
  with "1" show ?case
    by (cases "n < 10") (auto simp: show_nat.simps [of n] simp del: mod_less_divisor)
qed

lemma show_nat_nonempty [simp]: "show_nat n \<noteq> []"
  by (subst show_nat.simps) simp

lemma solid_show_nat [simp]: "solid (show_nat n)"
  by (auto simp: solid_def list_all_iff dest!: show_nat_set intro: digit_char_facts)

lemma solid_Itoa [simp]: "solid (Itoa n)"
  by (simp add: Itoa_def) (simp add: char_class)

lemma Itoa_nonempty [simp]: "Itoa n \<noteq> []"
  by (simp add: Itoa_def)

text \<open>
  A scanner that folds decimal digits into an accumulator, up to a bound. Both \<open>strconv\<close> and the
  duration parser have one; each reads a printed number back.
\<close>

locale digit_scanner =
  fixes scan :: "nat \<Rightarrow> string \<Rightarrow> 'r"
    and bound :: nat
  assumes scan_digit:
    "r < 10 \<Longrightarrow> k * 10 + r \<le> bound \<Longrightarrow> scan k (digit_char r # s) = scan (k * 10 + r) s"
begin

lemma scan_show_nat:
  "n * 10 ^ length (show_nat m) + m \<le> bound \<Longrightarrow>
   scan n (show_nat m @ s) = scan (n * 10 ^ length (show_nat m) + m) s"
proof (induction m arbitrary: n s rule: show_nat.induct)
  case (1 m)
  show ?case
  proof (cases "m < 10")
    case True
    with "1.prems" show ?thesis
      by (simp add: show_nat.simps [of m] scan_digit)
  next
    case False
    define q r where "q = m div 10" and "r = m mod 10"
    have m: "m = 10 * q + r" and r: "r < 10" by (auto simp: q_def r_def)
    let ?k = "n * 10 ^ length (show_nat q) + q"
    from False have sh: "show_nat m = show_nat q @ [digit_char r]"
      by (simp add: show_nat.simps [of m] q_def r_def)
    have k: "?k * 10 + r = n * 10 ^ length (show_nat m) + m"
      by (subst m) (simp add: sh algebra_simps)
    have "?k \<le> ?k * 10 + r" by simp
    then have "?k \<le> bound"
      unfolding k using "1.prems" by (rule order_trans)
    with False have "scan n (show_nat q @ [digit_char r] @ s) = scan ?k ([digit_char r] @ s)"
      by (intro "1.IH" [folded q_def]) auto
    also have "\<dots> = scan (?k * 10 + r) s"
      using "1.prems" [folded k] r by (simp only: append_Cons append_Nil scan_digit)
    finally show ?thesis
      unfolding k by (simp only: sh append_assoc)
  qed
qed

lemma scan_all: "m \<le> bound \<Longrightarrow> scan 0 (show_nat m @ s) = scan m s"
  using scan_show_nat [of 0 m s] by simp

end

lemma parse_uint_digit:
  "r < 10 \<Longrightarrow> k * 10 + r \<le> 2 ^ 64 - 1 \<Longrightarrow>
   parse_uint_loop (digit_char r # s) k = parse_uint_loop s (k * 10 + r)"
  using digit_char_facts [of r] by auto

interpretation uint_scan: digit_scanner "\<lambda>n s. parse_uint_loop s n" "2 ^ 64 - 1"
  by unfold_locales (rule parse_uint_digit)

lemma ParseUint_show_nat: "n < 2 ^ 64 \<Longrightarrow> ParseUint (show_nat n) = Inr n"
  using uint_scan.scan_all [of n "[]"] by (simp add: ParseUint_def)

lemma show_nat_hd: "hd (show_nat n) \<noteq> CHR ''-''" "hd (show_nat n) \<noteq> CHR ''+''"
  using show_nat_set [of "hd (show_nat n)" n] digit_char_facts(4,5) by (metis hd_in_set show_nat_nonempty)+

theorem ParseInt_Itoa:
  assumes "- (2 ^ 63) \<le> n" and "n < 2 ^ 63"
  shows "ParseInt (Itoa n) = (n, None)"
proof (cases "n < 0")
  case True
  with assms have "ParseUint (show_nat (nat (- n))) = Inr (nat (- n))"
    by (intro ParseUint_show_nat) auto
  with True assms show ?thesis by (simp add: Itoa_def ParseInt_def)
next
  case False
  with assms have p: "ParseUint (show_nat (nat n)) = Inr (nat n)"
    by (intro ParseUint_show_nat) auto
  obtain c cs where c: "show_nat (nat n) = c # cs"
    by (cases "show_nat (nat n)") auto
  with show_nat_hd [of "nat n"] have "c \<noteq> CHR ''-''" "c \<noteq> CHR ''+''" by auto
  with False p c assms show ?thesis by (simp add: Itoa_def ParseInt_def)
qed

interpretation decimal: partial_codec Itoa
  "\<lambda>s. case Atoi s of Inl _ \<Rightarrow> None | Inr n \<Rightarrow> Some n"
  "\<lambda>n. - (2 ^ 63) \<le> n \<and> n < 2 ^ 63"
  by unfold_locales (auto simp: Atoi_def ParseInt_Itoa)

end
