(* ===== verification/Ocee_Encoding.thy ===== *)
theory Ocee_Encoding
  imports Ocee_Prelude
begin

text \<open>
  The byte encodings the program uses, from the Go standard library: \<^verbatim>\<open>encoding/base64\<close>
  (\<open>StdEncoding\<close>, which also is what the \<^verbatim>\<open>base64\<close> utility of the sandbox prints once its line
  breaks are removed), \<^verbatim>\<open>encoding/hex\<close>, and the validity test of \<^verbatim>\<open>unicode/utf8\<close>.
  Shown: decoding inverts encoding for every byte string, the exact length of the encoded text,
  and that encoded text has no white space.
\<close>

section \<open>base64\<close>

definition b64_alphabet :: string where
  "b64_alphabet = ''ABCDEFGHIJKLMNOPQRSTUVWXYZabcdefghijklmnopqrstuvwxyz0123456789+/''"

definition b64_char :: "nat \<Rightarrow> char" where
  "b64_char n = b64_alphabet ! n"

definition b64_val :: "char \<Rightarrow> nat option" where
  "b64_val c = IndexByte b64_alphabet c"

definition byte :: "char \<Rightarrow> nat" where
  "byte c = of_char c"

fun EncodeToString :: "string \<Rightarrow> string" where
  "EncodeToString [] = []"
| "EncodeToString [a] =
     [b64_char (byte a div 4), b64_char (byte a mod 4 * 16), CHR ''='', CHR ''='']"
| "EncodeToString [a, b] =
     [b64_char (byte a div 4), b64_char (byte a mod 4 * 16 + byte b div 16),
      b64_char (byte b mod 16 * 4), CHR ''='']"
| "EncodeToString (a # b # c # s) =
     b64_char (byte a div 4) # b64_char (byte a mod 4 * 16 + byte b div 16) #
     b64_char (byte b mod 16 * 4 + byte c div 64) # b64_char (byte c mod 64) # EncodeToString s"

text \<open>
  The decoder works on groups of four characters. A group with padding is the last one, and the
  bits of a padded group that carry no byte are not checked (the encoding is not \<open>Strict\<close>).
\<close>

definition b64_byte1 :: "nat \<Rightarrow> nat \<Rightarrow> char" where
  "b64_byte1 v1 v2 = char_of (v1 * 4 + v2 div 16)"

definition b64_byte2 :: "nat \<Rightarrow> nat \<Rightarrow> char" where
  "b64_byte2 v2 v3 = char_of (v2 mod 16 * 16 + v3 div 4)"

definition b64_byte3 :: "nat \<Rightarrow> nat \<Rightarrow> char" where
  "b64_byte3 v3 v4 = char_of (v3 mod 4 * 64 + v4)"

fun b64_groups :: "string \<Rightarrow> string option" where
  "b64_groups [] = Some []"
| "b64_groups (c1 # c2 # c3 # c4 # s) =
     (case (b64_val c1, b64_val c2) of
        (Some v1, Some v2) \<Rightarrow>
          if c3 = CHR ''='' then
            (if c4 = CHR ''='' \<and> s = [] then Some [b64_byte1 v1 v2] else None)
          else (case b64_val c3 of
            None \<Rightarrow> None
          | Some v3 \<Rightarrow>
              if c4 = CHR ''='' then
                (if s = [] then Some [b64_byte1 v1 v2, b64_byte2 v2 v3] else None)
              else (case (b64_val c4, b64_groups s) of
                (Some v4, Some r) \<Rightarrow>
                  Some (b64_byte1 v1 v2 # b64_byte2 v2 v3 # b64_byte3 v3 v4 # r)
              | _ \<Rightarrow> None))
      | _ \<Rightarrow> None)"
| "b64_groups _ = None"

text \<open>Line breaks are skipped wherever they stand.\<close>

definition DecodeString :: "string \<Rightarrow> string option" where
  "DecodeString s = b64_groups (filter (\<lambda>c. c \<noteq> CHR 0x0A \<and> c \<noteq> CHR 0x0D) s)"

section \<open>hex\<close>

definition hex_digit :: "nat \<Rightarrow> char" where
  "hex_digit n = ''0123456789abcdef'' ! n"

fun hex_EncodeToString :: "string \<Rightarrow> string" where
  "hex_EncodeToString [] = []"
| "hex_EncodeToString (c # cs) =
     hex_digit (byte c div 16) # hex_digit (byte c mod 16) # hex_EncodeToString cs"

section \<open>UTF-8\<close>

text \<open>
  \<open>utf8.ValidString\<close>: the well-formed byte sequences of the Unicode standard, with neither overlong
  forms nor surrogates.
\<close>

definition in_range :: "nat \<Rightarrow> nat \<Rightarrow> char \<Rightarrow> bool" where
  "in_range lo hi c = (lo \<le> byte c \<and> byte c \<le> hi)"

text \<open>Length of the well-formed code point at the start of a string, 0 if there is none.\<close>

definition rune_len :: "string \<Rightarrow> nat" where
  "rune_len s =
     (case s of
        [] \<Rightarrow> 0
      | a # s1 \<Rightarrow>
        if byte a < 0x80 then 1
        else (case s1 of
          [] \<Rightarrow> 0
        | b # s2 \<Rightarrow>
          if in_range 0xC2 0xDF a then (if in_range 0x80 0xBF b then 2 else 0)
          else (case s2 of
            [] \<Rightarrow> 0
          | c # s3 \<Rightarrow>
            if in_range 0xE0 0xEF a then
              (if in_range (if byte a = 0xE0 then 0xA0 else 0x80)
                     (if byte a = 0xED then 0x9F else 0xBF) b \<and> in_range 0x80 0xBF c then 3 else 0)
            else (case s3 of
              [] \<Rightarrow> 0
            | d # _ \<Rightarrow>
              if in_range 0xF0 0xF4 a \<and>
                 in_range (if byte a = 0xF0 then 0x90 else 0x80)
                   (if byte a = 0xF4 then 0x8F else 0xBF) b \<and>
                 in_range 0x80 0xBF c \<and> in_range 0x80 0xBF d then 4 else 0))))"

text \<open>\<open>k\<close> is the number of bytes of the current code point still to skip.\<close>

fun valid_from :: "nat \<Rightarrow> string \<Rightarrow> bool" where
  "valid_from k [] = True"
| "valid_from (Suc k) (c # cs) = valid_from k cs"
| "valid_from 0 (c # cs) = (case rune_len (c # cs) of 0 \<Rightarrow> False | Suc n \<Rightarrow> valid_from n cs)"

definition ValidString :: "string \<Rightarrow> bool" where
  "ValidString s = valid_from 0 s"

section \<open>Facts\<close>

lemma byte_less [simp]: "byte c < 256"
  by (simp add: byte_def)

lemma char_of_byte [simp]: "char_of (byte c) = c"
  by (simp add: byte_def)

lemma b64_val_char_list: "list_all (\<lambda>n. b64_val (b64_char n) = Some n) [0..<64]"
  by code_simp

lemma b64_val_char: "n < 64 \<Longrightarrow> b64_val (b64_char n) = Some n"
  using b64_val_char_list by (simp add: list_all_iff)

lemma b64_char_set: "n < 64 \<Longrightarrow> b64_char n \<in> set b64_alphabet"
  unfolding b64_char_def by (rule nth_mem) (simp add: b64_alphabet_def)

lemma solid_alphabet: "solid b64_alphabet"
  by (simp add: b64_alphabet_def char_class)

lemma b64_char_solid: "n < 64 \<Longrightarrow> solid_char (b64_char n)"
  using b64_char_set solid_alphabet by (auto simp: solid_def list_all_iff)

lemma b64_char_pad: "n < 64 \<Longrightarrow> b64_char n \<noteq> CHR ''=''"
  by (drule b64_char_set) (auto simp: b64_alphabet_def)

lemmas b64_char_facts = b64_val_char b64_char_solid b64_char_pad

lemma byte_parts [simp]:
  "byte a div 4 < 64" "byte a div 16 < 16" "byte a div 64 < 4"
  using byte_less [of a] by (simp_all add: div_less_iff_less_mult)

lemma packed_less: "x < k \<Longrightarrow> y < m \<Longrightarrow> x * m + y < k * (m :: nat)"
proof -
  assume "x < k" "y < m"
  then have "x * m + y < Suc x * m" by simp
  also have "\<dots> \<le> k * m" using \<open>x < k\<close> by (intro mult_le_mono1) simp
  finally show ?thesis .
qed

lemma packed_div [simp]: "y < m \<Longrightarrow> (x * m + y) div m = (x :: nat)"
  by (cases "m = 0") auto

lemma packed_mod [simp]: "y < m \<Longrightarrow> (x * m + y) mod m = (y :: nat)"
  by simp

lemma b64_index_bounds [simp]:
  "byte a mod 4 * 16 < 64" "byte a mod 4 * 16 + byte b div 16 < 64"
  "byte b mod 16 * 4 < 64" "byte b mod 16 * 4 + byte c div 64 < 64"
  using packed_less [of "byte a mod 4" 4 0 16] packed_less [of "byte a mod 4" 4 "byte b div 16" 16]
    packed_less [of "byte b mod 16" 16 0 4] packed_less [of "byte b mod 16" 16 "byte c div 64" 4]
  by simp_all

lemma b64_bytes [simp]:
  "b64_byte1 (byte a div 4) (byte a mod 4 * 16 + byte b div 16) = a"
  "b64_byte1 (byte a div 4) (byte a mod 4 * 16) = a"
  "b64_byte2 (byte a mod 4 * 16 + byte b div 16) (byte b mod 16 * 4 + byte c div 64) = b"
  "b64_byte2 (byte a mod 4 * 16 + byte b div 16) (byte b mod 16 * 4) = b"
  "b64_byte3 (byte b mod 16 * 4 + byte c div 64) (byte c mod 64) = c"
  by (simp_all add: b64_byte1_def b64_byte2_def b64_byte3_def del: char_of_quasi_inj)

lemma b64_groups_encode: "b64_groups (EncodeToString s) = Some s"
  by (induction s rule: EncodeToString.induct) (simp_all add: b64_char_facts)

lemma solid_EncodeToString [simp]: "solid (EncodeToString s)"
  by (induction s rule: EncodeToString.induct)
    (simp_all add: b64_char_facts, simp_all add: char_class)

lemma length_EncodeToString: "length (EncodeToString s) = 4 * ((length s + 2) div 3)"
proof (induction s rule: EncodeToString.induct)
  case (4 a b c s)
  have "length (a # b # c # s) + 2 = 3 + (length s + 2)" by simp
  then have "(length (a # b # c # s) + 2) div 3 = Suc ((length s + 2) div 3)" by (simp only: div_add_self1)
  with 4 show ?case by simp
qed auto

lemma solid_no_break: "solid s \<Longrightarrow> filter (\<lambda>c. c \<noteq> CHR 0x0A \<and> c \<noteq> CHR 0x0D) s = s"
  by (auto simp: filter_id_conv solid_def list_all_iff char_class)

lemma DecodeString_EncodeToString: "DecodeString (EncodeToString s) = Some s"
  by (simp add: DecodeString_def solid_no_break b64_groups_encode)

interpretation b64: partial_codec EncodeToString DecodeString "\<lambda>_. True"
  by unfold_locales (rule DecodeString_EncodeToString)

lemma hex_digit_list: "list_all (\<lambda>n. solid_char (hex_digit n)) [0..<16]"
  by code_simp

lemma solid_hex [simp]: "solid (hex_EncodeToString s)"
proof (induction s)
  case (Cons c cs)
  have "byte c div 16 < 16" "byte c mod 16 < 16"
    using byte_less [of c] by presburger+
  with Cons hex_digit_list show ?case by (simp add: list_all_iff)
qed simp

lemma length_hex: "length (hex_EncodeToString s) = 2 * length s"
  by (induction s) auto

lemma valid_from_ascii: "is_ascii s \<Longrightarrow> valid_from 0 s"
  by (induction s) (auto simp: is_ascii_def rune_len_def byte_def)

lemma ValidString_ascii: "is_ascii s \<Longrightarrow> ValidString s"
  by (simp add: ValidString_def valid_from_ascii)

text \<open>
  Trimming keeps a string well-formed: white space is whole code points, and a byte that does not continue
  a code point starts a new one.
\<close>

definition starts_rune :: "char \<Rightarrow> bool" where
  "starts_rune c = (\<not> in_range 0x80 0xBF c)"

lemma starts_rune_not_in:
  "starts_rune b \<Longrightarrow> 0x80 \<le> lo \<Longrightarrow> hi \<le> 0xBF \<Longrightarrow> \<not> in_range lo hi b"
  by (auto simp: starts_rune_def in_range_def)

lemma rune_len_before:
  assumes "rune_len (c # cs @ b # t) = Suc n" and "starts_rune b"
  shows "n \<le> length cs \<and> rune_len (c # cs) = Suc n"
proof -
  have no: "\<not> in_range 0x80 0xBF b"
    "\<not> in_range (if p then 0xA0 else 0x80) (if q then 0x9F else 0xBF) b"
    "\<not> in_range (if p then 0x90 else 0x80) (if q then 0x8F else 0xBF) b" for p q
    using assms(2) by (simp_all add: starts_rune_not_in)
  consider "cs = []" | x where "cs = [x]" | x y where "cs = [x, y]" | x y z r where "cs = x # y # z # r"
    by (metis list.exhaust)
  then show ?thesis
  proof cases
    case 1
    with assms(1) no show ?thesis by (simp add: rune_len_def split: list.splits if_split_asm)
  next
    case 2
    with assms(1) no show ?thesis by (simp add: rune_len_def split: list.splits if_split_asm)
  next
    case 3
    with assms(1) no show ?thesis by (simp add: rune_len_def split: if_split_asm)
  next
    case 4
    with assms(1) show ?thesis by (simp add: rune_len_def split: if_split_asm)
  qed
qed

lemma valid_from_before:
  "valid_from k (s @ b # t) \<Longrightarrow> k \<le> length s \<Longrightarrow> starts_rune b \<Longrightarrow> valid_from k s"
proof (induction s arbitrary: k)
  case (Cons c cs)
  show ?case
  proof (cases k)
    case 0
    with Cons.prems obtain n where n: "rune_len (c # cs @ b # t) = Suc n" "valid_from n (cs @ b # t)"
      by (auto split: nat.splits)
    with rune_len_before Cons.prems(3) have "n \<le> length cs" "rune_len (c # cs) = Suc n" by blast+
    with n(2) Cons.IH Cons.prems(3) 0 show ?thesis by simp
  qed (use Cons in simp)
qed simp

lemma valid_from_skip: "valid_from (length r) (r @ t) = valid_from 0 t"
  by (induction r) auto

lemma space_rune_facts:
  assumes "r \<in> set space_runes"
  shows "rune_len (r @ t) = length r" and "r \<noteq> []" and "starts_rune (hd r)"
  using assms by (auto simp: space_runes_def rune_len_def in_range_def starts_rune_def byte_def)

lemma ValidString_drop_space: "ValidString s \<Longrightarrow> ValidString (drop (space_len s) s)"
proof (cases "List.find (\<lambda>r. prefix r s) space_runes")
  case (Some r)
  then have r: "r \<in> set space_runes" "prefix r s" by (auto simp: find_Some_iff)
  then obtain t where t: "s = r @ t" by (auto simp: prefix_def)
  obtain c cs where c: "r = c # cs" using space_rune_facts(2) [OF r(1)] by (cases r) auto
  assume "ValidString s"
  with t c space_rune_facts(1) [OF r(1), of t] have "valid_from (length cs) (cs @ t)"
    by (simp add: ValidString_def)
  with Some t show ?thesis by (simp add: ValidString_def space_len_def valid_from_skip)
qed (simp add: space_len_def)

lemma ValidString_drop_space_end: "ValidString s \<Longrightarrow> ValidString (take (length s - space_len_end s) s)"
proof (cases "List.find (\<lambda>r. suffix r s) space_runes")
  case (Some r)
  then have r: "r \<in> set space_runes" "suffix r s" by (auto simp: find_Some_iff)
  then obtain t where t: "s = t @ r" by (auto simp: suffix_def)
  obtain c cs where c: "r = c # cs" using space_rune_facts(2) [OF r(1)] by (cases r) auto
  assume "ValidString s"
  with t c space_rune_facts(3) [OF r(1)] have "ValidString t"
    unfolding ValidString_def by (auto intro: valid_from_before)
  with Some t show ?thesis by (simp add: space_len_end_def)
qed (simp add: space_len_end_def)

lemma ValidString_TrimLeft: "ValidString s \<Longrightarrow> ValidString (TrimLeft s)"
  by (induction s rule: TrimLeft.induct) (subst TrimLeft.simps, simp add: ValidString_drop_space)

lemma ValidString_TrimRight: "ValidString s \<Longrightarrow> ValidString (TrimRight s)"
  by (induction s rule: TrimRight.induct) (subst TrimRight.simps, simp add: ValidString_drop_space_end)

lemma ValidString_TrimSpace: "ValidString s \<Longrightarrow> ValidString (TrimSpace s)"
  by (simp add: TrimSpace_def ValidString_TrimLeft ValidString_TrimRight)

end
