(* ===== verification/Ocee_Sandbox.thy ===== *)
theory Ocee_Sandbox
  imports Ocee_Encoding
begin

text \<open>
  The shell program that runs as the first process of every sandbox container
  (\<^verbatim>\<open>sandboxScript\<close> in \<^verbatim>\<open>src/internal/executor/script.go\<close>). What the script observes of its
  surroundings is the record \<open>sandbox\<close>: whether the working directory and the decoding worked, the
  exit status and output of the commands it starts, the cgroup files at the moments it reads them,
  and the clock. A process the program left in the background may still write after the marker
  (\<open>sb_late_stdout\<close>, \<open>sb_late_stderr\<close>); the compiler's processes cannot, their output goes to a file.
  The model follows the script's own control flow and gives the bytes that appear on
  the container's two output streams when the script runs to its end.
  Shown: where the marker line is found, whatever surrounds it.
\<close>

section \<open>What the script observes\<close>

text \<open>
  The cgroup files: \<^const>\<open>None\<close> is a file that cannot be read. \<^verbatim>\<open>cpu.stat\<close> may lack the
  \<^verbatim>\<open>usage_usec\<close> line.
\<close>

record cgroup =
  cg_cpu_stat :: "nat option option"
  cg_cpuacct_usage :: "nat option"
  cg_memory_peak :: "nat option"
  cg_memory_max_usage :: "nat option"
  cg_memory_current :: "nat option"

record sandbox =
  sb_workdir_ok :: bool
  sb_decode_ok :: bool
  sb_compile_rc :: int
  sb_compile_log :: string
  sb_run_rc :: int
  sb_stdout :: string
  sb_stderr :: string
  sb_late_stdout :: string
  sb_late_stderr :: string
  sb_cg_compile :: cgroup
  sb_cg_base :: cgroup
  sb_cg_end :: cgroup
  sb_cg_emit :: cgroup
  sb_t0 :: int
  sb_t1 :: int

section \<open>The script\<close>

definition cpu_usec :: "cgroup \<Rightarrow> nat" where
  "cpu_usec cg =
     (case cg_cpu_stat cg of
        Some usage \<Rightarrow> (case usage of Some u \<Rightarrow> u | None \<Rightarrow> 0)
      | None \<Rightarrow> (case cg_cpuacct_usage cg of Some ns \<Rightarrow> ns div 1000 | None \<Rightarrow> 0))"

definition mem_peak :: "cgroup \<Rightarrow> nat" where
  "mem_peak cg =
     (case cg_memory_peak cg of Some n \<Rightarrow> n | None \<Rightarrow>
     (case cg_memory_max_usage cg of Some n \<Rightarrow> n | None \<Rightarrow>
     (case cg_memory_current cg of Some n \<Rightarrow> n | None \<Rightarrow> 0)))"

text \<open>The fields after the nonce, and the whole marker line with the line break before it.\<close>

definition marker_fields ::
  "string \<Rightarrow> string \<Rightarrow> string \<Rightarrow> string \<Rightarrow> string \<Rightarrow> string \<Rightarrow> string" where
  "marker_fields phase rc cpu mem secs b64 =
     ''phase='' @ phase @ '' rc='' @ rc @ '' cpu_usec='' @ cpu @ '' mem_bytes='' @ mem @
     '' secs='' @ secs @ '' compile_b64='' @ b64"

definition emit ::
  "string \<Rightarrow> string \<Rightarrow> string \<Rightarrow> string \<Rightarrow> string \<Rightarrow> string \<Rightarrow> string \<Rightarrow> string" where
  "emit nonce phase rc cpu mem secs b64 =
     nl # nonce @ CHR '' '' # marker_fields phase rc cpu mem secs b64 @ [nl]"

text \<open>Standard output and standard error of the container; the exit status is 0 on every path.\<close>

definition sandboxScript :: "string \<Rightarrow> string \<Rightarrow> sandbox \<Rightarrow> string \<times> string" where
  "sandboxScript nonce compile sb =
     (if \<not> sb_workdir_ok sb then ([], ''ocee: workdir unavailable'' @ [nl])
      else if \<not> sb_decode_ok sb then
        ([], ''ocee: could not decode submission'' @ [nl] @
             emit nonce ''setup'' ''70'' ''0'' (Itoa (int (mem_peak (sb_cg_emit sb)))) ''0'' [])
      else if compile \<noteq> [] \<and> sb_compile_rc sb \<noteq> 0 then
        ([], emit nonce ''compile'' (Itoa (sb_compile_rc sb))
               (Itoa (int (cpu_usec (sb_cg_compile sb)))) (Itoa (int (mem_peak (sb_cg_emit sb)))) ''0''
               (EncodeToString (take 16384 (sb_compile_log sb))))
      else
        (sb_stdout sb @ sb_late_stdout sb,
         sb_stderr sb @
         emit nonce ''run'' (Itoa (sb_run_rc sb))
           (Itoa (int (cpu_usec (sb_cg_end sb)) - int (cpu_usec (sb_cg_base sb))))
           (Itoa (int (mem_peak (sb_cg_emit sb)))) (Itoa (sb_t1 sb - sb_t0 sb)) [] @
         sb_late_stderr sb))"

definition script_exit :: int where
  "script_exit = 0"

section \<open>Facts\<close>

lemma emit_length: "length nonce + 8 \<le> length (emit nonce phase rc cpu mem secs b64)"
  by (simp add: emit_def marker_fields_def)

text \<open>
  Within the marker line, and whatever follows it that does not contain it, the text \<open>'' phase=''\<close> occurs once, right after the nonce: after every other
  blank comes another field name.
\<close>

lemma no_blank_LastIndex:
  "solid s \<Longrightarrow> LastIndex (s @ t) (CHR '' '' # p) = None \<longleftrightarrow> LastIndex t (CHR '' '' # p) = None"
proof (induction s)
  case (Cons c s)
  then have "c \<noteq> CHR '' ''" by (auto simp: char_class)
  with Cons show ?case by (auto split: option.splits)
qed simp

lemma marker_fields_no_phase:
  assumes "solid phase" "solid rc" "solid cpu" "solid mem" "solid secs" "solid b64"
    and "LastIndex t '' phase='' = None"
  shows "LastIndex (marker_fields phase rc cpu mem secs b64 @ nl # t) '' phase='' = None"
proof -
  have name: "solid ''phase=''" "solid ''rc=''" "solid ''cpu_usec=''" "solid ''mem_bytes=''"
    "solid ''secs=''" "solid ''compile_b64=''"
    by (simp_all add: char_class)
  have blank: "LastIndex (CHR '' '' # s) '' phase='' = None \<longleftrightarrow>
      \<not> prefix ''phase='' s \<and> LastIndex s '' phase='' = None" for s
    by (auto split: option.splits)
  have fields: "marker_fields phase rc cpu mem secs b64 @ nl # t =
      ''phase='' @ phase @ CHR '' '' # ''rc='' @ rc @ CHR '' '' # ''cpu_usec='' @ cpu @
      CHR '' '' # ''mem_bytes='' @ mem @ CHR '' '' # ''secs='' @ secs @
      CHR '' '' # ''compile_b64='' @ b64 @ nl # t"
    by (simp add: marker_fields_def)
  show ?thesis
    unfolding fields using assms
    by (simp only: no_blank_LastIndex name blank) simp
qed

lemma marker_found:
  assumes "solid phase" "solid rc" "solid cpu" "solid mem" "solid secs" "solid b64"
    and "LastIndex t '' phase='' = None"
  shows "LastIndex (s @ emit nonce phase rc cpu mem secs b64 @ t) (nonce @ '' phase='') =
    Some (length s + 1)"
proof -
  let ?f = "marker_fields phase rc cpu mem secs b64 @ nl # t"
  let ?line = "nonce @ CHR '' '' # ?f"
  have "LastIndex ?f '' phase='' = None"
    by (rule marker_fields_no_phase [OF assms])
  moreover have "drop (length nonce) (tl ?line) = ?f"
    by (cases nonce) auto
  ultimately have "LastIndex (tl ?line) (nonce @ '' phase='') = None"
    by (intro LastIndex_None_suffix) simp
  moreover have "prefix (nonce @ '' phase='') ?line"
    by (simp add: marker_fields_def)
  ultimately have "LastIndex ((s @ [nl]) @ ?line) (nonce @ '' phase='') = Some (length (s @ [nl]))"
    by (intro LastIndex_at) auto
  then show ?thesis by (simp add: emit_def)
qed

end
