(* ===== verification/Ocee_Float.thy ===== *)
theory Ocee_Float
  imports Complex_Main "HOL-Library.Log_Nat" Ocee_Prelude
begin

text \<open>
  Go's \<^verbatim>\<open>float64\<close> arithmetic as the program uses it. A finite float is a rational number, and the
  result of an operation is the exact result rounded to 53 significant bits, ties to even
  (\<open>fl64\<close>). Subnormal numbers are outside the model: the values the program computes with (seconds,
  nanoseconds, CPU shares, percentile ranks) are far from them. The infinities and NaN can only come from
  the environment, and are values of the type \<open>float64\<close>.
  Shown: the relative error of a rounding, exactness on integers below $2^{53}$, that
  \<open>int(d.Seconds())\<close> is the whole number of seconds of \<open>d\<close> for durations up to 48 days, and how far the
  conversion of a scaled float to \<^verbatim>\<open>int64\<close> is from the exact product.
\<close>

section \<open>Definitions\<close>

text \<open>The nearest integer, ties to even.\<close>

definition rne :: "rat \<Rightarrow> int" where
  "rne x =
     (let f = \<lfloor>x\<rfloor>; r = x - of_int f in
      if r < 1 / 2 then f else if r > 1 / 2 then f + 1 else if even f then f else f + 1)"

text \<open>The exponent of a non-zero number: \<open>2 powi ilog2 x \<le> \<bar>x\<bar> < 2 powi (ilog2 x + 1)\<close>.\<close>

definition ilog2 :: "rat \<Rightarrow> int" where
  "ilog2 x =
     (case quotient_of \<bar>x\<bar> of (p, q) \<Rightarrow>
        let k = bitlen p - bitlen q in if 2 powi k \<le> \<bar>x\<bar> then k else k - 1)"

definition fl64 :: "rat \<Rightarrow> rat" where
  "fl64 x =
     (if x = 0 then 0
      else let e = ilog2 x - 52 in of_int (rne (x * 2 powi (- e))) * 2 powi e)"

text \<open>Conversion of a float to an integer type drops the fraction.\<close>

definition trunc :: "rat \<Rightarrow> int" where
  "trunc x = (if 0 \<le> x then \<lfloor>x\<rfloor> else \<lceil>x\<rceil>)"

text \<open>\<open>int(d.Seconds())\<close>, with \<open>Seconds\<close> as in package \<open>time\<close>.\<close>

definition Seconds :: "duration \<Rightarrow> rat" where
  "Seconds d =
     fl64 (of_int (quot d second) + fl64 (of_int (d - quot d second * second) / 1000000000))"

definition seconds_int :: "duration \<Rightarrow> int" where
  "seconds_int d = trunc (Seconds d)"

text \<open>
  A \<^verbatim>\<open>float64\<close> that was read from text, its product with a positive constant, and its conversion to
  \<^verbatim>\<open>int64\<close>. Go leaves a conversion that does not fit open; the instruction of amd64 gives the smallest integer.
\<close>

datatype float64 = Finite rat | PosInf | NegInf | NaN

fun float_scale :: "rat \<Rightarrow> float64 \<Rightarrow> float64" where
  "float_scale c (Finite x) = Finite (fl64 (x * c))"
| "float_scale c f = f"

definition float_to_int64 :: "float64 \<Rightarrow> int" where
  "float_to_int64 f =
     (case f of
        Finite x \<Rightarrow> if - (2 ^ 63) \<le> trunc x \<and> trunc x < 2 ^ 63 then trunc x else - (2 ^ 63)
      | _ \<Rightarrow> - (2 ^ 63))"

section \<open>Rounding\<close>

lemma rne_error: "\<bar>of_int (rne x) - x\<bar> \<le> 1 / 2"
proof -
  have "of_int \<lfloor>x\<rfloor> \<le> x" "x < of_int \<lfloor>x\<rfloor> + 1"
    using floor_correct [of x] by auto
  then show ?thesis
    by (auto simp: rne_def Let_def abs_le_iff)
qed

lemma rne_int [simp]: "rne (of_int n) = n"
  by (simp add: rne_def)

lemma bitlen_powi:
  assumes "0 < p"
  shows "2 powi (bitlen p - 1) \<le> (of_int p :: rat)" "(of_int p :: rat) < 2 powi (bitlen p)"
proof -
  have "bitlen p \<noteq> 0" using assms by (simp add: bitlen_eq_zero_iff)
  with bitlen_nonneg [of p] have b: "0 \<le> bitlen p - 1" by simp
  from bitlen_bounds [OF assms] have "(of_int (2 ^ nat (bitlen p - 1)) :: rat) \<le> of_int p"
    "(of_int p :: rat) < of_int (2 ^ nat (bitlen p))"
    by (simp_all only: of_int_le_iff of_int_less_iff)
  with b show "2 powi (bitlen p - 1) \<le> (of_int p :: rat)" "(of_int p :: rat) < 2 powi (bitlen p)"
    by (simp_all add: power_int_nonneg_exp)
qed

lemma ilog2_bounds:
  assumes "x \<noteq> 0"
  shows "2 powi (ilog2 x) \<le> \<bar>x\<bar>" "\<bar>x\<bar> < 2 powi (ilog2 x + 1)"
proof -
  obtain p q where pq: "quotient_of \<bar>x\<bar> = (p, q)" by (cases "quotient_of \<bar>x\<bar>")
  have q: "0 < q" by (rule quotient_of_denom_pos [OF pq])
  have x: "\<bar>x\<bar> = of_int p / of_int q" by (rule quotient_of_div [OF pq])
  with assms q have p: "0 < p"
    by (metis of_int_0_less_iff zero_less_abs_iff zero_less_divide_iff less_asym)
  define k where "k = bitlen p - bitlen q"
  have "(2 :: rat) powi (bitlen p - 1) / 2 powi bitlen q \<le> of_int p / of_int q"
    using bitlen_powi [OF p] bitlen_powi [OF q] q p
    by (intro frac_le) auto
  then have lo: "2 powi (k - 1) \<le> \<bar>x\<bar>"
    by (simp add: x k_def flip: power_int_diff) (simp add: algebra_simps)
  have "(of_int p :: rat) / of_int q < 2 powi bitlen p / 2 powi (bitlen q - 1)"
    using bitlen_powi [OF p] bitlen_powi [OF q] q p
    by (intro frac_less) auto
  then have hi: "\<bar>x\<bar> < 2 powi (k + 1)"
    by (simp add: x k_def flip: power_int_diff) (simp add: algebra_simps)
  have "ilog2 x = (if 2 powi k \<le> \<bar>x\<bar> then k else k - 1)"
    by (simp add: ilog2_def pq k_def)
  with lo hi show "2 powi (ilog2 x) \<le> \<bar>x\<bar>" "\<bar>x\<bar> < 2 powi (ilog2 x + 1)"
    by (auto simp: not_le)
qed

lemma fl64_error: "\<bar>fl64 x - x\<bar> \<le> \<bar>x\<bar> / 2 ^ 53"
proof (cases "x = 0")
  case True
  then show ?thesis by (simp add: fl64_def)
next
  case False
  define e where "e = ilog2 x - 52"
  define y where "y = x * 2 powi (- e)"
  have x: "x = y * 2 powi e"
    by (simp add: y_def power_int_minus field_simps)
  have "fl64 x - x = (of_int (rne y) - y) * 2 powi e"
    using False by (simp add: fl64_def e_def [symmetric] y_def [symmetric] algebra_simps)
      (simp add: x algebra_simps)
  then have "\<bar>fl64 x - x\<bar> = \<bar>of_int (rne y) - y\<bar> * 2 powi e"
    by (simp add: abs_mult)
  also have "\<dots> \<le> 1 / 2 * 2 powi e"
    by (intro mult_right_mono rne_error) auto
  also have "\<dots> = 2 powi (ilog2 x) / 2 ^ 53"
    by (simp add: e_def power_int_diff)
  also have "\<dots> \<le> \<bar>x\<bar> / 2 ^ 53"
    by (intro divide_right_mono ilog2_bounds False) auto
  finally show ?thesis .
qed

lemma fl64_0 [simp]: "fl64 0 = 0"
  by (simp add: fl64_def)

lemma fl64_int:
  assumes "\<bar>n\<bar> < 2 ^ 53"
  shows "fl64 (of_int n) = of_int n"
proof (cases "n = 0")
  case False
  define e where "e = ilog2 (of_int n) - 52"
  have "2 powi (ilog2 (of_int n)) \<le> \<bar>of_int n :: rat\<bar>"
    using False by (intro ilog2_bounds) simp
  also have "\<dots> < 2 powi 53"
    using assms by (metis of_int_abs of_int_less_iff of_int_numeral of_int_power power_int_numeral)
  finally have "ilog2 (of_int n) < 53"
    by (metis linorder_not_less nle_le one_less_numeral_iff power_int_increasing semiring_norm(76))
  then have "0 \<le> - e" by (simp add: e_def)
  then have "(2 :: rat) powi (- e) = of_int (2 ^ nat (- e))"
    by (simp add: power_int_nonneg_exp)
  then have "of_int n * 2 powi (- e) = (of_int (n * 2 ^ nat (- e)) :: rat)" by simp
  then have "rne (of_int n * 2 powi (- e)) = n * 2 ^ nat (- e)" by (simp only: rne_int)
  then have "fl64 (of_int n) = of_int (n * 2 ^ nat (- e)) * 2 powi e"
    using False by (simp add: fl64_def e_def [symmetric])
  also have "\<dots> = of_int n * (2 powi (- e) * 2 powi e)"
    using \<open>2 powi (- e) = of_int (2 ^ nat (- e))\<close> by (simp add: mult.assoc)
  also have "\<dots> = of_int n"
    by (simp flip: power_int_add)
  finally show ?thesis .
qed simp

section \<open>Whole seconds\<close>

lemma trunc_eqI: "of_int n \<le> x \<Longrightarrow> x < of_int n + 1 \<Longrightarrow> 0 \<le> n \<Longrightarrow> trunc x = n"
  by (auto simp: trunc_def floor_unique dest: order_trans [of 0 "of_int n" x])

theorem seconds_int_eq:
  assumes "0 \<le> d" and "d < 2 ^ 22 * second"
  shows "seconds_int d = d div second"
proof -
  define s r where "s = d div second" and "r = d mod second"
  have d: "d = s * second + r" and r: "0 \<le> r" "r < second" and s: "0 \<le> s" "s < 2 ^ 22"
    using assms by (auto simp: s_def r_def pos_imp_zdiv_nonneg_iff div_less_iff_less_mult)
  have q: "quot d second = s" "d - s * second = r"
    using assms by (auto simp: quot_nonneg s_def r_def minus_div_mult_eq_mod)
  define f :: rat where "f = of_int r / 1000000000"
  have f: "0 \<le> f" "f \<le> 999999999 / 1000000000"
    using r by (auto simp: f_def)
  show ?thesis
  proof (cases "r = 0")
    case True
    have "Seconds d = of_int s"
      unfolding Seconds_def q True using s by (simp add: fl64_int)
    with s show ?thesis
      by (simp add: seconds_int_def trunc_def flip: s_def)
  next
    case False
    with r have f1: "1 / 1000000000 \<le> f" by (simp add: f_def)
    define g where "g = fl64 f"
    have "\<bar>g - f\<bar> \<le> 1 / 9007199254740992"
      using fl64_error [of f] f by (auto simp: g_def)
    then have g: "f - 1 / 9007199254740992 \<le> g" "g \<le> f + 1 / 9007199254740992"
      by linarith+
    define x where "x = of_int s + g"
    have sx: "(of_int s :: rat) \<le> 4194303" "0 \<le> (of_int s :: rat)"
      using s by auto
    have x: "0 \<le> x" "x \<le> 4194304"
      using g f f1 sx unfolding x_def by linarith+
    then have "\<bar>x\<bar> / 2 ^ 53 \<le> 4194304 / 9007199254740992" by simp
    with fl64_error [of x] have "x - 4194304 / 9007199254740992 \<le> fl64 x"
      "fl64 x \<le> x + 4194304 / 9007199254740992" by linarith+
    with g f f1 have "of_int s \<le> fl64 x" "fl64 x < of_int s + 1"
      unfolding x_def by linarith+
    with s have "trunc (fl64 x) = s" by (intro trunc_eqI)
    moreover have "Seconds d = fl64 x"
      unfolding Seconds_def q by (simp add: x_def g_def f_def)
    ultimately show ?thesis
      by (simp add: seconds_int_def flip: s_def)
  qed
qed

text \<open>A positive float in nanounits: off by less than one unit and the rounding of the product.\<close>

lemma float_to_int64_near:
  assumes "0 < z" and "z \<le> 2 ^ 62" and "\<bar>y - z\<bar> \<le> z / 2 ^ 53"
  shows "\<bar>of_int (float_to_int64 (Finite y)) - z\<bar> < 1 + z / 2 ^ 53"
proof -
  define d where "d = z / 2 ^ 53"
  have d: "0 < d" "d \<le> z" "d \<le> 2 ^ 9" using assms(1,2) by (simp_all add: d_def field_simps)
  have y: "y \<le> z + d" "z \<le> y + d" using assms(3) unfolding d_def [symmetric] by linarith+
  have f: "of_int \<lfloor>y\<rfloor> \<le> y" "y < of_int \<lfloor>y\<rfloor> + 1" using floor_correct [of y] by auto
  have nonneg: "0 \<le> y" using y d by linarith
  have "(of_int \<lfloor>y\<rfloor> :: rat) < of_int (2 ^ 63)" using f(1) y(1) d(3) assms(2) by simp
  then have "\<lfloor>y\<rfloor> < 2 ^ 63" by (simp only: of_int_less_iff)
  moreover have "0 \<le> \<lfloor>y\<rfloor>" using nonneg by simp
  ultimately have "float_to_int64 (Finite y) = \<lfloor>y\<rfloor>"
    using nonneg by (simp add: float_to_int64_def trunc_def)
  moreover have "of_int \<lfloor>y\<rfloor> - z < 1 + d" "z - of_int \<lfloor>y\<rfloor> < 1 + d"
    using f y d by linarith+
  ultimately show ?thesis by (simp add: d_def abs_less_iff)
qed

lemma float_to_int64_scaled:
  assumes "0 < x" and "x * 1000000000 \<le> 2 ^ 62"
  shows "\<bar>of_int (float_to_int64 (float_scale 1000000000 (Finite x))) - x * 1000000000\<bar> <
    1 + x * 1000000000 / 2 ^ 53"
  unfolding float_scale.simps
  using assms fl64_error [of "x * 1000000000"] by (intro float_to_int64_near) simp_all

end
