(* ===== verification/Ocee_Outcome.thy ===== *)
theory Ocee_Outcome
  imports Ocee_Sandbox Ocee_Config
begin

text \<open>
  The part of package \<^verbatim>\<open>executor\<close> (\<^verbatim>\<open>src/internal/executor/executor.go\<close>) that turns the output
  of a finished container into the result of a submission: \<open>limitedWriter\<close>, which bounds what is
  kept of each stream, \<open>extractMarker\<close>, which splits the metrics line off stderr,
  \<open>buildOutcome\<close>, which classifies what happened, and \<open>newNonce\<close>.
  The contract of a bounded writer is the locale \<open>capped_writer\<close>.
  Shown: a bounded writer keeps exactly the first bytes of what it is given and never reports a
  short write; the marker written by the script is read back whatever the program printed before it,
  and every number of a marker fits its column. Which flags an outcome has is stated for whole executions
  in \<open>Ocee_Executor\<close>.
\<close>

section \<open>limitedWriter\<close>

text \<open>
  An \<^verbatim>\<open>io.Writer\<close> is a state and a function that takes the bytes and returns the new state, the
  number of bytes written and an error. The writer behind a \<open>limitedWriter\<close> is a parameter; the
  program uses a \<^verbatim>\<open>bytes.Buffer\<close>, whose \<open>Write\<close> appends and never fails.
\<close>

type_synonym 'b writer = "'b \<Rightarrow> string \<Rightarrow> 'b \<times> nat \<times> string option"

record 'b limitedWriter =
  lw_w :: 'b
  lw_remaining :: int

definition buffer_write :: "string writer" where
  "buffer_write buf p = (buf @ p, length p, None)"

definition limited_Write :: "'b writer \<Rightarrow> 'b limitedWriter writer" where
  "limited_Write wr l p =
     (if lw_remaining l \<le> 0 then (l, length p, None)
      else
        let chunk = (if int (length p) > lw_remaining l then take (nat (lw_remaining l)) p else p)
        in (case wr (lw_w l) chunk of
              (w', n, e) \<Rightarrow>
                let l' = \<lparr>lw_w = w', lw_remaining = lw_remaining l - int n\<rparr>
                in (case e of Some err \<Rightarrow> (l', n, Some err) | None \<Rightarrow> (l', length p, None))))"

text \<open>A sequence of writes, stopping at the first error, as \<^verbatim>\<open>io.Copy\<close> does.\<close>

fun write_all :: "'b writer \<Rightarrow> 'b \<Rightarrow> string list \<Rightarrow> 'b \<times> string option" where
  "write_all wr w [] = (w, None)"
| "write_all wr w (p # ps) =
     (case wr w p of (w', n, e) \<Rightarrow>
        if e \<noteq> None then (w', e)
        else if n \<noteq> length p then (w', Some ''short write'')
        else write_all wr w' ps)"

text \<open>What is kept of a stream that arrives in the given pieces.\<close>

definition capture :: "int \<Rightarrow> string list \<Rightarrow> string" where
  "capture cap chunks =
     lw_w (fst (write_all (limited_Write buffer_write) \<lparr>lw_w = [], lw_remaining = cap\<rparr> chunks))"

section \<open>The marker\<close>

record marker =
  m_phase :: string
  m_rc :: int
  m_cpuUsec :: int
  m_memBytes :: int
  m_secs :: int
  m_compileOutput :: string

definition empty_marker :: marker where
  "empty_marker = \<lparr>m_phase = [], m_rc = 0, m_cpuUsec = 0, m_memBytes = 0, m_secs = 0,
     m_compileOutput = []\<rparr>"

text \<open>One turn of the loop over the fields. The errors of \<^const>\<open>ParseInt\<close> are dropped.\<close>

definition marker_field :: "string \<Rightarrow> marker \<Rightarrow> marker" where
  "marker_field field m =
     (case CutByte field (CHR ''='') of
        (k, v, found) \<Rightarrow>
          if \<not> found then m
          else if k = ''phase'' then m\<lparr>m_phase := v\<rparr>
          else if k = ''rc'' then m\<lparr>m_rc := fst (ParseInt v)\<rparr>
          else if k = ''cpu_usec'' then m\<lparr>m_cpuUsec := fst (ParseInt v)\<rparr>
          else if k = ''mem_bytes'' then m\<lparr>m_memBytes := fst (ParseInt v)\<rparr>
          else if k = ''secs'' then m\<lparr>m_secs := fst (ParseInt v)\<rparr>
          else if k = ''compile_b64'' then
            (case DecodeString v of None \<Rightarrow> m | Some raw \<Rightarrow> m\<lparr>m_compileOutput := raw\<rparr>)
          else m)"

definition parse_marker :: "string list \<Rightarrow> marker" where
  "parse_marker fs =
     (let m = fold marker_field fs empty_marker in
      if m_cpuUsec m < 0 then m\<lparr>m_cpuUsec := 0\<rparr> else m)"

definition extractMarker :: "string \<Rightarrow> string \<Rightarrow> string \<times> marker \<times> bool" where
  "extractMarker stderr nonce =
     (case LastIndex stderr (nonce @ '' phase='') of
        None \<Rightarrow> (stderr, empty_marker, False)
      | Some idx \<Rightarrow>
          let rest = drop idx stderr;
              line = (case IndexByte rest nl of Some n \<Rightarrow> take n rest | None \<Rightarrow> rest);
              clean = TrimSuffix (take idx stderr) [nl];
              m = parse_marker (Fields (TrimPrefix line (nonce @ '' '')))
          in (clean, m, m_phase m \<noteq> []))"

section \<open>The outcome\<close>

record Outcome =
  out_Stdout :: string
  out_Stderr :: string
  out_CompileOutput :: string
  out_ExitCode :: int
  out_CPUTimeMS :: int
  out_WallTimeMS :: int
  out_MemoryKB :: int
  out_TimedOut :: bool
  out_OOMKilled :: bool
  out_CompileError :: bool

definition Milliseconds :: "duration \<Rightarrow> int" where
  "Milliseconds d = quot d millisecond"

definition buildOutcome ::
  "Config \<Rightarrow> string \<Rightarrow> string \<Rightarrow> string \<Rightarrow> int \<Rightarrow> duration \<Rightarrow> bool \<Rightarrow> Outcome" where
  "buildOutcome cfg stdout stderr nonce containerExit wall oom =
     (case extractMarker stderr nonce of
        (cleanErr, m, found) \<Rightarrow>
          let out = \<lparr>out_Stdout = stdout, out_Stderr = cleanErr, out_CompileOutput = [],
                out_ExitCode = 0, out_CPUTimeMS = 0, out_WallTimeMS = Milliseconds wall,
                out_MemoryKB = 0, out_TimedOut = False, out_OOMKilled = oom,
                out_CompileError = False\<rparr>
          in if \<not> found then
               let out1 = out\<lparr>out_ExitCode := wrap32 containerExit\<rparr> in
               if oom then out1\<lparr>out_MemoryKB := wrap64 (MemoryLimitMB cfg * 2 ^ 10)\<rparr>
               else if wall \<ge> RunTimeout cfg then out1\<lparr>out_TimedOut := True\<rparr>
               else out1
             else
               let out2 = out\<lparr>out_CPUTimeMS := quot (m_cpuUsec m) 1000,
                     out_MemoryKB := quot (m_memBytes m) 1024, out_ExitCode := wrap32 (m_rc m)\<rparr>
               in if m_phase m = ''compile'' then
                    out2\<lparr>out_CompileError := True, out_CompileOutput := m_compileOutput m,
                         out_TimedOut := m_rc m = 137\<rparr>
                  else if m_phase m = ''run'' then
                    out2\<lparr>out_TimedOut :=
                      m_rc m = 137 \<and> \<not> oom \<and> m_secs m \<ge> seconds_int (RunTimeout cfg)\<rparr>
                  else out2)"

text \<open>\<open>rand.Read\<close> either fails or delivers the 16 bytes.\<close>

definition newNonce :: "string + string \<Rightarrow> string + string" where
  "newNonce rnd =
     (case rnd of
        Inl e \<Rightarrow> Inl (''generate nonce: '' @ e)
      | Inr b \<Rightarrow> Inr (''__OCEE_'' @ hex_EncodeToString b @ ''__''))"

section \<open>Bounded writers\<close>

text \<open>
  The contract of a writer that keeps a bounded prefix of its input: \<open>kept\<close> is what it holds,
  \<open>room\<close> how much it still takes.
\<close>

locale capped_writer =
  fixes wr :: "'b writer"
    and kept :: "'b \<Rightarrow> string"
    and room :: "'b \<Rightarrow> nat"
  assumes wr_result: "\<exists>w'. wr w p = (w', length p, None)"
    and wr_kept: "wr w p = (w', n, e) \<Longrightarrow> kept w' = kept w @ take (room w) p"
    and wr_room: "wr w p = (w', n, e) \<Longrightarrow> room w' = room w - length p"
begin

lemma write_all_kept:
  "\<exists>w'. write_all wr w ps = (w', None) \<and> kept w' = kept w @ take (room w) (concat ps)"
proof (induction ps arbitrary: w)
  case Nil
  then show ?case by simp
next
  case (Cons p ps)
  obtain w' where w: "wr w p = (w', length p, None)"
    using wr_result by blast
  from Cons.IH [of w'] obtain w'' where
    "write_all wr w' ps = (w'', None)" "kept w'' = kept w' @ take (room w') (concat ps)"
    by blast
  then show ?case
    using w wr_kept [OF w] wr_room [OF w] by simp
qed

lemma write_all_bounded: "length (kept (fst (write_all wr w ps))) \<le> length (kept w) + room w"
  using write_all_kept [of w ps] by auto

end

lemma limited_buffer_Write:
  "limited_Write buffer_write l p =
     (\<lparr>lw_w = lw_w l @ take (nat (lw_remaining l)) p,
       lw_remaining = (if lw_remaining l \<le> 0 then lw_remaining l
         else lw_remaining l - min (int (length p)) (lw_remaining l))\<rparr>, length p, None)"
  by (cases l) (auto simp: limited_Write_def buffer_write_def Let_def)

interpretation lw: capped_writer "limited_Write buffer_write" lw_w "\<lambda>l. nat (lw_remaining l)"
  by unfold_locales (auto simp: limited_buffer_Write)

lemma capture_eq: "capture cap chunks = take (nat cap) (concat chunks)"
  using lw.write_all_kept [of "\<lparr>lw_w = [], lw_remaining = cap\<rparr>" chunks]
  by (auto simp: capture_def)

section \<open>Reading the marker back\<close>

definition int64 :: "int \<Rightarrow> bool" where
  "int64 n = (- (2 ^ 63) \<le> n \<and> n < 2 ^ 63)"

lemma ParseInt_int64: "int64 n \<Longrightarrow> fst (ParseInt (Itoa n)) = n"
  by (simp add: int64_def ParseInt_Itoa)

lemma Fields_field:
  assumes "solid (c # k)" and "solid v"
  shows "Fields (((c # k) @ v) @ CHR '' '' # s) = ((c # k) @ v) # Fields s"
    and "Fields ((c # k) @ v) = [(c # k) @ v]"
  using assms Fields_cons [of "(c # k) @ v" s] Fields_solid [of "(c # k) @ v"] by simp_all

lemma Fields_marker_fields:
  assumes "solid phase" "solid rc" "solid cpu" "solid mem" "solid secs" "solid b64"
  shows "Fields (marker_fields phase rc cpu mem secs b64) =
    [''phase='' @ phase, ''rc='' @ rc, ''cpu_usec='' @ cpu, ''mem_bytes='' @ mem,
     ''secs='' @ secs, ''compile_b64='' @ b64]"
proof -
  have name: "solid ''phase=''" "solid ''rc=''" "solid ''cpu_usec=''" "solid ''mem_bytes=''"
    "solid ''secs=''" "solid ''compile_b64=''"
    by (simp_all add: char_class)
  have fields: "marker_fields phase rc cpu mem secs b64 =
      (''phase='' @ phase) @ CHR '' '' # (''rc='' @ rc) @ CHR '' '' # (''cpu_usec='' @ cpu) @
      CHR '' '' # (''mem_bytes='' @ mem) @ CHR '' '' # (''secs='' @ secs) @
      CHR '' '' # (''compile_b64='' @ b64)"
    by (simp add: marker_fields_def)
  show ?thesis
    unfolding fields by (simp only: Fields_field name assms)
qed

lemma marker_field_eq:
  "marker_field (''phase='' @ v) m = m\<lparr>m_phase := v\<rparr>"
  "marker_field (''rc='' @ v) m = m\<lparr>m_rc := fst (ParseInt v)\<rparr>"
  "marker_field (''cpu_usec='' @ v) m = m\<lparr>m_cpuUsec := fst (ParseInt v)\<rparr>"
  "marker_field (''mem_bytes='' @ v) m = m\<lparr>m_memBytes := fst (ParseInt v)\<rparr>"
  "marker_field (''secs='' @ v) m = m\<lparr>m_secs := fst (ParseInt v)\<rparr>"
  "marker_field (''compile_b64='' @ v) m =
     (case DecodeString v of None \<Rightarrow> m | Some raw \<Rightarrow> m\<lparr>m_compileOutput := raw\<rparr>)"
  by (simp_all add: marker_field_def)

lemma parse_marker_fields:
  assumes "solid phase" and "int64 rc" "int64 cpu" "int64 mem" "int64 secs"
  shows "parse_marker (Fields (marker_fields phase (Itoa rc) (Itoa cpu) (Itoa mem) (Itoa secs)
      (EncodeToString diag))) =
    \<lparr>m_phase = phase, m_rc = rc, m_cpuUsec = max 0 cpu, m_memBytes = mem, m_secs = secs,
     m_compileOutput = diag\<rparr>"
  using assms
  by (simp add: Fields_marker_fields parse_marker_def marker_field_eq ParseInt_int64
      DecodeString_EncodeToString empty_marker_def Let_def del: append_Cons)

lemma extractMarker_emit:
  assumes "nl \<notin> set nonce" and "solid phase" and "phase \<noteq> []"
    and "int64 rc" "int64 cpu" "int64 mem" "int64 secs"
    and "LastIndex t '' phase='' = None"
  shows "extractMarker (s @ emit nonce phase (Itoa rc) (Itoa cpu) (Itoa mem) (Itoa secs)
      (EncodeToString diag) @ t) nonce =
    (s, \<lparr>m_phase = phase, m_rc = rc, m_cpuUsec = max 0 cpu, m_memBytes = mem, m_secs = secs,
         m_compileOutput = diag\<rparr>, True)"
proof -
  let ?f = "marker_fields phase (Itoa rc) (Itoa cpu) (Itoa mem) (Itoa secs) (EncodeToString diag)"
  let ?e = "emit nonce phase (Itoa rc) (Itoa cpu) (Itoa mem) (Itoa secs) (EncodeToString diag) @ t"
  have idx: "LastIndex (s @ ?e) (nonce @ '' phase='') = Some (length s + 1)"
    using assms by (intro marker_found) simp_all
  have rest: "drop (length s + 1) (s @ ?e) = (nonce @ '' '' @ ?f) @ nl # t"
    by (simp add: emit_def)
  have "solid ''phase=''" "solid ''rc=''" "solid ''cpu_usec=''" "solid ''mem_bytes=''"
    "solid ''secs=''" "solid ''compile_b64=''"
    by (simp_all add: char_class)
  with assms have "nl \<notin> set ?f"
    by (simp add: marker_fields_def nl_notin_solid)
  with assms have line: "IndexByte (drop (length s + 1) (s @ ?e)) nl = Some (length (nonce @ '' '' @ ?f))"
    unfolding rest by (intro IndexByte_append) auto
  have clean: "take (length s + 1) (s @ ?e) = s @ [nl]"
    by (simp add: emit_def)
  have trim: "TrimPrefix (nonce @ '' '' @ ?f) (nonce @ '' '') = ?f"
    using TrimPrefix_append [of "nonce @ '' ''" ?f] by simp
  show ?thesis
    unfolding extractMarker_def idx option.case Let_def line clean
    by (simp only: rest take_append order_refl take_all length_append append_eq_append_conv2
        diff_self_eq_0 take0 append_Nil2 trim parse_marker_fields [OF assms(2,4-7)] TrimSuffix_append)
      (simp add: assms(3) trim parse_marker_fields [OF assms(2,4-7)])
qed

lemma newNonce_shape:
  assumes "newNonce rnd = Inr nonce"
  shows "solid nonce" and "nl \<notin> set nonce"
proof -
  from assms obtain b where "nonce = ''__OCEE_'' @ hex_EncodeToString b @ ''__''"
    by (auto simp: newNonce_def split: sum.splits)
  then show "solid nonce" by (simp add: char_class)
  then show "nl \<notin> set nonce" by (rule nl_notin_solid)
qed

section \<open>Classification\<close>

text \<open>The two cases of \<^const>\<open>buildOutcome\<close>, without a marker and with one.\<close>

lemma buildOutcome_unmarked:
  assumes "extractMarker stderr nonce = (c, m, False)"
  shows "buildOutcome cfg stdout stderr nonce code wall oom =
    \<lparr>out_Stdout = stdout, out_Stderr = c, out_CompileOutput = [], out_ExitCode = wrap32 code,
     out_CPUTimeMS = 0, out_WallTimeMS = Milliseconds wall,
     out_MemoryKB = (if oom then wrap64 (MemoryLimitMB cfg * 1024) else 0),
     out_TimedOut = (\<not> oom \<and> wall \<ge> RunTimeout cfg), out_OOMKilled = oom,
     out_CompileError = False\<rparr>"
  using assms by (simp add: buildOutcome_def Let_def)

lemma buildOutcome_marked:
  assumes "extractMarker stderr nonce = (c, m, True)"
  shows "buildOutcome cfg stdout stderr nonce code wall oom =
    \<lparr>out_Stdout = stdout, out_Stderr = c,
     out_CompileOutput = (if m_phase m = ''compile'' then m_compileOutput m else []),
     out_ExitCode = wrap32 (m_rc m), out_CPUTimeMS = quot (m_cpuUsec m) 1000,
     out_WallTimeMS = Milliseconds wall, out_MemoryKB = quot (m_memBytes m) 1024,
     out_TimedOut = (m_rc m = 137 \<and> (m_phase m = ''compile'' \<or>
       m_phase m = ''run'' \<and> \<not> oom \<and> m_secs m \<ge> seconds_int (RunTimeout cfg))),
     out_OOMKilled = oom, out_CompileError = (m_phase m = ''compile'')\<rparr>"
  using assms by (simp add: buildOutcome_def Let_def)

lemma extractMarker_absent:
  "LastIndex stderr (nonce @ '' phase='') = None \<Longrightarrow>
   extractMarker stderr nonce = (stderr, empty_marker, False)"
  by (simp add: extractMarker_def)

section \<open>Widths\<close>

text \<open>Every number of a marker fits 64 bits, whatever the line says, and the CPU time is not negative.\<close>

definition int32 :: "int \<Rightarrow> bool" where
  "int32 n = (- (2 ^ 31) \<le> n \<and> n < 2 ^ 31)"

definition marker_fits :: "marker \<Rightarrow> bool" where
  "marker_fits m = (int64 (m_rc m) \<and> int64 (m_cpuUsec m) \<and> int64 (m_memBytes m) \<and> int64 (m_secs m))"

lemma ParseInt_fits: "int64 (fst (ParseInt s))"
  by (auto simp: ParseInt_def int64_def Let_def split: list.split sum.split num_error.split)

lemma marker_field_fits: "marker_fits m \<Longrightarrow> marker_fits (marker_field f m)"
  by (simp add: marker_field_def marker_fits_def ParseInt_fits split: prod.split option.split)

lemma fold_marker_fits: "marker_fits m \<Longrightarrow> marker_fits (fold marker_field fs m)"
  by (induction fs arbitrary: m) (simp_all add: marker_field_fits)

lemma extractMarker_fits:
  assumes "extractMarker stderr nonce = (c, m, found)"
  shows "marker_fits m" and "0 \<le> m_cpuUsec m" and "length c \<le> length stderr"
proof -
  have e: "marker_fits empty_marker" by (simp add: marker_fits_def empty_marker_def int64_def)
  have "marker_fits (parse_marker fs)" "0 \<le> m_cpuUsec (parse_marker fs)" for fs
    using fold_marker_fits [OF e, of fs] by (auto simp: parse_marker_def marker_fits_def int64_def Let_def)
  with assms e show "marker_fits m" "0 \<le> m_cpuUsec m"
    by (auto simp: extractMarker_def Let_def empty_marker_def split: option.splits)
  have "length (TrimSuffix (take i stderr) x) \<le> length stderr" for i x
    by (auto simp: TrimSuffix_def)
  with assms show "length c \<le> length stderr"
    by (auto simp: extractMarker_def Let_def split: option.splits)
qed

lemma quot_fits:
  assumes "int64 n" and "0 < k"
  shows "int64 (quot n k)"
proof -
  have le: "0 \<le> a div k \<and> a div k \<le> a" if "0 \<le> a" for a
    using that assms(2) zdiv_mono2 [of a 1 k] by (simp add: pos_imp_zdiv_nonneg_iff)
  show ?thesis
  proof (cases "0 \<le> n")
    case True
    with le [OF True] assms show ?thesis by (simp add: int64_def quot_nonneg)
  next
    case False
    then have "quot n k = - (- n div k)" using assms(2) by (simp add: quot_def)
    with le [of "- n"] False assms(1) show ?thesis by (simp add: int64_def)
  qed
qed

section \<open>Properties\<close>

text \<open>
  C29. A \<open>limitedWriter\<close> over a buffer accepts every write in full and never fails, whatever the
  pieces are, and what the buffer holds afterwards is exactly the first \<open>cap\<close> bytes of all that was
  written.
\<close>

theorem limited_writer_keeps_prefix:
  "\<exists>l. write_all (limited_Write buffer_write) \<lparr>lw_w = [], lw_remaining = cap\<rparr> chunks = (l, None) \<and>
     lw_w l = take (nat cap) (concat chunks)"
  using lw.write_all_kept [of "\<lparr>lw_w = [], lw_remaining = cap\<rparr>" chunks] by simp

text \<open>
  C11. Whatever bytes the program wrote to stderr before (also lines in the form of a marker, with the
  right nonce), the marker the script appends is the one that is read, every number and the compiler
  output come back unchanged (a negative CPU time as 0), and the rest of stderr is what the program
  wrote, byte for byte.
\<close>

theorem marker_roundtrip:
  assumes "newNonce rnd = Inr nonce" and "phase \<in> {''setup'', ''compile'', ''run''}"
    and "int64 rc" "int64 cpu" "int64 mem" "int64 secs"
  shows "extractMarker (s @ emit nonce phase (Itoa rc) (Itoa cpu) (Itoa mem) (Itoa secs)
      (EncodeToString diag)) nonce =
    (s, \<lparr>m_phase = phase, m_rc = rc, m_cpuUsec = max 0 cpu, m_memBytes = mem, m_secs = secs,
         m_compileOutput = diag\<rparr>, True)"
proof (rule extractMarker_emit [where t = "[]", simplified])
  show "nl \<notin> set nonce" by (rule newNonce_shape [OF assms(1)])
  show "solid phase" "phase \<noteq> []" using assms(2) by (auto simp: char_class)
qed (use assms in auto)

theorem marker_roundtrip_witness:
  "extractMarker (''__OCEE_2a__ phase=run rc=0'' @ emit ''__OCEE_2a__'' ''run'' (Itoa 137) (Itoa 5)
      (Itoa 4096) (Itoa 10) (EncodeToString [])) ''__OCEE_2a__'' =
    (''__OCEE_2a__ phase=run rc=0'', \<lparr>m_phase = ''run'', m_rc = 137, m_cpuUsec = max 0 5,
       m_memBytes = 4096, m_secs = 10, m_compileOutput = []\<rparr>, True)"
  by (rule marker_roundtrip [of "Inr ''*''"])
    (simp_all add: newNonce_def hex_digit_def byte_def int64_def)

end
