(* ===== verification/Ocee_Lang.thy ===== *)
theory Ocee_Lang
  imports Ocee_Prelude "HOL-Library.List_Lexorder" "HOL-Library.Multiset"
begin

text \<open>
  Package \<^verbatim>\<open>lang\<close> (\<^verbatim>\<open>src/internal/lang/lang.go\<close>): the registry of supported languages. The Go
  map is the association list \<open>registry\<close>. Ranging over a Go map visits the entries in an order of
  the runtime's choice, so \<open>All\<close> and \<open>Images\<close> take the order \<open>it\<close> as an argument, and their
  properties are stated for every permutation of the registry.
  Shown: every entry is complete and filed under its own id, \<open>All\<close> is sorted and does not depend on
  the iteration order, \<open>Images\<close> lists every image once, in the order of first use.
\<close>

section \<open>The registry\<close>

record Spec =
  spec_ID :: string
  spec_Name :: string
  spec_Version :: string
  spec_Image :: string
  spec_Filename :: string
  spec_Compile :: string
  spec_Run :: string
  spec_Notes :: string

definition Compiled :: "Spec \<Rightarrow> bool" where
  "Compiled s = (spec_Compile s \<noteq> [])"

definition python_spec :: Spec where
  "python_spec =
     \<lparr>spec_ID = ''python'', spec_Name = ''Python'', spec_Version = ''3.12'',
      spec_Image = ''python:3.12-alpine'', spec_Filename = ''main.py'', spec_Compile = [],
      spec_Run = ''python3 -I main.py'', spec_Notes = []\<rparr>"

definition node_spec :: Spec where
  "node_spec =
     \<lparr>spec_ID = ''node'', spec_Name = ''Node.js'', spec_Version = ''22'',
      spec_Image = ''node:22-alpine'', spec_Filename = ''main.js'', spec_Compile = [],
      spec_Run = ''node main.js'', spec_Notes = []\<rparr>"

definition c_spec :: Spec where
  "c_spec =
     \<lparr>spec_ID = ''c'', spec_Name = ''C'', spec_Version = ''GCC 14 (C17)'',
      spec_Image = ''gcc:14'', spec_Filename = ''main.c'',
      spec_Compile = ''gcc -std=c17 -O2 -static -o prog main.c -lm'',
      spec_Run = ''./prog'', spec_Notes = []\<rparr>"

definition cpp_spec :: Spec where
  "cpp_spec =
     \<lparr>spec_ID = ''cpp'', spec_Name = ''C++'', spec_Version = ''GCC 14 (C++20)'',
      spec_Image = ''gcc:14'', spec_Filename = ''main.cpp'',
      spec_Compile = ''g++ -std=c++20 -O2 -static -o prog main.cpp'',
      spec_Run = ''./prog'', spec_Notes = []\<rparr>"

definition java_spec :: Spec where
  "java_spec =
     \<lparr>spec_ID = ''java'', spec_Name = ''Java'', spec_Version = ''Temurin 21'',
      spec_Image = ''eclipse-temurin:21-jdk-alpine'', spec_Filename = ''Main.java'',
      spec_Compile = ''javac Main.java'',
      spec_Run = ''java -XX:-UsePerfData -Xshare:auto Main'',
      spec_Notes = ''The public class must be named Main.''\<rparr>"

type_synonym registry = "(string \<times> Spec) list"

definition registry :: registry where
  "registry =
     [(''python'', python_spec), (''node'', node_spec), (''c'', c_spec), (''cpp'', cpp_spec),
      (''java'', java_spec)]"

definition Get :: "string \<Rightarrow> Spec option" where
  "Get k = map_of registry k"

text \<open>
  \<open>sort.Slice\<close> with the order on ids. The sort need not be stable; the ids are distinct, so every
  sorting function gives this list.
\<close>

definition All :: "registry \<Rightarrow> Spec list" where
  "All it = sort_key spec_ID (map snd it)"

fun images_loop :: "string list \<Rightarrow> string list \<Rightarrow> Spec list \<Rightarrow> string list" where
  "images_loop seen out [] = out"
| "images_loop seen out (s # ss) =
     (if spec_Image s \<in> set seen then images_loop seen out ss
      else images_loop (spec_Image s # seen) (out @ [spec_Image s]) ss)"

definition Images :: "registry \<Rightarrow> string list" where
  "Images it = images_loop [] [] (All it)"

lemmas spec_defs = python_spec_def node_spec_def c_spec_def cpp_spec_def java_spec_def

section \<open>Facts\<close>

lemma registry_ids: "map (spec_ID \<circ> snd) registry = map fst registry"
  by (simp add: registry_def spec_defs)

lemma registry_distinct: "distinct (map fst registry)"
  by (simp add: registry_def)

lemma Get_mem: "Get k = Some s \<Longrightarrow> (k, s) \<in> set registry"
  by (simp add: Get_def map_of_SomeD)

lemma Get_cases:
  assumes "Get k = Some s"
  obtains "s = python_spec" "k = ''python''" | "s = node_spec" "k = ''node''"
    | "s = c_spec" "k = ''c''" | "s = cpp_spec" "k = ''cpp''" | "s = java_spec" "k = ''java''"
  using Get_mem [OF assms] unfolding registry_def by auto

lemma Get_ID: "Get k = Some s \<Longrightarrow> spec_ID s = k"
  by (erule Get_cases) (simp_all add: spec_defs)

lemma All_registry: "All registry = [c_spec, cpp_spec, java_spec, node_spec, python_spec]"
  by (simp add: All_def registry_def spec_defs)

lemma All_permutation:
  assumes "mset it = mset registry"
  shows "All it = All registry"
proof -
  have "inj_on spec_ID (set (map snd registry))"
    by (simp add: registry_def spec_defs)
  moreover have "mset (map snd registry) = mset (map snd it)"
    using assms by (metis mset_map)
  ultimately show ?thesis
    unfolding All_def by (metis sort_key_eq_sort_key)
qed

text \<open>The loop of \<open>Images\<close> for any list of specs.\<close>

lemma images_loop_inv:
  assumes "distinct out" and "set seen = set out"
  shows "distinct (images_loop seen out ss) \<and>
    set (images_loop seen out ss) = set out \<union> spec_Image ` set ss"
  using assms by (induction ss arbitrary: seen out) auto

section \<open>Properties\<close>

text \<open>
  Whatever order the language table is iterated in, the listing is the same: every language once, by
  id; and the images to pull are exactly those of the languages, none twice.
\<close>

theorem languages_listed:
  assumes "mset it = mset registry"
  shows "map spec_ID (All it) = [''c'', ''cpp'', ''java'', ''node'', ''python''] \<and>
    (\<forall>s. s \<in> set (All it) \<longleftrightarrow> Get (spec_ID s) = Some s) \<and>
    distinct (Images it) \<and> (\<forall>k s. Get k = Some s \<longrightarrow> spec_Image s \<in> set (Images it)) \<and> length (Images it) = 4"
proof -
  have all: "All it = [c_spec, cpp_spec, java_spec, node_spec, python_spec]"
    using All_permutation [OF assms] All_registry by simp
  have "s \<in> set (All it) \<longleftrightarrow> Get (spec_ID s) = Some s" for s
  proof
    assume "s \<in> set (All it)"
    moreover have "spec_ID c_spec = ''c''" "spec_ID cpp_spec = ''cpp''" "spec_ID java_spec = ''java''"
      "spec_ID node_spec = ''node''" "spec_ID python_spec = ''python''"
      by (simp_all add: spec_defs)
    ultimately show "Get (spec_ID s) = Some s"
      unfolding all by (auto simp: Get_def registry_def)
  next
    assume "Get (spec_ID s) = Some s"
    then show "s \<in> set (All it)" unfolding all by (rule Get_cases) simp_all
  qed
  moreover have "Images it = [''gcc:14'', ''eclipse-temurin:21-jdk-alpine'', ''node:22-alpine'', ''python:3.12-alpine'']"
    unfolding Images_def all by (simp add: spec_defs)
  moreover from this have "Get k = Some s \<Longrightarrow> spec_Image s \<in> set (Images it)" for k s
    by (elim Get_cases) (simp_all add: spec_defs)
  moreover have "map spec_ID (All it) = [''c'', ''cpp'', ''java'', ''node'', ''python'']"
    unfolding all by (simp add: spec_defs)
  ultimately show ?thesis by simp
qed

theorem languages_listed_witness:
  "map spec_ID (All (rev registry)) = [''c'', ''cpp'', ''java'', ''node'', ''python'']"
  using languages_listed [of "rev registry"] by simp

end
