(* ===== verification/Ocee_Executor.thy ===== *)
theory Ocee_Executor
  imports Ocee_Outcome Ocee_Lang
begin

text \<open>
  The supervisor of sandbox containers: the rest of package \<^verbatim>\<open>executor\<close>
  (\<^verbatim>\<open>src/internal/executor/executor.go\<close>). The Docker daemon and its client library are not part of
  the repository: their answers to the calls of one execution are the record \<open>docker\<close>, an argument
  of every operation, and the calls that are made are recorded in order (\<open>docker_call\<close>). The
  executor's own state is which images are known to be present and for which the pull has run.
  Shown: every container that is created is removed on every path, attach precedes start and start
  precedes wait, every container that is started was created locked down and with the configured limits,
  images are pulled at most once successfully, the outcome is what the script reported as long as its
  output fits the cap, and what the daemon observed if the container was killed before that.
\<close>

section \<open>The daemon's interface\<close>

record ContainerConfig =
  cc_Image :: string
  cc_Cmd :: "string list"
  cc_Env :: "string list"
  cc_WorkingDir :: string
  cc_User :: string
  cc_Tty :: bool
  cc_OpenStdin :: bool
  cc_StdinOnce :: bool
  cc_AttachStdin :: bool
  cc_AttachStdout :: bool
  cc_AttachStderr :: bool
  cc_NetworkDisabled :: bool
  cc_ExposedPorts :: "string list"

record HostConfig =
  hc_NetworkMode :: string
  hc_ReadonlyRootfs :: bool
  hc_AutoRemove :: bool
  hc_CapDrop :: "string list"
  hc_SecurityOpt :: "string list"
  hc_Tmpfs :: "(string \<times> string) list"
  hc_Memory :: int
  hc_MemorySwap :: int
  hc_NanoCPUs :: int
  hc_PidsLimit :: int
  hc_Ulimits :: "(string \<times> int \<times> int) list"
  hc_LogConfig :: "string \<times> (string \<times> string) list"

text \<open>
  \<open>ContainerCreate\<close> also records the id in the daemon's reply, \<^const>\<open>None\<close> if it is an error or there is none:
  the program does not know then whether the daemon created a container. \<open>ContainerKill\<close> records the signal,
  \<open>ContainerRemove\<close> the options \<open>Force\<close> and \<open>RemoveVolumes\<close>.
\<close>

datatype docker_call =
  ImageInspect string
| ImagePull string
| ContainerCreate ContainerConfig HostConfig "string option"
| ContainerAttach string
| ContainerStart string
| ContainerWait string
| StdinWrite string string
| StdinClose string
| ContainerKill string string
| ContainerInspect string
| AttachClose string
| ContainerRemove string bool bool

datatype stream = StdoutStream | StderrStream

text \<open>Which channel of the \<open>select\<close> in \<open>runContainer\<close> is ready first.\<close>

datatype wait_event = WaitError "string option" | WaitStatus int | BudgetExceeded string

text \<open>
  The daemon's answers: an error text or success for each call, the frames \<^verbatim>\<open>StdCopy\<close> hands over
  until the stream closes or the grace period is over, the time between start and exit, and the
  state reported by the final inspection (\<^const>\<open>None\<close> for a missing state). \<open>dk_rand\<close> is the random
  source of the nonce.
\<close>

record docker =
  dk_image :: "string option"
  dk_pull :: "string option"
  dk_drain :: "string option"
  dk_image_after :: "string option"
  dk_rand :: "string + string"
  dk_create :: "string + string"
  dk_attach :: "string option"
  dk_start :: "string option"
  dk_wait :: wait_event
  dk_frames :: "(stream \<times> string) list"
  dk_wall :: duration
  dk_inspect :: "string + bool option"

record Executor =
  imageReady :: "string set"
  pullOnce :: "string set"

text \<open>The constructor, given the error of the client library, if any.\<close>

definition New_executor :: "string option \<Rightarrow> string + Executor" where
  "New_executor client_err =
     (case client_err of
        Some e \<Rightarrow> Inl (''connect to docker: '' @ e)
      | None \<Rightarrow> Inr \<lparr>imageReady = {}, pullOnce = {}\<rparr>)"

section \<open>Images\<close>

text \<open>
  \<open>pullOnce\<close> holds the references whose \<^verbatim>\<open>sync.Once\<close> is in the map and has run. A failed pull deletes
  the entry, so the next call gets a fresh \<^verbatim>\<open>Once\<close>.
\<close>

definition ensureImage ::
  "Config \<Rightarrow> docker \<Rightarrow> string \<Rightarrow> Executor \<Rightarrow> Executor \<times> docker_call list \<times> string option" where
  "ensureImage cfg dk ref st =
     (if ref \<in> imageReady st then (st, [], None)
      else if dk_image dk = None then
        (st\<lparr>imageReady := insert ref (imageReady st)\<rparr>, [ImageInspect ref], None)
      else if \<not> PullImages cfg then
        (st, [ImageInspect ref],
         Some (''image '' @ ref @ '' not present locally and PULL_IMAGES is disabled''))
      else
        let (st1, calls, pullErr) =
          (if ref \<in> pullOnce st then (st, [], None)
           else (case dk_pull dk of
             Some e \<Rightarrow> (st, [ImagePull ref], Some (''pull '' @ ref @ '': '' @ e))
           | None \<Rightarrow> (case dk_drain dk of
               Some e \<Rightarrow> (st, [ImagePull ref], Some (''pull '' @ ref @ '': '' @ e))
             | None \<Rightarrow> (st\<lparr>pullOnce := insert ref (pullOnce st)\<rparr>, [ImagePull ref], None))))
        in (case pullErr of
              Some e \<Rightarrow> (st1, ImageInspect ref # calls, Some e)
            | None \<Rightarrow> (case dk_image_after dk of
                Some e \<Rightarrow> (st1, ImageInspect ref # calls @ [ImageInspect ref],
                           Some (''image '' @ ref @ '' unavailable after pull: '' @ e))
              | None \<Rightarrow> (st1\<lparr>imageReady := insert ref (imageReady st1)\<rparr>,
                          ImageInspect ref # calls @ [ImageInspect ref], None))))"

text \<open>\<open>WarmImages\<close>: one attempt per image; a failure is logged and the loop goes on.\<close>

fun warm_loop ::
  "Config \<Rightarrow> (string \<Rightarrow> docker) \<Rightarrow> string list \<Rightarrow> Executor \<Rightarrow> Executor \<times> docker_call list" where
  "warm_loop cfg dks [] st = (st, [])"
| "warm_loop cfg dks (ref # refs) st =
     (case ensureImage cfg (dks ref) ref st of
        (st1, calls, _) \<Rightarrow> (case warm_loop cfg dks refs st1 of (st2, calls2) \<Rightarrow> (st2, calls @ calls2)))"

definition WarmImages ::
  "Config \<Rightarrow> (string \<Rightarrow> docker) \<Rightarrow> registry \<Rightarrow> Executor \<Rightarrow> Executor \<times> docker_call list" where
  "WarmImages cfg dks it st =
     (if \<not> PullImages cfg then (st, []) else warm_loop cfg dks (Images it) st)"

section \<open>The container\<close>

definition workdir :: string where
  "workdir = ''/box''"

definition container_env :: "Config \<Rightarrow> Spec \<Rightarrow> string \<Rightarrow> string \<Rightarrow> string list" where
  "container_env cfg spec code nonce =
     [''OCEE_NONCE='' @ nonce,
      ''OCEE_WORKDIR='' @ workdir,
      ''OCEE_FILE='' @ spec_Filename spec,
      ''OCEE_CODE_B64='' @ EncodeToString code,
      ''OCEE_COMPILE='' @ spec_Compile spec,
      ''OCEE_RUN='' @ spec_Run spec,
      ''OCEE_COMPILE_SECS='' @ Itoa (seconds_int (CompileTimeout cfg)),
      ''OCEE_RUN_SECS='' @ Itoa (seconds_int (RunTimeout cfg)),
      ''HOME='' @ workdir,
      ''TMPDIR='' @ workdir]"

text \<open>The text of the script is the parameter \<open>script\<close>; its behaviour is \<^const>\<open>sandboxScript\<close>.\<close>

definition container_config :: "string \<Rightarrow> Config \<Rightarrow> Spec \<Rightarrow> string \<Rightarrow> string \<Rightarrow> ContainerConfig" where
  "container_config script cfg spec code nonce =
     \<lparr>cc_Image = spec_Image spec, cc_Cmd = [''/bin/sh'', ''-c'', script],
      cc_Env = container_env cfg spec code nonce, cc_WorkingDir = workdir,
      cc_User = ''65534:65534'', cc_Tty = False, cc_OpenStdin = True, cc_StdinOnce = True,
      cc_AttachStdin = True, cc_AttachStdout = True, cc_AttachStderr = True,
      cc_NetworkDisabled = True, cc_ExposedPorts = []\<rparr>"

definition host_config :: "Config \<Rightarrow> HostConfig" where
  "host_config cfg =
     \<lparr>hc_NetworkMode = ''none'', hc_ReadonlyRootfs = True, hc_AutoRemove = False,
      hc_CapDrop = [''ALL''], hc_SecurityOpt = [''no-new-privileges''],
      hc_Tmpfs = [(workdir,
        ''rw,exec,nosuid,nodev,size='' @ Itoa (TmpfsSizeMB cfg) @ ''m,mode=1777'')],
      hc_Memory = wrap64 (MemoryLimitMB cfg * 2 ^ 20),
      hc_MemorySwap = wrap64 (MemoryLimitMB cfg * 2 ^ 20),
      hc_NanoCPUs = float_to_int64 (float_scale 1000000000 (CPULimit cfg)),
      hc_PidsLimit = PidsLimit cfg,
      hc_Ulimits = [(''nofile'', 256, 256), (''fsize'', 32 * 2 ^ 20, 32 * 2 ^ 20)],
      hc_LogConfig = (''json-file'', [(''max-size'', ''8m''), (''max-file'', ''1'')])\<rparr>"

definition createContainer ::
  "string \<Rightarrow> Config \<Rightarrow> docker \<Rightarrow> Spec \<Rightarrow> string \<Rightarrow> string \<Rightarrow> docker_call list \<times> (string + string)" where
  "createContainer script cfg dk spec code nonce =
     (let create = ContainerCreate (container_config script cfg spec code nonce) (host_config cfg) in
      case dk_create dk of
        Inl e \<Rightarrow> ([create None], Inl (''create container: '' @ e))
      | Inr cid \<Rightarrow> ([create (Some cid)], Inr cid))"

section \<open>Running it\<close>

text \<open>Stopping and cleaning up; an error of the daemon is only logged.\<close>

definition kill :: "string \<Rightarrow> docker_call list" where
  "kill cid = [ContainerKill cid ''SIGKILL'']"

definition remove_container :: "string \<Rightarrow> docker_call list" where
  "remove_container cid = [ContainerRemove cid True True]"

declare kill_def [simp] remove_container_def [simp]

text \<open>\<^verbatim>\<open>stdcopy.StdCopy\<close> with the two bounded writers of \<open>runContainer\<close>.\<close>

fun std_copy ::
  "string limitedWriter \<Rightarrow> string limitedWriter \<Rightarrow> (stream \<times> string) list \<Rightarrow> string \<times> string" where
  "std_copy o_w e_w [] = (lw_w o_w, lw_w e_w)"
| "std_copy o_w e_w ((StdoutStream, p) # fs) =
     (case limited_Write buffer_write o_w p of
        (o', n, err) \<Rightarrow> if err \<noteq> None then (lw_w o', lw_w e_w) else std_copy o' e_w fs)"
| "std_copy o_w e_w ((StderrStream, p) # fs) =
     (case limited_Write buffer_write e_w p of
        (e', n, err) \<Rightarrow> if err \<noteq> None then (lw_w o_w, lw_w e') else std_copy o_w e' fs)"

definition oom_killed :: "docker \<Rightarrow> bool" where
  "oom_killed dk = (case dk_inspect dk of Inl _ \<Rightarrow> False | Inr None \<Rightarrow> False | Inr (Some b) \<Rightarrow> b)"

text \<open>
  The writes to stdin run in a goroutine of their own; they are listed where it is started.
  \<open>AttachClose\<close> is the deferred \<open>att.Close()\<close>.
\<close>

definition runContainer ::
  "Config \<Rightarrow> docker \<Rightarrow> string \<Rightarrow> string \<Rightarrow> string \<Rightarrow> docker_call list \<times> (string + Outcome)" where
  "runContainer cfg dk cid nonce stdin =
     (case dk_attach dk of
        Some e \<Rightarrow> ([ContainerAttach cid], Inl (''attach: '' @ e))
      | None \<Rightarrow>
     (case dk_start dk of
        Some e \<Rightarrow> ([ContainerAttach cid, ContainerStart cid, AttachClose cid],
                  Inl (''start container: '' @ e))
      | None \<Rightarrow>
        let pre = [ContainerAttach cid, ContainerStart cid, ContainerWait cid] @
              (if stdin \<noteq> [] then [StdinWrite cid stdin] else []) @ [StdinClose cid];
            cap = MaxOutputBytes cfg;
            (outBuf, errBuf) = std_copy \<lparr>lw_w = [], lw_remaining = cap\<rparr>
                                 \<lparr>lw_w = [], lw_remaining = cap\<rparr> (dk_frames dk);
            finish = (\<lambda>exitCode. (pre @ [ContainerInspect cid, AttachClose cid],
              Inr (buildOutcome cfg outBuf errBuf nonce exitCode (dk_wall dk) (oom_killed dk))))
        in (case dk_wait dk of
              WaitError (Some e) \<Rightarrow> (pre @ [AttachClose cid], Inl (''wait: '' @ e))
            | WaitError None \<Rightarrow> finish 0
            | WaitStatus st \<Rightarrow> finish st
            | BudgetExceeded e \<Rightarrow>
                (pre @ kill cid @ [AttachClose cid],
                 Inl (''execution exceeded engine budget: '' @ e)))))"

text \<open>The deadline of the context \<open>Execute\<close> runs the container under.\<close>

definition execution_budget :: "Config \<Rightarrow> duration" where
  "execution_budget cfg = wrap64 (RunTimeout cfg + CompileTimeout cfg + 30 * second)"

definition Execute ::
  "string \<Rightarrow> Config \<Rightarrow> docker \<Rightarrow> Spec \<Rightarrow> string \<Rightarrow> string \<Rightarrow> Executor \<Rightarrow>
   Executor \<times> docker_call list \<times> (string + Outcome)" where
  "Execute script cfg dk spec code stdin st =
     (case ensureImage cfg dk (spec_Image spec) st of
        (st1, calls1, Some e) \<Rightarrow> (st1, calls1, Inl e)
      | (st1, calls1, None) \<Rightarrow>
     (case newNonce (dk_rand dk) of
        Inl e \<Rightarrow> (st1, calls1, Inl e)
      | Inr nonce \<Rightarrow>
     (case createContainer script cfg dk spec code nonce of
        (calls2, Inl e) \<Rightarrow> (st1, calls1 @ calls2, Inl e)
      | (calls2, Inr cid) \<Rightarrow>
     (case runContainer cfg dk cid nonce stdin of
        (calls3, res) \<Rightarrow> (st1, calls1 @ calls2 @ calls3 @ remove_container cid, res)))))"

section \<open>The life of a container\<close>

text \<open>
  What a correct supervisor may do with a container, as an automaton over the daemon calls: it is
  created, attached to, started, and only then waited for; it is inspected or killed only while it
  is waited for; it is removed last, and nothing is done with it afterwards.
\<close>

datatype life =
  Idle
| Created string
| Attached string
| Started string
| Waiting string
| Closed string

fun life_step :: "life \<Rightarrow> docker_call \<Rightarrow> life option" where
  "life_step Idle c =
     (case c of
        ImageInspect _ \<Rightarrow> Some Idle
      | ImagePull _ \<Rightarrow> Some Idle
      | ContainerCreate _ _ None \<Rightarrow> Some Idle
      | ContainerCreate _ _ (Some i) \<Rightarrow> Some (Created i)
      | _ \<Rightarrow> None)"
| "life_step (Created i) c = (if c = ContainerAttach i then Some (Attached i) else None)"
| "life_step (Attached i) c =
     (if c = ContainerStart i then Some (Started i)
      else if c = ContainerRemove i True True then Some Idle else None)"
| "life_step (Started i) c =
     (if c = ContainerWait i then Some (Waiting i)
      else if c = AttachClose i then Some (Closed i) else None)"
| "life_step (Waiting i) c =
     (if c \<in> {StdinClose i, ContainerKill i ''SIGKILL'', ContainerInspect i} then Some (Waiting i)
      else case c of
        StdinWrite j _ \<Rightarrow> if j = i then Some (Waiting i) else None
      | AttachClose j \<Rightarrow> if j = i then Some (Closed i) else None
      | _ \<Rightarrow> None)"
| "life_step (Closed i) c = (if c = ContainerRemove i True True then Some Idle else None)"

fun life_run :: "life \<Rightarrow> docker_call list \<Rightarrow> life option" where
  "life_run s [] = Some s"
| "life_run s (c # cs) = (case life_step s c of None \<Rightarrow> None | Some s' \<Rightarrow> life_run s' cs)"

section \<open>The paths through Execute\<close>

text \<open>
  Every run of \<^const>\<open>Execute\<close> ends in one of four ways: the image is missing, there is no nonce,
  the container cannot be created, or the container was created and run.
\<close>

lemma Execute_cases:
  assumes "Execute script cfg dk spec code stdin st = (st', calls, res)"
  obtains (no_image) e where "ensureImage cfg dk (spec_Image spec) st = (st', calls, Some e)"
      "res = Inl e"
  | (no_nonce) e where "ensureImage cfg dk (spec_Image spec) st = (st', calls, None)"
      "newNonce (dk_rand dk) = Inl e" "res = Inl e"
  | (no_container) calls1 nonce e where
      "ensureImage cfg dk (spec_Image spec) st = (st', calls1, None)"
      "newNonce (dk_rand dk) = Inr nonce" "dk_create dk = Inl e"
      "calls = calls1 @
        [ContainerCreate (container_config script cfg spec code nonce) (host_config cfg) None]"
      "res = Inl (''create container: '' @ e)"
  | (ran) calls1 nonce cid calls3 where
      "ensureImage cfg dk (spec_Image spec) st = (st', calls1, None)"
      "newNonce (dk_rand dk) = Inr nonce" "dk_create dk = Inr cid"
      "runContainer cfg dk cid nonce stdin = (calls3, res)"
      "calls = calls1 @
        ContainerCreate (container_config script cfg spec code nonce) (host_config cfg) (Some cid) #
        calls3 @ [ContainerRemove cid True True]"
proof -
  obtain st1 calls1 e1 where e: "ensureImage cfg dk (spec_Image spec) st = (st1, calls1, e1)"
    by (cases "ensureImage cfg dk (spec_Image spec) st") auto
  show thesis
  proof (cases e1)
    case (Some x)
    with assms e show ?thesis by (auto simp: Execute_def intro: no_image)
  next
    case None
    note image = e [unfolded None]
    show ?thesis
    proof (cases "newNonce (dk_rand dk)")
      case (Inl x)
      with assms image show ?thesis by (auto simp: Execute_def intro: no_nonce)
    next
      case nonce: (Inr nonce)
      show ?thesis
      proof (cases "dk_create dk")
        case (Inl x)
        with assms image nonce show ?thesis
          by (auto simp: Execute_def createContainer_def Let_def intro: no_container)
      next
        case (Inr cid)
        obtain calls3 r where "runContainer cfg dk cid nonce stdin = (calls3, r)"
          by (cases "runContainer cfg dk cid nonce stdin") auto
        with assms image nonce Inr show ?thesis
          by (auto simp: Execute_def createContainer_def Let_def intro: ran)
      qed
    qed
  qed
qed

lemma life_run_append: "life_run s xs = Some s' \<Longrightarrow> life_run s (xs @ ys) = life_run s' ys"
  by (induction xs arbitrary: s) (auto split: option.splits)

lemma life_run_ensureImage:
  "ensureImage cfg dk ref st = (st', calls, e) \<Longrightarrow> life_run Idle calls = Some Idle"
  by (auto simp: ensureImage_def Let_def split: option.splits if_splits)

lemma life_run_runContainer:
  "runContainer cfg dk cid nonce stdin = (calls, res) \<Longrightarrow>
   life_run (Created cid) (calls @ [ContainerRemove cid True True]) = Some Idle"
  by (auto simp: runContainer_def Let_def split: option.splits prod.splits wait_event.splits if_splits)

lemma runContainer_start:
  "runContainer cfg dk cid nonce stdin = (calls, res) \<Longrightarrow> ContainerStart i \<in> set calls \<Longrightarrow> i = cid"
  by (auto simp: runContainer_def Let_def split: option.splits prod.splits wait_event.splits if_splits)

lemma ensureImage_no_start:
  "ensureImage cfg dk ref st = (st', calls, e) \<Longrightarrow> ContainerStart i \<notin> set calls"
  by (auto simp: ensureImage_def Let_def split: option.splits if_splits)

lemma life_run_Execute:
  "Execute script cfg dk spec code stdin st = (st', calls, res) \<Longrightarrow> life_run Idle calls = Some Idle"
  by (erule Execute_cases)
    (auto simp: life_run_append dest!: life_run_ensureImage life_run_runContainer)

section \<open>Output\<close>

definition stream_bytes :: "stream \<Rightarrow> (stream \<times> string) list \<Rightarrow> string" where
  "stream_bytes s fs = concat (map snd (filter (\<lambda>f. fst f = s) fs))"

lemma std_copy_eq:
  "std_copy o_w e_w fs =
     (lw_w o_w @ take (nat (lw_remaining o_w)) (stream_bytes StdoutStream fs),
      lw_w e_w @ take (nat (lw_remaining e_w)) (stream_bytes StderrStream fs))"
proof (induction o_w e_w fs rule: std_copy.induct)
  case (1 o_w e_w)
  then show ?case by (simp add: stream_bytes_def)
next
  case (2 o_w e_w p fs)
  obtain o' where o': "limited_Write buffer_write o_w p = (o', length p, None)"
    using lw.wr_result by blast
  with 2 lw.wr_kept [OF o'] lw.wr_room [OF o'] show ?case
    by (simp add: stream_bytes_def)
next
  case (3 o_w e_w p fs)
  obtain e' where e': "limited_Write buffer_write e_w p = (e', length p, None)"
    using lw.wr_result by blast
  with 3 lw.wr_kept [OF e'] lw.wr_room [OF e'] show ?case
    by (simp add: stream_bytes_def)
qed

lemma runContainer_result:
  assumes "dk_attach dk = None" "dk_start dk = None"
    and "dk_wait dk = WaitStatus code"
  shows "snd (runContainer cfg dk cid nonce stdin) =
    Inr (buildOutcome cfg (take (nat (MaxOutputBytes cfg)) (stream_bytes StdoutStream (dk_frames dk)))
      (take (nat (MaxOutputBytes cfg)) (stream_bytes StderrStream (dk_frames dk)))
      nonce code (dk_wall dk) (oom_killed dk))"
  using assms by (simp add: runContainer_def std_copy_eq Let_def)

lemma Execute_result:
  assumes "spec_Image spec \<in> imageReady st" and "newNonce (dk_rand dk) = Inr nonce"
    and "dk_create dk = Inr cid"
  shows "snd (snd (Execute script cfg dk spec code stdin st)) =
    snd (runContainer cfg dk cid nonce stdin)"
  using assms
  by (auto simp: Execute_def ensureImage_def createContainer_def Let_def split: prod.splits)

section \<open>Images\<close>

lemma ensureImage_mono:
  assumes "ensureImage cfg dk ref st = (st', calls, e)"
  shows "imageReady st \<subseteq> imageReady st'" and "pullOnce st \<subseteq> pullOnce st'"
  using assms by (auto simp: ensureImage_def Let_def split: if_splits option.splits)

lemma ensureImage_known_no_pull:
  assumes "ensureImage cfg dk ref st = (st', calls, e)" and "r \<in> imageReady st \<union> pullOnce st"
  shows "ImagePull r \<notin> set calls"
  using assms by (auto simp: ensureImage_def Let_def split: if_splits option.splits)

lemma ensureImage_pulled:
  assumes "ensureImage cfg dk ref st = (st', calls, e)" and "ImagePull r \<in> set calls"
  shows "r = ref" and "dk_pull dk = None \<Longrightarrow> dk_drain dk = None \<Longrightarrow> r \<in> pullOnce st'"
    and "dk_pull dk \<noteq> None \<or> dk_drain dk \<noteq> None \<Longrightarrow> st' = st \<and> e \<noteq> None"
  using assms by (auto simp: ensureImage_def Let_def split: if_splits option.splits)

text \<open>A series of calls to \<^const>\<open>ensureImage\<close>, each with its own answers of the daemon.\<close>

fun ensure_all ::
  "Config \<Rightarrow> (docker \<times> string) list \<Rightarrow> Executor \<Rightarrow> Executor \<times> docker_call list" where
  "ensure_all cfg [] st = (st, [])"
| "ensure_all cfg ((dk, ref) # js) st =
     (case ensureImage cfg dk ref st of
        (st1, calls, _) \<Rightarrow> (case ensure_all cfg js st1 of (st2, calls2) \<Rightarrow> (st2, calls @ calls2)))"

lemma ensure_all_known_no_pull:
  "r \<in> imageReady st \<union> pullOnce st \<Longrightarrow> ImagePull r \<notin> set (snd (ensure_all cfg js st))"
proof (induction cfg js st rule: ensure_all.induct)
  case (2 cfg dk ref js st)
  obtain st1 calls e where e: "ensureImage cfg dk ref st = (st1, calls, e)"
    by (cases "ensureImage cfg dk ref st") auto
  from e "2.prems" have "r \<in> imageReady st1 \<union> pullOnce st1"
    using ensureImage_mono by blast
  with "2.IH" [OF e [symmetric] refl] e "2.prems" show ?case
    by (auto simp: ensureImage_known_no_pull split: prod.splits)
qed simp

text \<open>Sample answers of a daemon on which everything succeeds.\<close>

definition sample_docker :: docker where
  "sample_docker =
     \<lparr>dk_image = Some ''not found'', dk_pull = None, dk_drain = None, dk_image_after = None,
      dk_rand = Inr ''*'', dk_create = Inr ''c1'', dk_attach = None, dk_start = None,
      dk_wait = WaitStatus 0, dk_frames = [], dk_wall = 1 * second, dk_inspect = Inr (Some False)\<rparr>"

definition fresh_executor :: Executor where
  "fresh_executor = \<lparr>imageReady = {}, pullOnce = {}\<rparr>"

lemma sample_docker_simps [simp]:
  "dk_image sample_docker = Some ''not found''" "dk_pull sample_docker = None"
  "dk_drain sample_docker = None" "dk_image_after sample_docker = None"
  "dk_create sample_docker = Inr ''c1''" "dk_attach sample_docker = None"
  "dk_start sample_docker = None" "dk_wait sample_docker = WaitStatus 0"
  "dk_frames sample_docker = []" "dk_wall sample_docker = 1 * second"
  "newNonce (dk_rand sample_docker) = Inr ''__OCEE_2a__''" "\<not> oom_killed sample_docker"
  by (simp_all add: sample_docker_def newNonce_def hex_digit_def byte_def oom_killed_def)

lemma fresh_executor_simps [simp]: "imageReady fresh_executor = {}" "pullOnce fresh_executor = {}"
  by (simp_all add: fresh_executor_def)

section \<open>From the script to the outcome\<close>

text \<open>
  The container ran to its end and the daemon delivers what it wrote; the script itself always exits
  with status 0.
\<close>

definition delivers :: "docker \<Rightarrow> string \<times> string \<Rightarrow> bool" where
  "delivers dk out =
     (dk_attach dk = None \<and> dk_start dk = None \<and> dk_wait dk = WaitStatus script_exit \<and>
      stream_bytes StdoutStream (dk_frames dk) = fst out \<and>
      stream_bytes StderrStream (dk_frames dk) = snd out)"

definition fits :: "Config \<Rightarrow> string \<times> string \<Rightarrow> bool" where
  "fits cfg out =
     (int (length (fst out)) \<le> MaxOutputBytes cfg \<and> int (length (snd out)) \<le> MaxOutputBytes cfg)"

text \<open>The numbers the script prints are 64-bit integers.\<close>

definition cpu_delta :: "sandbox \<Rightarrow> int" where
  "cpu_delta sb = int (cpu_usec (sb_cg_end sb)) - int (cpu_usec (sb_cg_base sb))"

definition readable :: "sandbox \<Rightarrow> bool" where
  "readable sb =
     (int64 (sb_compile_rc sb) \<and> int64 (sb_run_rc sb) \<and> int64 (sb_t1 sb - sb_t0 sb) \<and>
      int64 (cpu_delta sb) \<and> int64 (int (cpu_usec (sb_cg_compile sb))) \<and>
      int64 (int (mem_peak (sb_cg_emit sb))))"

lemma Execute_delivers:
  assumes "spec_Image spec \<in> imageReady st" and "newNonce (dk_rand dk) = Inr nonce"
    and "dk_create dk = Inr cid" and "delivers dk out"
  shows "snd (snd (Execute script cfg dk spec code stdin st)) =
    Inr (buildOutcome cfg (take (nat (MaxOutputBytes cfg)) (fst out))
      (take (nat (MaxOutputBytes cfg)) (snd out)) nonce 0 (dk_wall dk) (oom_killed dk))"
  using assms
  by (simp add: Execute_result runContainer_result delivers_def script_exit_def)

lemma script_run:
  assumes "sb_workdir_ok sb" "sb_decode_ok sb" "compile = [] \<or> sb_compile_rc sb = 0"
  shows "sandboxScript nonce compile sb =
    (sb_stdout sb @ sb_late_stdout sb, sb_stderr sb @ emit nonce ''run'' (Itoa (sb_run_rc sb)) (Itoa (cpu_delta sb))
      (Itoa (int (mem_peak (sb_cg_emit sb)))) (Itoa (sb_t1 sb - sb_t0 sb)) (EncodeToString []) @ sb_late_stderr sb)"
  using assms by (auto simp: sandboxScript_def cpu_delta_def)

text \<open>Sample observations of a script that ran a program to its end.\<close>

definition sample_cgroup :: cgroup where
  "sample_cgroup =
     \<lparr>cg_cpu_stat = Some (Some 7000), cg_cpuacct_usage = None, cg_memory_peak = Some 2048,
      cg_memory_max_usage = None, cg_memory_current = None\<rparr>"

definition sample_sandbox :: sandbox where
  "sample_sandbox =
     \<lparr>sb_workdir_ok = True, sb_decode_ok = True, sb_compile_rc = 0, sb_compile_log = [],
      sb_run_rc = 3, sb_stdout = ''6'', sb_stderr = ''oh no'', sb_late_stdout = ''7'', sb_late_stderr = ''bye'',
      sb_cg_compile = sample_cgroup,
      sb_cg_base = sample_cgroup\<lparr>cg_cpu_stat := Some (Some 2000)\<rparr>, sb_cg_end = sample_cgroup,
      sb_cg_emit = sample_cgroup, sb_t0 = 100, sb_t1 = 101\<rparr>"

lemma sample_sandbox_simps [simp]:
  "sb_workdir_ok sample_sandbox" "sb_decode_ok sample_sandbox" "sb_compile_rc sample_sandbox = 0"
  "sb_run_rc sample_sandbox = 3" "sb_stdout sample_sandbox = ''6''"
  "sb_stderr sample_sandbox = ''oh no''" "cpu_delta sample_sandbox = 5000"
  "sb_late_stdout sample_sandbox = ''7''" "sb_late_stderr sample_sandbox = ''bye''"
  "mem_peak (sb_cg_emit sample_sandbox) = 2048" "sb_t1 sample_sandbox - sb_t0 sample_sandbox = 1"
  "readable sample_sandbox"
  by (simp_all add: sample_sandbox_def sample_cgroup_def cpu_delta_def cpu_usec_def mem_peak_def
      readable_def int64_def)

definition broken_sandbox :: sandbox where
  "broken_sandbox = sample_sandbox\<lparr>sb_compile_rc := 1, sb_compile_log := ''error''\<rparr>"

lemma broken_sandbox_simps [simp]:
  "sb_workdir_ok broken_sandbox" "sb_decode_ok broken_sandbox" "sb_compile_rc broken_sandbox = 1"
  "sb_compile_log broken_sandbox = ''error''" "readable broken_sandbox"
  "cpu_usec (sb_cg_compile broken_sandbox) = 7000" "mem_peak (sb_cg_emit broken_sandbox) = 2048"
  by (simp_all add: broken_sandbox_def sample_sandbox_def sample_cgroup_def cpu_usec_def mem_peak_def
      readable_def int64_def cpu_delta_def)

definition forging_sandbox :: sandbox where
  "forging_sandbox =
     sample_sandbox\<lparr>sb_stderr := emit ''__OCEE_2a__'' ''run'' (Itoa 0) (Itoa 0) (Itoa 0) (Itoa 0) []\<rparr>"

lemma forging_sandbox_simps [simp]:
  "sb_workdir_ok forging_sandbox" "sb_decode_ok forging_sandbox" "sb_run_rc forging_sandbox = 3"
  "sb_stderr forging_sandbox = emit ''__OCEE_2a__'' ''run'' (Itoa 0) (Itoa 0) (Itoa 0) (Itoa 0) []"
  by (simp_all add: forging_sandbox_def)

text \<open>The daemon that delivers what a script wrote.\<close>

definition docker_of :: "string \<times> string \<Rightarrow> docker" where
  "docker_of out = sample_docker\<lparr>dk_frames := [(StdoutStream, fst out), (StderrStream, snd out)]\<rparr>"

lemma docker_of_simps [simp]:
  "delivers (docker_of out) out" "newNonce (dk_rand (docker_of out)) = Inr ''__OCEE_2a__''"
  "dk_create (docker_of out) = Inr ''c1''" "dk_wall (docker_of out) = 1 * second"
  "\<not> oom_killed (docker_of out)"
proof -
  show "newNonce (dk_rand (docker_of out)) = Inr ''__OCEE_2a__''" "\<not> oom_killed (docker_of out)"
    using sample_docker_simps(11,12) by (simp_all add: docker_of_def oom_killed_def)
qed (simp_all add: docker_of_def delivers_def stream_bytes_def script_exit_def)

definition warm_executor :: Executor where
  "warm_executor = \<lparr>imageReady = {spec_Image python_spec, spec_Image c_spec}, pullOnce = {}\<rparr>"

lemma warm_executor_simps [simp]:
  "spec_Image python_spec \<in> imageReady warm_executor" "spec_Image c_spec \<in> imageReady warm_executor"
  by (simp_all add: warm_executor_def)

lemma spec_Compile_simps [simp]: "spec_Compile python_spec = []" "spec_Compile c_spec \<noteq> []"
  by (simp_all add: python_spec_def c_spec_def)

lemma quot_nat: "quot (int a) 1024 = int a div 1024"
  by (simp add: quot_nonneg)

section \<open>Properties\<close>

text \<open>
  C8. On every path through \<open>Execute\<close>, whatever the daemon answers, the calls follow the life of a
  container: attached before started, started before waited for, and no container is left behind:
  a container that was created is removed by the last call, and never used after that.
\<close>

theorem Execute_lifecycle:
  "life_run Idle (fst (snd (Execute script cfg dk spec code stdin st))) = Some Idle"
  by (cases "Execute script cfg dk spec code stdin st") (auto dest: life_run_Execute)

text \<open>
  What the sandbox promises about a container. Docker reads 0 as no limit for the memory and the CPUs, so
  a limit has to be positive to be one.
\<close>

fun split_on :: "char \<Rightarrow> string \<Rightarrow> string list" where
  "split_on c [] = [[]]"
| "split_on c (x # xs) =
     (if x = c then [] # split_on c xs else case split_on c xs of [] \<Rightarrow> [[x]] | y # ys \<Rightarrow> (x # y) # ys)"

lemma split_on_append: "c \<notin> set xs \<Longrightarrow> split_on c (xs @ c # ys) = xs # split_on c ys"
  by (induction xs) auto

lemma split_on_absent: "c \<notin> set xs \<Longrightarrow> split_on c xs = [xs]"
  by (induction xs) auto

definition isolated :: "ContainerConfig \<Rightarrow> HostConfig \<Rightarrow> bool" where
  "isolated c h =
     (cc_NetworkDisabled c \<and> hc_NetworkMode h = ''none'' \<and> cc_ExposedPorts c = [] \<and>
      hc_ReadonlyRootfs h \<and> cc_User c = ''65534:65534'' \<and> hc_CapDrop h = [''ALL''] \<and>
      hc_SecurityOpt h = [''no-new-privileges''] \<and> \<not> hc_AutoRemove h)"

definition small_mount :: "Config \<Rightarrow> string \<times> string \<Rightarrow> bool" where
  "small_mount cfg m =
     (let opts = split_on (CHR '','') (snd m) in
      {''nosuid'', ''nodev''} \<subseteq> set opts \<and>
      filter (prefix ''size='') opts = [''size='' @ Itoa (TmpfsSizeMB cfg) @ ''m''])"

definition limited :: "Config \<Rightarrow> HostConfig \<Rightarrow> bool" where
  "limited cfg h =
     (0 < hc_Memory h \<and> hc_Memory h = MemoryLimitMB cfg * 1048576 \<and> hc_MemorySwap h = hc_Memory h \<and>
      0 < hc_NanoCPUs h \<and>
      (\<exists>x. CPULimit cfg = Finite x \<and> \<bar>of_int (hc_NanoCPUs h) - x * 1000000000\<bar> < 1 + x * 1000000000 / 2 ^ 53) \<and>
      hc_PidsLimit h = PidsLimit cfg \<and>
      map_of (hc_Ulimits h) ''nofile'' = Some (256, 256) \<and>
      map_of (hc_Ulimits h) ''fsize'' = Some (33554432, 33554432) \<and>
      fst (hc_LogConfig h) = ''json-file'' \<and> map_of (snd (hc_LogConfig h)) ''max-size'' = Some ''8m'' \<and>
      map_of (snd (hc_LogConfig h)) ''max-file'' = Some ''1'')"

definition locked_down :: "Config \<Rightarrow> ContainerConfig \<Rightarrow> HostConfig \<Rightarrow> bool" where
  "locked_down cfg c h =
     (isolated c h \<and> limited cfg h \<and> map fst (hc_Tmpfs h) = [cc_WorkingDir c] \<and> list_all (small_mount cfg) (hc_Tmpfs h))"

lemma host_limited:
  assumes "0 < MemoryLimitMB cfg" and "MemoryLimitMB cfg < 2 ^ 43"
    and "CPULimit cfg = Finite x" and "1 / 1000 \<le> x" and "x \<le> 2 ^ 32"
  shows "limited cfg (host_config cfg)"
proof -
  let ?n = "float_to_int64 (float_scale 1000000000 (Finite x))"
  have near: "\<bar>of_int ?n - x * 1000000000\<bar> < 1 + x * 1000000000 / 2 ^ 53"
    using assms(4,5) by (intro float_to_int64_scaled) simp_all
  have "x * 1000000000 / 2 ^ 53 \<le> x" using assms(4) by (simp add: field_simps)
  with near assms(4) have "(0 :: rat) < of_int ?n" by linarith
  then have "0 < ?n" by (simp only: of_int_0_less_iff)
  with near assms show ?thesis by (simp add: limited_def host_config_def)
qed

lemma host_mount: "list_all (small_mount cfg) (hc_Tmpfs (host_config cfg))"
proof -
  let ?n = "Itoa (TmpfsSizeMB cfg)"
  have "\<not> is_digit (CHR '','')" by (simp add: char_class)
  then have "CHR '','' \<notin> set (show_nat n)" for n using show_nat_set [of "CHR '',''" n] digit_char_facts(1) by metis
  then have "CHR '','' \<notin> set ?n" by (simp add: Itoa_def)
  then have size: "split_on (CHR '','') ((''size='' @ ?n @ ''m'') @ CHR '','' # ''mode=1777'') =
      [''size='' @ ?n @ ''m'', ''mode=1777'']"
    by (subst split_on_append) (simp_all add: split_on_absent)
  have "split_on (CHR '','') (''rw,exec,nosuid,nodev,'' @ r) = [''rw'', ''exec'', ''nosuid'', ''nodev''] @ split_on (CHR '','') r"
    for r by simp
  from this [of "(''size='' @ ?n @ ''m'') @ CHR '','' # ''mode=1777''", unfolded size]
  have "split_on (CHR '','') (''rw,exec,nosuid,nodev,size='' @ ?n @ ''m,mode=1777'') =
      [''rw'', ''exec'', ''nosuid'', ''nodev'', ''size='' @ ?n @ ''m'', ''mode=1777'']"
    by (simp del: split_on.simps)
  then show ?thesis by (simp add: host_config_def small_mount_def del: split_on.simps)
qed

text \<open>
  C9. Every container \<open>Execute\<close> starts was created by it before, and locked down: no network, a read-only
  root file system with the work directory as the only writable mount, of the configured size and without
  set-user-id or device files; an unprivileged user without capabilities; the configured memory with swap
  disabled; the configured share of the CPUs up to the rounding to nanounits; the configured number of
  processes; 256 open files, files of 32 MiB and 8 MiB of log at most. This holds for every positive memory
  limit that fits 63 bits in bytes and every CPU share from a thousandth.
\<close>

theorem Execute_locked_down:
  assumes "0 < MemoryLimitMB cfg" and "MemoryLimitMB cfg < 2 ^ 43"
    and "CPULimit cfg = Finite x" and "1 / 1000 \<le> x" and "x \<le> 2 ^ 32"
    and "ContainerStart cid \<in> set (fst (snd (Execute script cfg dk spec code stdin st)))"
  shows "\<exists>pre c h post. fst (snd (Execute script cfg dk spec code stdin st)) =
      pre @ ContainerCreate c h (Some cid) # post \<and>
    ContainerStart cid \<notin> set pre \<and> locked_down cfg c h"
proof -
  obtain st' calls res where run: "Execute script cfg dk spec code stdin st = (st', calls, res)"
    by (cases "Execute script cfg dk spec code stdin st") auto
  with assms(6) have start: "ContainerStart cid \<in> set calls" by simp
  from run show ?thesis
  proof (cases rule: Execute_cases)
    case (ran calls1 nonce cid' calls3)
    have "ContainerStart cid \<notin> set calls1" using ran(1) by (rule ensureImage_no_start)
    moreover from start this ran(5) have "cid = cid'" using runContainer_start [OF ran(4), of cid] by auto
    moreover have "locked_down cfg (container_config script cfg spec code nonce) (host_config cfg)"
      using host_limited [OF assms(1-5)] host_mount [of cfg]
      by (simp add: locked_down_def isolated_def container_config_def) (simp add: host_config_def)
    ultimately show ?thesis unfolding run using ran(5) by auto
  qed (use start in \<open>auto dest: ensureImage_no_start\<close>)
qed

lemma code_entry:
  assumes "Load pf e = Inr cfg" and "int (length code) \<le> MaxCodeBytes cfg"
  shows "\<exists>v. ''OCEE_CODE_B64='' @ v \<in> set (container_env cfg spec code nonce) \<and>
    length (''OCEE_CODE_B64='' @ v) < 128 * 1024 \<and> DecodeString v = Some code"
proof -
  from assms have "length code \<le> 90000" by (auto simp: Load_Inr)
  then have "(length code + 2) div 3 \<le> 90002 div 3" by (intro div_le_mono) simp
  then have "length (EncodeToString code) \<le> 120000"
    unfolding length_EncodeToString by simp
  then show ?thesis
    by (intro exI [of _ "EncodeToString code"])
      (simp add: container_env_def DecodeString_EncodeToString)
qed

theorem Execute_locked_down_witness:
  "\<exists>pre c h post. fst (snd (Execute ''s'' default_config sample_docker python_spec ''x'' [] fresh_executor)) =
      pre @ ContainerCreate c h (Some ''c1'') # post \<and>
    ContainerStart ''c1'' \<notin> set pre \<and> locked_down default_config c h"
proof (rule Execute_locked_down [where x = 1])
  show "ContainerStart ''c1'' \<in>
      set (fst (snd (Execute ''s'' default_config sample_docker python_spec ''x'' [] fresh_executor)))"
    by (simp add: Execute_def ensureImage_def createContainer_def runContainer_def Let_def split: prod.splits)
qed simp_all

text \<open>
  When the daemon answers the creation with an error, no call follows it. The error may be the loss of the
  reply, or the end of the context, after the daemon created the container: that container is not removed.
\<close>

theorem create_error_not_cleaned:
  assumes "Execute script cfg dk spec code stdin st = (st', calls, res)"
    and "newNonce (dk_rand dk) = Inr nonce" and "spec_Image spec \<in> imageReady st" and "dk_create dk = Inl e"
  shows "res = Inl (''create container: '' @ e) \<and>
    (\<exists>c h. calls = [ContainerCreate c h None])"
  using assms by (auto simp: Execute_def ensureImage_def createContainer_def Let_def)

text \<open>
  Once a pull of an image has succeeded, no later call, in any number of executions and whatever
  the daemon answers, pulls the same image again; a pull that failed is not remembered, so it can be
  tried again.
\<close>

theorem image_pulled_once:
  assumes "ensureImage cfg dk ref st = (st1, calls, err)" and "ImagePull r \<in> set calls"
  shows "if dk_pull dk = None \<and> dk_drain dk = None
    then ImagePull r \<notin> set (snd (ensure_all cfg js st1))
    else st1 = st \<and> err \<noteq> None"
  using ensureImage_pulled [OF assms] ensure_all_known_no_pull [of r st1 cfg js] by auto

theorem image_pulled_once_witness:
  "ImagePull ''gcc:14'' \<in> set (fst (snd (ensureImage default_config sample_docker ''gcc:14'' fresh_executor))) \<and>
   ImagePull ''gcc:14'' \<notin> set (snd (ensure_all default_config
      [(sample_docker, ''gcc:14''), (sample_docker\<lparr>dk_image := None\<rparr>, ''gcc:14'')]
      \<lparr>imageReady = {''gcc:14''}, pullOnce = {''gcc:14''}\<rparr>))"
proof -
  have e: "ensureImage default_config sample_docker ''gcc:14'' fresh_executor =
    (\<lparr>imageReady = {''gcc:14''}, pullOnce = {''gcc:14''}\<rparr>,
     [ImageInspect ''gcc:14'', ImagePull ''gcc:14'', ImageInspect ''gcc:14''], None)"
    by (simp add: ensureImage_def fresh_executor_def)
  have "ImagePull ''gcc:14'' \<in>
      set [ImageInspect ''gcc:14'', ImagePull ''gcc:14'', ImageInspect ''gcc:14'']" by simp
  from image_pulled_once [OF e this] e show ?thesis
    by (simp del: ensure_all.simps)
qed



text \<open>
  C22. For a program whose compilation fails, \<open>Execute\<close> reports a compile error with the compiler's exit
  status and the first 16 KiB of its diagnostics, and no output of the program.
\<close>

theorem Execute_reports_compile_error:
  assumes "spec_Image spec \<in> imageReady st" and "newNonce (dk_rand dk) = Inr nonce"
    and "dk_create dk = Inr cid"
    and "delivers dk (sandboxScript nonce (spec_Compile spec) sb)"
    and "fits cfg (sandboxScript nonce (spec_Compile spec) sb)"
    and "sb_workdir_ok sb" "sb_decode_ok sb" "spec_Compile spec \<noteq> []" "sb_compile_rc sb \<noteq> 0"
    and "readable sb"
  shows "snd (snd (Execute script cfg dk spec code stdin st)) = Inr
    \<lparr>out_Stdout = [], out_Stderr = [], out_CompileOutput = take 16384 (sb_compile_log sb),
     out_ExitCode = wrap32 (sb_compile_rc sb),
     out_CPUTimeMS = int (cpu_usec (sb_cg_compile sb)) div 1000,
     out_WallTimeMS = Milliseconds (dk_wall dk),
     out_MemoryKB = int (mem_peak (sb_cg_emit sb)) div 1024,
     out_TimedOut = (sb_compile_rc sb = 137), out_OOMKilled = oom_killed dk,
     out_CompileError = True\<rparr>"
proof -
  have zero: "''0'' = Itoa 0" by code_simp
  have script: "sandboxScript nonce (spec_Compile spec) sb =
      ([], [] @ emit nonce ''compile'' (Itoa (sb_compile_rc sb)) (Itoa (int (cpu_usec (sb_cg_compile sb))))
        (Itoa (int (mem_peak (sb_cg_emit sb)))) (Itoa 0)
        (EncodeToString (take 16384 (sb_compile_log sb))))"
    using assms(6-9) by (simp add: sandboxScript_def zero)
  have "extractMarker (snd (sandboxScript nonce (spec_Compile spec) sb)) nonce =
      ([], \<lparr>m_phase = ''compile'', m_rc = sb_compile_rc sb,
         m_cpuUsec = max 0 (int (cpu_usec (sb_cg_compile sb))),
         m_memBytes = int (mem_peak (sb_cg_emit sb)), m_secs = 0,
         m_compileOutput = take 16384 (sb_compile_log sb)\<rparr>, True)"
    unfolding script snd_conv using assms(10)
    by (intro extractMarker_emit [where t = "[]", unfolded append_Nil2] newNonce_shape [OF assms(2)])
      (simp_all add: readable_def char_class int64_def)
  moreover have "take (nat (MaxOutputBytes cfg)) (fst (sandboxScript nonce (spec_Compile spec) sb)) = []"
    "take (nat (MaxOutputBytes cfg)) (snd (sandboxScript nonce (spec_Compile spec) sb)) =
      snd (sandboxScript nonce (spec_Compile spec) sb)"
    using assms(5) by (auto simp: fits_def script)
  ultimately show ?thesis
    unfolding Execute_delivers [OF assms(1-4)]
    by (simp add: buildOutcome_marked quot_nat quot_nonneg)
qed

theorem Execute_reports_compile_error_witness:
  "snd (snd (Execute ''s'' default_config
      (docker_of (sandboxScript ''__OCEE_2a__'' (spec_Compile c_spec) broken_sandbox))
      c_spec ''x'' [] warm_executor)) = Inr
    \<lparr>out_Stdout = [], out_Stderr = [], out_CompileOutput = ''error'', out_ExitCode = 1,
     out_CPUTimeMS = 7, out_WallTimeMS = Milliseconds second, out_MemoryKB = 2,
     out_TimedOut = False, out_OOMKilled = False, out_CompileError = True\<rparr>"
proof -
  let ?out = "sandboxScript ''__OCEE_2a__'' (spec_Compile c_spec) broken_sandbox"
  have len: "fits default_config ?out"
    by (simp add: fits_def sandboxScript_def emit_def marker_fields_def Itoa_def show_nat.simps
        length_EncodeToString)
  show ?thesis
    using Execute_reports_compile_error [of c_spec warm_executor "docker_of ?out" "''__OCEE_2a__''" "''c1''"
        broken_sandbox default_config "''s''" "''x''" "[]"] len
    by simp
qed




section \<open>Where the marker is lost or forged\<close>

text \<open>
  When the program fills stderr up to the cap (without printing the marker text itself), the marker
  of the script is cut off and with it the exit status: \<open>Execute\<close> reports exit status 0 and no CPU
  time, whatever the program's status was, although no container was killed.
\<close>

theorem Execute_loses_status:
  assumes "spec_Image spec \<in> imageReady st" and "newNonce (dk_rand dk) = Inr nonce"
    and "dk_create dk = Inr cid"
    and "delivers dk (sandboxScript nonce (spec_Compile spec) sb)"
    and "sb_workdir_ok sb" "sb_decode_ok sb" "spec_Compile spec = [] \<or> sb_compile_rc sb = 0"
    and "MaxOutputBytes cfg \<le> int (length (sb_stderr sb))"
    and "LastIndex (take (nat (MaxOutputBytes cfg)) (sb_stderr sb)) (nonce @ '' phase='') = None"
  shows "snd (snd (Execute script cfg dk spec code stdin st)) = Inr
    \<lparr>out_Stdout = take (nat (MaxOutputBytes cfg)) (sb_stdout sb @ sb_late_stdout sb),
     out_Stderr = take (nat (MaxOutputBytes cfg)) (sb_stderr sb),
     out_CompileOutput = [], out_ExitCode = 0, out_CPUTimeMS = 0,
     out_WallTimeMS = Milliseconds (dk_wall dk),
     out_MemoryKB = (if oom_killed dk then wrap64 (MemoryLimitMB cfg * 1024) else 0),
     out_TimedOut = (\<not> oom_killed dk \<and> RunTimeout cfg \<le> dk_wall dk),
     out_OOMKilled = oom_killed dk, out_CompileError = False\<rparr>"
proof -
  have "take (nat (MaxOutputBytes cfg)) (snd (sandboxScript nonce (spec_Compile spec) sb)) =
      take (nat (MaxOutputBytes cfg)) (sb_stderr sb)"
    "fst (sandboxScript nonce (spec_Compile spec) sb) = sb_stdout sb @ sb_late_stdout sb"
    using assms(8) by (simp_all add: script_run [OF assms(5-7)])
  then show ?thesis
    unfolding Execute_delivers [OF assms(1-4)]
    using buildOutcome_unmarked [OF extractMarker_absent [OF assms(9)]] by (simp add: wrap32_def wrap_def)
qed

theorem Execute_loses_status_witness:
  "out_ExitCode (projr (snd (snd (Execute ''s'' (default_config\<lparr>MaxOutputBytes := 5\<rparr>)
      (docker_of (sandboxScript ''__OCEE_2a__'' [] sample_sandbox))
      python_spec ''x'' [] warm_executor)))) = 0 \<and> sb_run_rc sample_sandbox = 3"
  using Execute_loses_status [of python_spec warm_executor
      "docker_of (sandboxScript ''__OCEE_2a__'' [] sample_sandbox)" "''__OCEE_2a__''" "''c1''"
      sample_sandbox "default_config\<lparr>MaxOutputBytes := 5\<rparr>" "''s''" "''x''" "[]"]
  by simp

text \<open>
  C16. The nonce is in the environment of the program. A program that prints a marker line of its own with
  it and then fills stderr up to the cap (with anything that has no blank) decides what is reported as
  its exit status, CPU time, memory and timeout.
\<close>

theorem Execute_accepts_forged_marker:
  assumes "spec_Image spec \<in> imageReady st" and "newNonce (dk_rand dk) = Inr nonce"
    and "dk_create dk = Inr cid"
    and "delivers dk (sandboxScript nonce (spec_Compile spec) sb)"
    and "sb_workdir_ok sb" "sb_decode_ok sb" "spec_Compile spec = [] \<or> sb_compile_rc sb = 0"
    and "sb_stderr sb = s @ emit nonce ''run'' (Itoa rc) (Itoa cpu) (Itoa mem) (Itoa secs) [] @ pad"
    and "CHR '' '' \<notin> set pad" and "MaxOutputBytes cfg \<le> int (length (sb_stderr sb))"
    and "int (length (s @ emit nonce ''run'' (Itoa rc) (Itoa cpu) (Itoa mem) (Itoa secs) [])) \<le> MaxOutputBytes cfg"
    and "int64 rc" "int64 cpu" "int64 mem" "int64 secs"
  shows "''OCEE_NONCE='' @ nonce \<in> set (container_env cfg spec code nonce) \<and>
    snd (snd (Execute script cfg dk spec code stdin st)) = Inr
    \<lparr>out_Stdout = take (nat (MaxOutputBytes cfg)) (sb_stdout sb @ sb_late_stdout sb), out_Stderr = s,
     out_CompileOutput = [], out_ExitCode = wrap32 rc, out_CPUTimeMS = max 0 cpu div 1000,
     out_WallTimeMS = Milliseconds (dk_wall dk), out_MemoryKB = quot mem 1024,
     out_TimedOut = (rc = 137 \<and> \<not> oom_killed dk \<and> seconds_int (RunTimeout cfg) \<le> secs),
     out_OOMKilled = oom_killed dk, out_CompileError = False\<rparr>"
proof -
  let ?e = "emit nonce ''run'' (Itoa rc) (Itoa cpu) (Itoa mem) (Itoa secs) (EncodeToString [])"
  let ?n = "nat (MaxOutputBytes cfg)"
  let ?t = "take (?n - length (s @ ?e)) pad"
  have kept: "take ?n (snd (sandboxScript nonce (spec_Compile spec) sb)) = s @ ?e @ ?t"
    using assms(10,11) by (simp add: script_run [OF assms(5-7)] assms(8))
  have "LastIndex ?t '' phase='' = None"
    using assms(9) by (intro LastIndex_no_head) (auto dest: in_set_takeD)
  then have "extractMarker (s @ ?e @ ?t) nonce = (s, \<lparr>m_phase = ''run'', m_rc = rc,
      m_cpuUsec = max 0 cpu, m_memBytes = mem, m_secs = secs, m_compileOutput = []\<rparr>, True)"
    by (intro extractMarker_emit newNonce_shape [OF assms(2)] assms(12-15)) (simp_all add: char_class)
  then show ?thesis
    unfolding Execute_delivers [OF assms(1-4)] kept
    by (simp add: buildOutcome_marked quot_nonneg script_run [OF assms(5-7)] container_env_def)
qed

theorem Execute_accepts_forged_marker_witness:
  "out_ExitCode (projr (snd (snd (Execute ''s''
      (default_config\<lparr>MaxOutputBytes := int (length (sb_stderr forging_sandbox))\<rparr>)
      (docker_of (sandboxScript ''__OCEE_2a__'' [] forging_sandbox))
      python_spec ''x'' [] warm_executor)))) = 0 \<and> sb_run_rc forging_sandbox = 3"
  using Execute_accepts_forged_marker [of python_spec warm_executor
      "docker_of (sandboxScript ''__OCEE_2a__'' [] forging_sandbox)" "''__OCEE_2a__''" "''c1''"
      forging_sandbox "[]" 0 0 0 0 "[]"
      "default_config\<lparr>MaxOutputBytes := int (length (sb_stderr forging_sandbox))\<rparr>" "''x''" "''s''" "[]"]
  by (simp add: wrap32_def wrap_def int64_def)

text \<open>
  When the work directory of the container is not available the script prints no marker and exits with
  status 0, so \<open>Execute\<close> reports a program that was never started as one that ended with status 0.
\<close>

theorem Execute_hides_missing_workdir:
  assumes "spec_Image spec \<in> imageReady st" and "newNonce (dk_rand dk) = Inr nonce"
    and "dk_create dk = Inr cid"
    and "delivers dk (sandboxScript nonce (spec_Compile spec) sb)" and "\<not> sb_workdir_ok sb"
    and "\<not> oom_killed dk" and "dk_wall dk < RunTimeout cfg"
  shows "\<exists>out. snd (snd (Execute script cfg dk spec code stdin st)) = Inr out \<and>
    out_ExitCode out = 0 \<and> \<not> out_TimedOut out \<and> \<not> out_OOMKilled out \<and> \<not> out_CompileError out"
proof -
  let ?msg = "''ocee: workdir unavailable'' @ [nl]"
  have "LastIndex (take n ?msg) (nonce @ '' phase='') = None" for n
  proof -
    from assms(2) obtain t where "nonce @ '' phase='' = CHR ''_'' # t"
      by (auto simp: newNonce_def split: sum.splits)
    moreover have "CHR ''_'' \<notin> set (take n ?msg)" by (auto dest!: in_set_takeD)
    ultimately show ?thesis by (metis LastIndex_no_head)
  qed
  from buildOutcome_unmarked [OF extractMarker_absent [OF this]] show ?thesis
    unfolding Execute_delivers [OF assms(1-4)] using assms(5-7)
    by (simp add: sandboxScript_def wrap32_def wrap_def)
qed

section \<open>Warm images\<close>

lemma ensureImage_ok:
  assumes "dk_image dk = None \<or> PullImages cfg \<and> dk_pull dk = None \<and> dk_drain dk = None \<and> dk_image_after dk = None"
  shows "ref \<in> imageReady (fst (ensureImage cfg dk ref st))"
  using assms by (auto simp: ensureImage_def Let_def)

lemma warm_loop_mono: "imageReady st \<subseteq> imageReady (fst (warm_loop cfg dks refs st))"
proof (induction cfg dks refs st rule: warm_loop.induct)
  case (2 cfg dks ref refs st)
  obtain st1 calls e where e: "ensureImage cfg (dks ref) ref st = (st1, calls, e)"
    by (cases "ensureImage cfg (dks ref) ref st") auto
  with "2.IH" [OF e [symmetric] refl] ensureImage_mono(1) [OF e] show ?case
    by (auto split: prod.splits)
qed simp

lemma warm_loop_ready:
  assumes "\<And>ref. ref \<in> set refs \<Longrightarrow>
      dk_image (dks ref) = None \<or>
      PullImages cfg \<and> dk_pull (dks ref) = None \<and> dk_drain (dks ref) = None \<and> dk_image_after (dks ref) = None"
  shows "set refs \<subseteq> imageReady (fst (warm_loop cfg dks refs st))"
  using assms
proof (induction cfg dks refs st rule: warm_loop.induct)
  case (2 cfg dks ref refs st)
  obtain st1 calls e where e: "ensureImage cfg (dks ref) ref st = (st1, calls, e)"
    by (cases "ensureImage cfg (dks ref) ref st") auto
  have "ref \<in> imageReady st1"
    using ensureImage_ok [of "dks ref" cfg ref st] "2.prems" [of ref] e by simp
  moreover have "set refs \<subseteq> imageReady (fst (warm_loop cfg dks refs st1))"
    using "2.IH" [OF e [symmetric] refl] "2.prems" by simp
  ultimately show ?case
    using warm_loop_mono [of st1 cfg dks refs] e by (auto split: prod.splits)
qed simp

text \<open>
  After warming with a daemon that has or can pull every image, no execution asks the daemon for an
  image again: the first call of every execution is the creation of its container.
\<close>

theorem warm_images_suffice:
  assumes "mset it = mset registry" and "PullImages cfg"
    and "\<And>ref. dk_image (dks ref) = None \<or>
      dk_pull (dks ref) = None \<and> dk_drain (dks ref) = None \<and> dk_image_after (dks ref) = None"
    and "Get k = Some spec" and "newNonce (dk_rand dk) = Inr nonce"
  shows "\<exists>c h i rest. fst (snd (Execute script cfg dk spec code stdin (fst (WarmImages cfg dks it st)))) =
    ContainerCreate c h i # rest"
proof -
  have "All it = All registry" by (rule All_permutation [OF assms(1)])
  then have "Images it = Images registry" by (simp add: Images_def)
  moreover have "spec_Image spec \<in> set (Images registry)"
    using assms(4) by (rule Get_cases) (simp_all add: Images_def All_registry spec_defs)
  ultimately have "spec_Image spec \<in> imageReady (fst (WarmImages cfg dks it st))"
    using warm_loop_ready [of "Images it" dks cfg st] assms(2,3) by (auto simp: WarmImages_def)
  with assms(5) show ?thesis
    by (auto simp: Execute_def ensureImage_def createContainer_def Let_def split: prod.splits sum.splits)
qed

theorem warm_images_suffice_witness:
  "\<exists>c h i rest. fst (snd (Execute ''s'' default_config sample_docker c_spec ''x'' []
      (fst (WarmImages default_config (\<lambda>_. sample_docker) registry fresh_executor)))) = ContainerCreate c h i # rest"
  by (rule warm_images_suffice [where k = "''c''"]) (simp_all add: Get_def registry_def)

lemma Execute_outcome:
  assumes "Execute script cfg dk spec code stdin st = (st', calls, Inr out)"
  obtains nonce exitCode where "out = buildOutcome cfg
      (take (nat (MaxOutputBytes cfg)) (stream_bytes StdoutStream (dk_frames dk)))
      (take (nat (MaxOutputBytes cfg)) (stream_bytes StderrStream (dk_frames dk)))
      nonce exitCode (dk_wall dk) (oom_killed dk)"
  using assms
proof (cases rule: Execute_cases)
  case (ran calls1 nonce cid calls3)
  from ran(4) that show thesis
    by (auto simp: runContainer_def std_copy_eq Let_def split: option.splits wait_event.splits)
qed simp_all

text \<open>
  C19. Every outcome fits the columns it is stored in: the exit code 32 bits, the times and the memory 64
  bits, the CPU time not negative; and neither stream is longer than the output cap. This holds
  whatever the container printed, also for a marker with numbers that are out of range.
\<close>

theorem outcome_fits_columns:
  assumes "Execute script cfg dk spec code stdin st = (st', calls, Inr out)" and "int64 (dk_wall dk)"
  shows "int32 (out_ExitCode out) \<and> int64 (out_CPUTimeMS out) \<and> 0 \<le> out_CPUTimeMS out \<and>
    int64 (out_WallTimeMS out) \<and> int64 (out_MemoryKB out) \<and>
    length (out_Stdout out) \<le> nat (MaxOutputBytes cfg) \<and> length (out_Stderr out) \<le> nat (MaxOutputBytes cfg)"
proof -
  let ?o = "take (nat (MaxOutputBytes cfg)) (stream_bytes StdoutStream (dk_frames dk))"
  let ?e = "take (nat (MaxOutputBytes cfg)) (stream_bytes StderrStream (dk_frames dk))"
  obtain nonce code' where out: "out = buildOutcome cfg ?o ?e nonce code' (dk_wall dk) (oom_killed dk)"
    using assms(1) by (rule Execute_outcome)
  have w: "int32 (wrap32 n)" "int64 (wrap64 n)" for n
    using wrap32_range [of n] wrap64_range [of n] by (simp_all add: int32_def int64_def)
  have wall: "int64 (Milliseconds (dk_wall dk))"
    using quot_fits [OF assms(2)] by (simp add: Milliseconds_def)
  obtain c m found where ex: "extractMarker ?e nonce = (c, m, found)" by (metis prod_cases3)
  note fits = extractMarker_fits [OF ex]
  then have len: "length c \<le> nat (MaxOutputBytes cfg)" by simp
  show ?thesis
  proof (cases found)
    case True
    with ex fits(1,2) quot_fits quot_nonneg_ge0 [of "m_cpuUsec m" 1000] w wall len show ?thesis
      unfolding out by (simp add: buildOutcome_marked marker_fits_def)
  next
    case False
    with ex w wall len show ?thesis
      unfolding out by (simp add: buildOutcome_unmarked) (simp add: int64_def)
  qed
qed

theorem outcome_fits_columns_witness:
  "\<exists>out. snd (snd (Execute ''s'' default_config (docker_of (''6'', [])) python_spec ''x'' [] warm_executor)) = Inr out \<and>
     int32 (out_ExitCode out)"
proof -
  let ?x = "Execute ''s'' default_config (docker_of (''6'', [])) python_spec ''x'' [] warm_executor"
  obtain out where out: "snd (snd ?x) = Inr out"
    using Execute_delivers [of python_spec warm_executor "docker_of (''6'', [])" "''__OCEE_2a__''" "''c1''"
        "(''6'', [])" "''s''" default_config "''x''" "[]"] by simp
  then have "?x = (fst ?x, fst (snd ?x), Inr out)" by (metis prod.collapse)
  from outcome_fits_columns [OF this] out show ?thesis by (simp add: int64_def)
qed

end
