(* ===== verification/Ocee_Db.thy ===== *)
theory Ocee_Db
  imports Ocee_Prelude "HOL-Library.Word"
begin

text \<open>
  The submissions table and its queries: package \<^verbatim>\<open>db\<close> (\<^verbatim>\<open>src/internal/db/models.go\<close>,
  \<^verbatim>\<open>submissions.sql.go\<close>) with the SQL statements it sends. PostgreSQL itself is not part of the
  repository: the record \<open>db_env\<close> holds what it contributes to one statement, namely \<^verbatim>\<open>now()\<close>, which
  texts it accepts, and whether the statement takes effect and whether its reply arrives.
  The contract the handlers rely on is the locale \<open>submission_store\<close>, which is interpreted on
  the statements. Shown: a statement changes at most the row it names, its reply is the row that is
  stored, and what every sequence of statements keeps of a row.
\<close>

section \<open>The data model\<close>

type_synonym uuid = "128 word"
type_synonym SubmissionStatus = string

definition SubmissionStatusQueued :: SubmissionStatus where
  "SubmissionStatusQueued = ''queued''"

definition SubmissionStatusRunning :: SubmissionStatus where
  "SubmissionStatusRunning = ''running''"

definition SubmissionStatusCompleted :: SubmissionStatus where
  "SubmissionStatusCompleted = ''completed''"

definition SubmissionStatusFailed :: SubmissionStatus where
  "SubmissionStatusFailed = ''failed''"

lemmas status_defs = SubmissionStatusQueued_def SubmissionStatusRunning_def
  SubmissionStatusCompleted_def SubmissionStatusFailed_def

record Submission =
  sub_ID :: uuid
  sub_Language :: string
  sub_Code :: string
  sub_Stdin :: string
  sub_WebhookUrl :: "string option"
  sub_Status :: SubmissionStatus
  sub_Stdout :: "string option"
  sub_Stderr :: "string option"
  sub_ExitCode :: "int option"
  sub_CompileOutput :: "string option"
  sub_CpuTimeMs :: "int option"
  sub_WallTimeMs :: "int option"
  sub_MemoryKb :: "int option"
  sub_TimedOut :: bool
  sub_OomKilled :: bool
  sub_Error :: "string option"
  sub_CreatedAt :: time
  sub_StartedAt :: "time option"
  sub_FinishedAt :: "time option"

text \<open>
  A value as the driver hands it to \<open>Scan\<close>: the two kinds of text, NULL, and anything else with the
  name of its type.
\<close>

datatype driver_value = Bytes string | Text string | Null | Other string

definition status_Scan :: "SubmissionStatus \<Rightarrow> driver_value \<Rightarrow> SubmissionStatus \<times> string option" where
  "status_Scan e src =
     (case src of
        Bytes s \<Rightarrow> (s, None)
      | Text s \<Rightarrow> (s, None)
      | Null \<Rightarrow> (e, Some ''unsupported scan type for SubmissionStatus: <nil>'')
      | Other t \<Rightarrow> (e, Some (''unsupported scan type for SubmissionStatus: '' @ t)))"

record NullSubmissionStatus =
  ns_SubmissionStatus :: SubmissionStatus
  ns_Valid :: bool

definition null_status_Scan ::
  "NullSubmissionStatus \<Rightarrow> driver_value \<Rightarrow> NullSubmissionStatus \<times> string option" where
  "null_status_Scan ns v =
     (if v = Null then (\<lparr>ns_SubmissionStatus = [], ns_Valid = False\<rparr>, None)
      else case status_Scan (ns_SubmissionStatus ns) v of
        (s, err) \<Rightarrow> (\<lparr>ns_SubmissionStatus = s, ns_Valid = True\<rparr>, err))"

definition null_status_Value :: "NullSubmissionStatus \<Rightarrow> driver_value" where
  "null_status_Value ns = (if \<not> ns_Valid ns then Null else Text (ns_SubmissionStatus ns))"

section \<open>Statements\<close>

type_synonym table = "uuid \<rightharpoonup> Submission"

datatype db_error = ErrNoRows | DbError string

text \<open>
  What happens to one statement: it takes effect and is answered, it does not take effect, or it takes
  effect but the answer is lost.
\<close>

datatype db_reply = Answered | Refused string | ReplyLost string

record db_env =
  db_now :: time
  db_text_ok :: "string \<Rightarrow> bool"
  db_reply :: db_reply

definition statement ::
  "db_env \<Rightarrow> 's \<Rightarrow> 's \<times> (db_error + 'r) \<Rightarrow> 's \<times> (db_error + 'r)" where
  "statement de tbl eff =
     (case db_reply de of
        Answered \<Rightarrow> eff
      | Refused e \<Rightarrow> (tbl, Inl (DbError e))
      | ReplyLost e \<Rightarrow> (fst eff, Inl (DbError e)))"

definition opt_text_ok :: "db_env \<Rightarrow> string option \<Rightarrow> bool" where
  "opt_text_ok de t = (case t of None \<Rightarrow> True | Some s \<Rightarrow> db_text_ok de s)"

definition bad_text :: db_error where
  "bad_text = DbError ''invalid byte sequence for encoding''"

record CreateSubmissionParams =
  cp_ID :: uuid
  cp_Language :: string
  cp_Code :: string
  cp_Stdin :: string
  cp_WebhookUrl :: "string option"

definition new_row :: "db_env \<Rightarrow> CreateSubmissionParams \<Rightarrow> Submission" where
  "new_row de a =
     \<lparr>sub_ID = cp_ID a, sub_Language = cp_Language a, sub_Code = cp_Code a, sub_Stdin = cp_Stdin a,
      sub_WebhookUrl = cp_WebhookUrl a, sub_Status = SubmissionStatusQueued, sub_Stdout = None,
      sub_Stderr = None, sub_ExitCode = None, sub_CompileOutput = None, sub_CpuTimeMs = None,
      sub_WallTimeMs = None, sub_MemoryKb = None, sub_TimedOut = False, sub_OomKilled = False,
      sub_Error = None, sub_CreatedAt = db_now de, sub_StartedAt = None, sub_FinishedAt = None\<rparr>"

definition CreateSubmission ::
  "db_env \<Rightarrow> CreateSubmissionParams \<Rightarrow> table \<Rightarrow> table \<times> (db_error + Submission)" where
  "CreateSubmission de a tbl =
     statement de tbl
       (if \<not> (db_text_ok de (cp_Language a) \<and> db_text_ok de (cp_Code a) \<and>
              db_text_ok de (cp_Stdin a) \<and> opt_text_ok de (cp_WebhookUrl a))
        then (tbl, Inl bad_text)
        else if tbl (cp_ID a) \<noteq> None
        then (tbl, Inl (DbError ''duplicate key value violates unique constraint''))
        else (tbl(cp_ID a \<mapsto> new_row de a), Inr (new_row de a)))"

text \<open>\<^verbatim>\<open>UPDATE submissions SET ... WHERE id = $1 RETURNING *\<close>, with the assignments as a function.\<close>

definition update_row ::
  "uuid \<Rightarrow> (Submission \<Rightarrow> Submission) \<Rightarrow> table \<Rightarrow> table \<times> (db_error + Submission)" where
  "update_row i set_cols tbl =
     (case tbl i of
        None \<Rightarrow> (tbl, Inl ErrNoRows)
      | Some r \<Rightarrow> (tbl(i \<mapsto> set_cols r), Inr (set_cols r)))"

definition GetSubmission :: "db_env \<Rightarrow> uuid \<Rightarrow> table \<Rightarrow> db_error + Submission" where
  "GetSubmission de i tbl =
     snd (statement de tbl
       (tbl, case tbl i of None \<Rightarrow> Inl ErrNoRows | Some r \<Rightarrow> Inr r))"

definition set_running :: "db_env \<Rightarrow> Submission \<Rightarrow> Submission" where
  "set_running de r =
     r\<lparr>sub_Status := SubmissionStatusRunning, sub_StartedAt := Some (db_now de)\<rparr>"

definition MarkSubmissionRunning ::
  "db_env \<Rightarrow> uuid \<Rightarrow> table \<Rightarrow> table \<times> (db_error + Submission)" where
  "MarkSubmissionRunning de i tbl = statement de tbl (update_row i (set_running de) tbl)"

record CompleteSubmissionParams =
  cs_ID :: uuid
  cs_Stdout :: "string option"
  cs_Stderr :: "string option"
  cs_ExitCode :: "int option"
  cs_CompileOutput :: "string option"
  cs_CpuTimeMs :: "int option"
  cs_WallTimeMs :: "int option"
  cs_MemoryKb :: "int option"
  cs_TimedOut :: bool
  cs_OomKilled :: bool

definition set_completed :: "db_env \<Rightarrow> CompleteSubmissionParams \<Rightarrow> Submission \<Rightarrow> Submission" where
  "set_completed de a r =
     r\<lparr>sub_Status := SubmissionStatusCompleted, sub_Stdout := cs_Stdout a, sub_Stderr := cs_Stderr a,
       sub_ExitCode := cs_ExitCode a, sub_CompileOutput := cs_CompileOutput a,
       sub_CpuTimeMs := cs_CpuTimeMs a, sub_WallTimeMs := cs_WallTimeMs a,
       sub_MemoryKb := cs_MemoryKb a, sub_TimedOut := cs_TimedOut a, sub_OomKilled := cs_OomKilled a,
       sub_FinishedAt := Some (db_now de)\<rparr>"

definition CompleteSubmission ::
  "db_env \<Rightarrow> CompleteSubmissionParams \<Rightarrow> table \<Rightarrow> table \<times> (db_error + Submission)" where
  "CompleteSubmission de a tbl =
     statement de tbl
       (if \<not> (opt_text_ok de (cs_Stdout a) \<and> opt_text_ok de (cs_Stderr a) \<and>
              opt_text_ok de (cs_CompileOutput a))
        then (tbl, Inl bad_text)
        else update_row (cs_ID a) (set_completed de a) tbl)"

record FailSubmissionParams =
  fs_ID :: uuid
  fs_Error :: "string option"

definition set_failed :: "db_env \<Rightarrow> FailSubmissionParams \<Rightarrow> Submission \<Rightarrow> Submission" where
  "set_failed de a r =
     r\<lparr>sub_Status := SubmissionStatusFailed, sub_Error := fs_Error a,
       sub_FinishedAt := Some (db_now de)\<rparr>"

definition FailSubmission ::
  "db_env \<Rightarrow> FailSubmissionParams \<Rightarrow> table \<Rightarrow> table \<times> (db_error + Submission)" where
  "FailSubmission de a tbl =
     statement de tbl
       (if \<not> opt_text_ok de (fs_Error a) then (tbl, Inl bad_text)
        else update_row (fs_ID a) (set_failed de a) tbl)"

record ListSubmissionsParams =
  ls_Limit :: int
  ls_Offset :: int

text \<open>
  \<open>scan\<close> is the order in which the server happens to read the rows; rows of the same \<^verbatim>\<open>created_at\<close> may
  come in any order.
\<close>

definition ListSubmissions ::
  "(table \<Rightarrow> Submission list) \<Rightarrow> db_env \<Rightarrow> ListSubmissionsParams \<Rightarrow> table \<Rightarrow>
   db_error + Submission list" where
  "ListSubmissions scan de a tbl =
     snd (statement de tbl
       (tbl,
        if ls_Limit a < 0 then Inl (DbError ''LIMIT must not be negative'')
        else if ls_Offset a < 0 then Inl (DbError ''OFFSET must not be negative'')
        else Inr (take (nat (ls_Limit a)) (drop (nat (ls_Offset a))
               (sort_key (\<lambda>r. - sub_CreatedAt r) (scan tbl))))))"

definition scans :: "(table \<Rightarrow> Submission list) \<Rightarrow> table \<Rightarrow> bool" where
  "scans scan tbl = (distinct (scan tbl) \<and> set (scan tbl) = ran tbl)"

section \<open>The contract of the store\<close>

text \<open>
  A store of rows: every write names one row (\<open>target\<close>) and has an intended effect on it (\<open>change\<close>).
  Whether the effect takes place is up to the store, but nothing else may happen, and a
  successful answer is the row as it is stored.
\<close>

fun put_seq :: "('op \<Rightarrow> 's \<Rightarrow> 's \<times> 'a) \<Rightarrow> 'op list \<Rightarrow> 's \<Rightarrow> 's" where
  "put_seq put [] s = s"
| "put_seq put (c # cs) s = put_seq put cs (fst (put c s))"

locale submission_store =
  fixes look :: "'s \<Rightarrow> 'k \<Rightarrow> 'r option"
    and put :: "'op \<Rightarrow> 's \<Rightarrow> 's \<times> ('e + 'r)"
    and target :: "'op \<Rightarrow> 'k"
    and change :: "'op \<Rightarrow> 'r option \<Rightarrow> 'r option"
  assumes frame: "k \<noteq> target c \<Longrightarrow> look (fst (put c s)) k = look s k"
    and effect: "look (fst (put c s)) (target c) = look s (target c) \<or>
      look (fst (put c s)) (target c) = change c (look s (target c))"
    and answer: "snd (put c s) = Inr r \<Longrightarrow>
      look (fst (put c s)) (target c) = Some r \<and> change c (look s (target c)) = Some r"
begin

lemma put_keeps:
  assumes "P (look s k)" and "k = target c \<Longrightarrow> P (look s k) \<Longrightarrow> P (change c (look s k))"
  shows "P (look (fst (put c s)) k)"
proof (cases "k = target c")
  case True
  with assms effect [of c s] show ?thesis by metis
next
  case False
  with assms frame [of k c s] show ?thesis by simp
qed

lemma put_seq_keeps:
  assumes "P (look s k)"
    and "\<And>c x. c \<in> set cs \<Longrightarrow> k = target c \<Longrightarrow> P x \<Longrightarrow> P (change c x)"
  shows "P (look (put_seq put cs s) k)"
  using assms
proof (induction cs arbitrary: s)
  case (Cons c cs)
  have "P (look (fst (put c s)) k)"
    by (rule put_keeps [of P, OF Cons.prems(1)]) (rule Cons.prems(2), simp_all)
  then have "P (look (put_seq put cs (fst (put c s))) k)"
    by (rule Cons.IH) (rule Cons.prems(2), simp_all)
  then show ?case by simp
qed simp

lemma put_seq_frame:
  assumes "k \<notin> target ` set cs"
  shows "look (put_seq put cs s) k = look s k"
proof (rule put_seq_keeps [where P = "\<lambda>x. x = look s k", OF refl])
  fix c x
  assume "c \<in> set cs" "k = target c"
  with assms show "change c x = look s k" by blast
qed

end

section \<open>The statements fulfil it\<close>

text \<open>The writes of the program, with the database's part in each.\<close>

datatype db_write =
  Create db_env CreateSubmissionParams
| Mark db_env uuid
| Complete db_env CompleteSubmissionParams
| Fail db_env FailSubmissionParams

fun db_put :: "db_write \<Rightarrow> table \<Rightarrow> table \<times> (db_error + Submission)" where
  "db_put (Create de a) tbl = CreateSubmission de a tbl"
| "db_put (Mark de i) tbl = MarkSubmissionRunning de i tbl"
| "db_put (Complete de a) tbl = CompleteSubmission de a tbl"
| "db_put (Fail de a) tbl = FailSubmission de a tbl"

fun db_target :: "db_write \<Rightarrow> uuid" where
  "db_target (Create de a) = cp_ID a"
| "db_target (Mark de i) = i"
| "db_target (Complete de a) = cs_ID a"
| "db_target (Fail de a) = fs_ID a"

fun db_change :: "db_write \<Rightarrow> Submission option \<Rightarrow> Submission option" where
  "db_change (Create de a) x = (case x of None \<Rightarrow> Some (new_row de a) | Some r \<Rightarrow> Some r)"
| "db_change (Mark de i) x = map_option (set_running de) x"
| "db_change (Complete de a) x = map_option (set_completed de a) x"
| "db_change (Fail de a) x = map_option (set_failed de a) x"

declare CreateSubmission_def [db_defs] MarkSubmissionRunning_def [db_defs] CompleteSubmission_def [db_defs]
  FailSubmission_def [db_defs] statement_def [db_defs] update_row_def [db_defs]

lemma db_put_frame: "k \<noteq> db_target c \<Longrightarrow> fst (db_put c tbl) k = tbl k"
  by (cases c) (auto simp: db_defs split: db_reply.splits option.splits)

lemma db_put_effect:
  "fst (db_put c tbl) (db_target c) = tbl (db_target c) \<or>
   fst (db_put c tbl) (db_target c) = db_change c (tbl (db_target c))"
  by (cases c) (auto simp: db_defs split: db_reply.splits option.splits)

lemma db_put_answer:
  "snd (db_put c tbl) = Inr r \<Longrightarrow>
   fst (db_put c tbl) (db_target c) = Some r \<and> db_change c (tbl (db_target c)) = Some r"
  by (cases c) (auto simp: db_defs
      split: db_reply.splits option.splits if_splits)

interpretation store: submission_store "\<lambda>tbl k. tbl k" db_put db_target db_change
  by unfold_locales (use db_put_frame db_put_effect db_put_answer in \<open>blast+\<close>)

section \<open>Well-formed rows\<close>

text \<open>
  What a row must look like in each status. Nothing is claimed of the result columns of a running row:
  it may carry those of an earlier attempt.
\<close>

definition row_wf :: "Submission \<Rightarrow> bool" where
  "row_wf r =
     (sub_Status r \<in> {SubmissionStatusQueued, SubmissionStatusRunning, SubmissionStatusCompleted,
        SubmissionStatusFailed} \<and>
      (sub_Status r = SubmissionStatusQueued \<longrightarrow>
         sub_StartedAt r = None \<and> sub_FinishedAt r = None \<and> sub_Error r = None \<and>
         sub_Stdout r = None \<and> sub_Stderr r = None \<and> sub_ExitCode r = None) \<and>
      (sub_Status r = SubmissionStatusRunning \<longrightarrow> sub_StartedAt r \<noteq> None) \<and>
      (sub_Status r = SubmissionStatusCompleted \<longrightarrow>
         sub_FinishedAt r \<noteq> None \<and> sub_Stdout r \<noteq> None \<and> sub_Stderr r \<noteq> None \<and>
         sub_ExitCode r \<noteq> None \<and> sub_CpuTimeMs r \<noteq> None \<and> sub_WallTimeMs r \<noteq> None \<and>
         sub_MemoryKb r \<noteq> None) \<and>
      (sub_Status r = SubmissionStatusFailed \<longrightarrow> sub_FinishedAt r \<noteq> None \<and> sub_Error r \<noteq> None))"

text \<open>The writes that pass a value for every column of a result, as the worker's do.\<close>

fun full_write :: "db_write \<Rightarrow> bool" where
  "full_write (Complete de a) =
     (cs_Stdout a \<noteq> None \<and> cs_Stderr a \<noteq> None \<and> cs_ExitCode a \<noteq> None \<and> cs_CpuTimeMs a \<noteq> None \<and>
      cs_WallTimeMs a \<noteq> None \<and> cs_MemoryKb a \<noteq> None)"
| "full_write (Fail de a) = (fs_Error a \<noteq> None)"
| "full_write _ = True"

lemma status_distinct [simp]:
  "SubmissionStatusQueued \<noteq> SubmissionStatusRunning" "SubmissionStatusQueued \<noteq> SubmissionStatusCompleted"
  "SubmissionStatusQueued \<noteq> SubmissionStatusFailed" "SubmissionStatusRunning \<noteq> SubmissionStatusQueued"
  "SubmissionStatusRunning \<noteq> SubmissionStatusCompleted" "SubmissionStatusRunning \<noteq> SubmissionStatusFailed"
  "SubmissionStatusCompleted \<noteq> SubmissionStatusQueued" "SubmissionStatusCompleted \<noteq> SubmissionStatusRunning"
  "SubmissionStatusCompleted \<noteq> SubmissionStatusFailed" "SubmissionStatusFailed \<noteq> SubmissionStatusQueued"
  "SubmissionStatusFailed \<noteq> SubmissionStatusRunning" "SubmissionStatusFailed \<noteq> SubmissionStatusCompleted"
  by (simp_all add: status_defs)

lemma row_wf_set [simp]:
  "row_wf (new_row de a)" "row_wf (set_running de r)"
  "full_write (Complete de c) \<Longrightarrow> row_wf (set_completed de c r)"
  "full_write (Fail de f) \<Longrightarrow> row_wf (set_failed de f r)"
  by (simp_all add: row_wf_def new_row_def set_running_def set_completed_def set_failed_def)

text \<open>The columns no statement but the insertion writes.\<close>

definition same_input :: "Submission \<Rightarrow> Submission \<Rightarrow> bool" where
  "same_input r r' =
     (sub_ID r' = sub_ID r \<and> sub_Language r' = sub_Language r \<and> sub_Code r' = sub_Code r \<and>
      sub_Stdin r' = sub_Stdin r \<and> sub_WebhookUrl r' = sub_WebhookUrl r \<and>
      sub_CreatedAt r' = sub_CreatedAt r)"

lemma same_input_set [simp]:
  "same_input r r" "same_input r (set_running de r') = same_input r r'"
  "same_input r (set_completed de c r') = same_input r r'"
  "same_input r (set_failed de f r') = same_input r r'"
  by (simp_all add: same_input_def set_running_def set_completed_def set_failed_def)

lemma sub_ID_set [simp]:
  "sub_ID (new_row de a) = cp_ID a" "sub_ID (set_running de r) = sub_ID r"
  "sub_ID (set_completed de c r) = sub_ID r" "sub_ID (set_failed de f r) = sub_ID r"
  by (simp_all add: new_row_def set_running_def set_completed_def set_failed_def)

section \<open>Sample data\<close>

definition ok_db :: "time \<Rightarrow> db_env" where
  "ok_db t = \<lparr>db_now = t, db_text_ok = (\<lambda>s. CHR 0x00 \<notin> set s), db_reply = Answered\<rparr>"

lemma ok_db_simps [simp]:
  "db_now (ok_db t) = t" "db_reply (ok_db t) = Answered"
  "db_text_ok (ok_db t) s \<longleftrightarrow> CHR 0x00 \<notin> set s"
  by (simp_all add: ok_db_def)

definition sample_params :: CreateSubmissionParams where
  "sample_params = \<lparr>cp_ID = 7, cp_Language = ''python'', cp_Code = ''print(6)'', cp_Stdin = [],
     cp_WebhookUrl = Some ''https://example.com/hook''\<rparr>"

definition sample_row :: Submission where
  "sample_row = new_row (ok_db 1) sample_params"

definition sample_result :: CompleteSubmissionParams where
  "sample_result = \<lparr>cs_ID = 7, cs_Stdout = Some ''6'', cs_Stderr = Some [], cs_ExitCode = Some 0,
     cs_CompileOutput = None, cs_CpuTimeMs = Some 5, cs_WallTimeMs = Some 900, cs_MemoryKb = Some 2048,
     cs_TimedOut = False, cs_OomKilled = False\<rparr>"

text \<open>A submission that is created, started twice and completed; the second reply is lost.\<close>

definition sample_writes :: "db_write list" where
  "sample_writes =
     [Create (ok_db 1) sample_params, Mark ((ok_db 2)\<lparr>db_reply := ReplyLost ''reset''\<rparr>) 7,
      Mark (ok_db 3) 7, Complete (ok_db 4) sample_result]"

lemma sample_writes_run:
  "put_seq db_put sample_writes Map.empty =
     [7 \<mapsto> set_completed (ok_db 4) sample_result
        (set_running (ok_db 3) (set_running (ok_db 2) sample_row))]"
proof -
  have texts: "db_text_ok (ok_db 1) (cp_Language sample_params)" "db_text_ok (ok_db 1) (cp_Code sample_params)"
    "db_text_ok (ok_db 1) (cp_Stdin sample_params)" "opt_text_ok (ok_db 1) (cp_WebhookUrl sample_params)"
    "opt_text_ok (ok_db 4) (cs_Stdout sample_result)" "opt_text_ok (ok_db 4) (cs_Stderr sample_result)"
    "opt_text_ok (ok_db 4) (cs_CompileOutput sample_result)"
    "cp_ID sample_params = 7" "cs_ID sample_result = 7"
    by (simp_all add: sample_params_def sample_result_def opt_text_ok_def)
  have run: "set_running ((ok_db 2)\<lparr>db_reply := x\<rparr>) r = set_running (ok_db 2) r" for x r
    by (simp add: set_running_def)
  show ?thesis
    by (simp add: sample_writes_def db_defs texts [simplified] run sample_row_def)
qed

section \<open>Properties\<close>

text \<open>
  Whatever sequence of writes is sent to an empty table, in whatever order and however the database
  answers, every row is stored under its own id and is well-formed: a known status, a start time once
  it runs, a full result when completed, an error when failed.
\<close>

theorem rows_well_formed:
  assumes "\<forall>c\<in>set cs. full_write c" and "put_seq db_put cs Map.empty k = Some r"
  shows "row_wf r \<and> sub_ID r = k"
proof -
  let ?P = "\<lambda>x. \<forall>r. x = Some r \<longrightarrow> row_wf r \<and> sub_ID r = k"
  have "?P (put_seq db_put cs Map.empty k)"
  proof (rule store.put_seq_keeps [where P = ?P])
    fix c x
    assume "c \<in> set cs" "k = db_target c" "?P x"
    with assms(1) show "?P (db_change c x)"
      by (cases c) (auto split: option.splits)
  qed simp
  with assms(2) show ?thesis by simp
qed

theorem rows_well_formed_witness:
  "row_wf (the (put_seq db_put sample_writes Map.empty 7))"
  using rows_well_formed [of sample_writes 7] sample_writes_run
  by (simp add: sample_writes_def sample_result_def)

text \<open>
  No sequence of writes loses a submission or changes what was submitted: the row stays, with its
  language, code, input, webhook address and creation time.
\<close>

theorem submission_input_immutable:
  assumes "tbl k = Some r"
  shows "\<exists>r'. put_seq db_put cs tbl k = Some r' \<and> same_input r r'"
proof (rule store.put_seq_keeps [where P = "\<lambda>x. \<exists>r'. x = Some r' \<and> same_input r r'"])
  show "\<exists>r'. tbl k = Some r' \<and> same_input r r'" using assms by simp
next
  fix c x
  assume "\<exists>r'. x = Some r' \<and> same_input r r'"
  then show "\<exists>r'. db_change c x = Some r' \<and> same_input r r'"
    by (cases c) auto
qed

theorem submission_input_immutable_witness:
  "\<exists>r'. put_seq db_put (tl sample_writes) [7 \<mapsto> sample_row] 7 = Some r' \<and> same_input sample_row r'"
  by (rule submission_input_immutable) simp

text \<open>
  C31. A page of submissions holds stored rows only, none twice, newest first, as many as asked for as long
  as there are that many after the offset, and a row that is not on the first page is not newer than
  one that is.
\<close>

theorem ListSubmissions_page:
  assumes "scans scan tbl" and "ListSubmissions scan de \<lparr>ls_Limit = limit, ls_Offset = offset\<rparr> tbl = Inr rows"
  shows "distinct rows \<and> set rows \<subseteq> ran tbl \<and>
    length rows = min (nat limit) (card (ran tbl) - nat offset) \<and>
    sorted_wrt (\<lambda>a b. sub_CreatedAt b \<le> sub_CreatedAt a) rows \<and>
    (offset = 0 \<longrightarrow> (\<forall>a\<in>set rows. \<forall>b\<in>ran tbl - set rows. sub_CreatedAt b \<le> sub_CreatedAt a))"
proof -
  let ?all = "sort_key (\<lambda>r. - sub_CreatedAt r) (scan tbl)"
  have rows: "rows = take (nat limit) (drop (nat offset) ?all)"
    using assms(2) by (auto simp: ListSubmissions_def statement_def split: db_reply.splits if_splits)
  have all: "distinct ?all" "set ?all = ran tbl"
    using assms(1) by (simp_all add: scans_def)
  have "sorted_wrt (\<lambda>a b. - sub_CreatedAt a \<le> - sub_CreatedAt b) ?all"
    using sorted_sort_key [of "\<lambda>r. - sub_CreatedAt r" "scan tbl"] by (simp only: sorted_map)
  then have srt: "sorted_wrt (\<lambda>a b. sub_CreatedAt b \<le> sub_CreatedAt a) ?all" by simp
  have "length ?all = card (ran tbl)"
    using distinct_card [OF all(1)] all(2) by simp
  then have len: "length rows = min (nat limit) (card (ran tbl) - nat offset)"
    unfolding rows length_take length_drop by (simp add: min.commute)
  have sub: "set rows \<subseteq> ran tbl"
    unfolding rows using all(2) by (metis order_trans set_drop_subset set_take_subset)
  have first: "sub_CreatedAt b \<le> sub_CreatedAt a"
    if "offset = 0" "a \<in> set rows" "b \<in> ran tbl - set rows" for a b
  proof -
    have split: "?all = rows @ drop (nat limit) ?all" using that(1) rows by simp
    then have "b \<in> set (drop (nat limit) ?all)" using that(3) all(2) by (metis Diff_iff Un_iff set_append)
    with srt that(2) split show ?thesis by (metis sorted_wrt_append)
  qed
  have "distinct rows" "sorted_wrt (\<lambda>a b. sub_CreatedAt b \<le> sub_CreatedAt a) rows"
    unfolding rows using all(1) srt by (simp_all add: sorted_wrt_take sorted_wrt_drop)
  with len sub first show ?thesis by blast
qed

theorem ListSubmissions_page_witness:
  "ListSubmissions (\<lambda>_. [sample_row, sample_row\<lparr>sub_ID := 8, sub_CreatedAt := 9\<rparr>]) (ok_db 9)
      \<lparr>ls_Limit = 1, ls_Offset = 0\<rparr> [7 \<mapsto> sample_row, 8 \<mapsto> sample_row\<lparr>sub_ID := 8, sub_CreatedAt := 9\<rparr>] =
     Inr [sample_row\<lparr>sub_ID := 8, sub_CreatedAt := 9\<rparr>] \<and>
   sub_CreatedAt sample_row \<le> sub_CreatedAt (sample_row\<lparr>sub_ID := 8, sub_CreatedAt := 9\<rparr>)"
proof -
  let ?l = "sample_row\<lparr>sub_ID := 8, sub_CreatedAt := 9\<rparr>"
  have r: "ran [7 :: uuid \<mapsto> sample_row, 8 \<mapsto> ?l] = {sample_row, ?l}" by (simp add: ran_map_upd insert_commute)
  have "sub_ID sample_row = 7" "sub_CreatedAt sample_row = 1"
    by (simp_all add: sample_row_def sample_params_def new_row_def)
  then have ne: "sample_row \<noteq> ?l" "- sub_CreatedAt ?l \<le> - sub_CreatedAt sample_row" "sub_CreatedAt sample_row = 1"
    by (auto dest: arg_cong [where f = sub_CreatedAt])
  then have "scans (\<lambda>_. [sample_row, ?l]) [7 \<mapsto> sample_row, 8 \<mapsto> ?l]" by (simp add: scans_def r)
  moreover have page: "ListSubmissions (\<lambda>_. [sample_row, ?l]) (ok_db 9) \<lparr>ls_Limit = 1, ls_Offset = 0\<rparr>
      [7 \<mapsto> sample_row, 8 \<mapsto> ?l] = Inr [?l]"
    using ne by (simp add: ListSubmissions_def statement_def)
  ultimately have "\<forall>b\<in>{sample_row, ?l} - {?l}. sub_CreatedAt b \<le> sub_CreatedAt ?l"
    using ListSubmissions_page [of "\<lambda>_. [sample_row, ?l]" "[7 \<mapsto> sample_row, 8 \<mapsto> ?l]" "ok_db 9" 1 0 "[?l]"] by (simp add: r) blast
  with page ne(1) show ?thesis by blast
qed

text \<open>
  A status that is written to the database with \<open>Value\<close> and read back with \<open>Scan\<close> is the same
  again, and every text is accepted by \<open>Scan\<close>.
\<close>

theorem null_status_roundtrip:
  assumes "ns_Valid ns \<or> ns_SubmissionStatus ns = []"
  shows "null_status_Scan old (null_status_Value ns) = (ns, None)"
  using assms by (cases ns) (auto simp: null_status_Scan_def null_status_Value_def status_Scan_def)

theorem null_status_roundtrip_witness:
  "null_status_Scan \<lparr>ns_SubmissionStatus = [], ns_Valid = False\<rparr>
     (null_status_Value \<lparr>ns_SubmissionStatus = ''running'', ns_Valid = True\<rparr>) =
   (\<lparr>ns_SubmissionStatus = ''running'', ns_Valid = True\<rparr>, None)"
  by (rule null_status_roundtrip) simp

end
