(* ===== verification/Ocee_Url.thy ===== *)
theory Ocee_Url
  imports Ocee_Prelude
begin

text \<open>
  \<^verbatim>\<open>url.Parse\<close> and \<^verbatim>\<open>URL.Hostname\<close> of Go's package \<^verbatim>\<open>net/url\<close> (Go 1.25.0), as far as the validation of
  webhook addresses uses them: the scheme, the authority with its host and port, and everything that
  makes parsing fail. An error is \<^const>\<open>None\<close>. Shown: an address written in the ordinary way,
  scheme, host, optional port and path, is parsed to that scheme and that host.
\<close>

section \<open>Escapes\<close>

datatype encoding = encodePath | encodeUserPassword | encodeFragment | encodeHost | encodeZone

definition is_letter :: "char \<Rightarrow> bool" where
  "is_letter c = (char_within (CHR ''a'') (CHR ''z'') c \<or> char_within (CHR ''A'') (CHR ''Z'') c)"

declare is_letter_def [char_class]

definition ishex :: "char \<Rightarrow> bool" where
  "ishex c = (is_digit c \<or> char_within (CHR ''a'') (CHR ''f'') c \<or> char_within (CHR ''A'') (CHR ''F'') c)"

definition unhex :: "char \<Rightarrow> nat" where
  "unhex c =
     (if is_digit c then of_char c - 48
      else if CHR ''a'' \<le> c then of_char c - 87
      else of_char c - 55)"

text \<open>The bytes a host may hold as they are (\<^verbatim>\<open>shouldEscape\<close> is false for them).\<close>

definition host_char :: "char \<Rightarrow> bool" where
  "host_char c =
     (is_letter c \<or> is_digit c \<or> c \<in> set ''-_.~!$&()*+,;=:[]<>'' \<or> c = CHR 0x27 \<or> c = CHR 0x22)"

fun unescape :: "encoding \<Rightarrow> string \<Rightarrow> string option" where
  "unescape m [] = Some []"
| "unescape m (c # s) =
     (if c = CHR ''%'' then
        (case s of
           a # b # rest \<Rightarrow>
             if \<not> (ishex a \<and> ishex b) then None
             else
               let v = char_of (unhex a * 16 + unhex b);
                   percent = (a = CHR ''2'' \<and> b = CHR ''5'')
               in if m = encodeHost \<and> unhex a < 8 \<and> \<not> percent then None
                  else if m = encodeZone \<and> \<not> percent \<and> v \<noteq> CHR '' '' \<and> \<not> host_char v then None
                  else map_option (Cons v) (unescape m rest)
         | _ \<Rightarrow> None)
      else if (m = encodeHost \<or> m = encodeZone) \<and> of_char c < (128 :: nat) \<and> \<not> host_char c then None
      else map_option (Cons c) (unescape m s))"

section \<open>The authority\<close>

definition validOptionalPort :: "string \<Rightarrow> bool" where
  "validOptionalPort port =
     (case port of [] \<Rightarrow> True | c # cs \<Rightarrow> c = CHR '':'' \<and> list_all is_digit cs)"

definition valid_userinfo :: "string \<Rightarrow> bool" where
  "valid_userinfo s =
     list_all (\<lambda>c. is_letter c \<or> is_digit c \<or> c \<in> set ''-._:~!$&()*+,;=%@'' \<or> c = CHR 0x27) s"

fun Index :: "string \<Rightarrow> string \<Rightarrow> nat option" where
  "Index [] sub = (if sub = [] then Some 0 else None)"
| "Index (c # cs) sub =
     (if prefix sub (c # cs) then Some 0 else map_option Suc (Index cs sub))"

definition bind3 :: "string option \<Rightarrow> string option \<Rightarrow> string option \<Rightarrow> string option" where
  "bind3 a b c =
     (case (a, b, c) of (Some x, Some y, Some z) \<Rightarrow> Some (x @ y @ z) | _ \<Rightarrow> None)"

definition parseHost :: "string \<Rightarrow> string option" where
  "parseHost host =
     (if prefix ''['' host then
        (case LastIndex host '']'' of
           None \<Rightarrow> None
         | Some i \<Rightarrow>
             if \<not> validOptionalPort (drop (i + 1) host) then None
             else (case Index (take i host) ''%25'' of
                 Some zone \<Rightarrow>
                   bind3 (unescape encodeHost (take zone host))
                     (unescape encodeZone (take (i - zone) (drop zone host)))
                     (unescape encodeHost (drop i host))
               | None \<Rightarrow> unescape encodeHost host))
      else
        (case LastIndex host '':'' of
           Some i \<Rightarrow> if \<not> validOptionalPort (drop i host) then None else unescape encodeHost host
         | None \<Rightarrow> unescape encodeHost host))"

text \<open>The host of an authority; the user information is checked and dropped.\<close>

definition parseAuthority :: "string \<Rightarrow> string option" where
  "parseAuthority authority =
     (case LastIndex authority ''@'' of
        None \<Rightarrow> parseHost authority
      | Some i \<Rightarrow>
          (case parseHost (drop (i + 1) authority) of
             None \<Rightarrow> None
           | Some host \<Rightarrow>
               let userinfo = take i authority in
               if \<not> valid_userinfo userinfo then None
               else (case CutByte userinfo (CHR '':'') of
                   (username, password, found) \<Rightarrow>
                     if unescape encodeUserPassword username = None then None
                     else if found \<and> unescape encodeUserPassword password = None then None
                     else Some host)))"

section \<open>Parse\<close>

record URL =
  u_Scheme :: string
  u_Opaque :: string
  u_Host :: string
  u_Path :: string
  u_RawQuery :: string

fun scheme_loop :: "string \<Rightarrow> string \<Rightarrow> string \<Rightarrow> (string \<times> string) option" where
  "scheme_loop raw acc [] = Some ([], raw)"
| "scheme_loop raw acc (c # cs) =
     (if is_letter c then scheme_loop raw (acc @ [c]) cs
      else if is_digit c \<or> c \<in> set ''+-.'' then
        (if acc = [] then Some ([], raw) else scheme_loop raw (acc @ [c]) cs)
      else if c = CHR '':'' then (if acc = [] then None else Some (acc, cs))
      else Some ([], raw))"

definition getScheme :: "string \<Rightarrow> (string \<times> string) option" where
  "getScheme raw = scheme_loop raw [] raw"

definition ctl_byte :: "char \<Rightarrow> bool" where
  "ctl_byte c = (c < CHR '' '' \<or> c = CHR 0x7F)"

definition split_authority :: "string \<Rightarrow> string \<times> string" where
  "split_authority s =
     (case IndexByte s (CHR ''/'') of Some i \<Rightarrow> (take i s, drop i s) | None \<Rightarrow> (s, []))"

definition set_path :: "URL \<Rightarrow> string \<Rightarrow> URL option" where
  "set_path u p = map_option (\<lambda>path. u\<lparr>u_Path := path\<rparr>) (unescape encodePath p)"

definition parse_rest :: "string \<Rightarrow> string \<Rightarrow> URL option" where
  "parse_rest scheme rest0 =
     (case (if suffix ''?'' rest0 \<and> length (filter (\<lambda>c. c = CHR ''?'') rest0) = 1
            then (butlast rest0, [])
            else (case CutByte rest0 (CHR ''?'') of (a, b, _) \<Rightarrow> (a, b))) of
        (rest, query) \<Rightarrow>
          let u = \<lparr>u_Scheme = scheme, u_Opaque = [], u_Host = [], u_Path = [], u_RawQuery = query\<rparr> in
          if \<not> prefix ''/'' rest \<and> scheme \<noteq> [] then Some (u\<lparr>u_Opaque := rest\<rparr>)
          else if \<not> prefix ''/'' rest \<and> CHR '':'' \<in> set (fst (CutByte rest (CHR ''/''))) then None
          else if (scheme \<noteq> [] \<or> \<not> prefix ''///'' rest) \<and> prefix ''//'' rest then
            (case split_authority (drop 2 rest) of
               (authority, path) \<Rightarrow>
                 (case parseAuthority authority of
                    None \<Rightarrow> None
                  | Some host \<Rightarrow> set_path (u\<lparr>u_Host := host\<rparr>) path))
          else set_path u rest)"

definition parse_url :: "string \<Rightarrow> URL option" where
  "parse_url raw =
     (if list_ex ctl_byte raw then None
      else if raw = ''*'' then
        Some \<lparr>u_Scheme = [], u_Opaque = [], u_Host = [], u_Path = ''*'', u_RawQuery = []\<rparr>
      else case getScheme raw of
        None \<Rightarrow> None
      | Some (scheme, rest) \<Rightarrow> parse_rest (map lower_byte scheme) rest)"

definition Parse :: "string \<Rightarrow> URL option" where
  "Parse raw =
     (case CutByte raw (CHR ''#'') of
        (u, frag, _) \<Rightarrow>
          (case parse_url u of
             None \<Rightarrow> None
           | Some url \<Rightarrow> if unescape encodeFragment frag = None then None else Some url))"

definition splitHost :: "string \<Rightarrow> string" where
  "splitHost hostPort =
     (let host = (case LastIndex hostPort '':'' of
          Some colon \<Rightarrow> if validOptionalPort (drop colon hostPort) then take colon hostPort else hostPort
        | None \<Rightarrow> hostPort)
      in if prefix ''['' host \<and> suffix '']'' host then tl (butlast host) else host)"

definition Hostname :: "URL \<Rightarrow> string" where
  "Hostname u = splitHost (u_Host u)"

section \<open>Ordinary addresses\<close>

definition plain :: "char \<Rightarrow> bool" where
  "plain c = (is_letter c \<or> is_digit c \<or> c \<in> set ''-._'')"

lemma plain_not:
  assumes "plain c"
  shows "c \<noteq> CHR ''/''" "c \<noteq> CHR '':''" "c \<noteq> CHR ''@''" "c \<noteq> CHR ''#''" "c \<noteq> CHR ''?''" "c \<noteq> CHR ''%''"
    "c \<noteq> CHR ''[''" "\<not> ctl_byte c" "host_char c"
  using assms
  by (auto simp: plain_def char_class ctl_byte_def host_char_def less_char_def)

lemma unescape_plain:
  assumes "CHR ''%'' \<notin> set s" and "m \<in> {encodeHost, encodeZone} \<Longrightarrow> list_all host_char s"
  shows "unescape m s = Some s"
  using assms by (induction s) auto

lemma plain_notin:
  assumes "list_all plain h" and "\<not> plain c"
  shows "c \<notin> set h"
  using assms by (auto simp: list_all_iff)

lemma not_plain:
  "\<not> plain (CHR ''/'')" "\<not> plain (CHR '':'')" "\<not> plain (CHR ''@'')" "\<not> plain (CHR ''#'')"
  "\<not> plain (CHR ''?'')" "\<not> plain (CHR ''%'')" "\<not> plain (CHR ''['')" "\<not> plain (CHR '']'')"
  by (simp_all add: plain_def char_class)

text \<open>A port with its colon, or nothing.\<close>

definition port_text :: "string \<Rightarrow> bool" where
  "port_text p = (p = [] \<or> (\<exists>ds. p = CHR '':'' # ds \<and> list_all is_digit ds))"

lemma digit_plain: "is_digit c \<Longrightarrow> plain c"
  by (simp add: plain_def)

lemma port_text_set: "port_text p \<Longrightarrow> c \<in> set p \<Longrightarrow> plain c \<or> c = CHR '':''"
  by (auto simp: port_text_def list_all_iff digit_plain)

lemma last_colon:
  assumes "list_all plain h" and "port_text p"
  shows "LastIndex (h @ p) '':'' = (if p = [] then None else Some (length h))"
proof (cases "p = []")
  case True
  with assms plain_notin [OF assms(1) not_plain(2)] show ?thesis
    by (simp add: LastIndex_no_head)
next
  case False
  with assms(2) obtain ds where ds: "p = CHR '':'' # ds" "list_all is_digit ds"
    by (auto simp: port_text_def)
  then have "CHR '':'' \<notin> set ds" by (auto simp: list_all_iff char_class)
  with ds show ?thesis
    using LastIndex_at [of "'':''" p h] by (simp add: LastIndex_no_head)
qed

lemma validOptionalPort_text: "port_text p \<Longrightarrow> validOptionalPort p"
  by (auto simp: port_text_def validOptionalPort_def)

lemma host_first: "list_all plain h \<Longrightarrow> port_text p \<Longrightarrow> \<not> prefix ''['' (h @ p)"
  by (cases h) (auto simp: port_text_def dest: plain_not(7))

lemma parseHost_plain:
  assumes "list_all plain h" and "port_text p"
  shows "parseHost (h @ p) = Some (h @ p)"
proof -
  have "host_char c" if "c \<in> set (h @ p)" for c
    using that assms(1) port_text_set [OF assms(2), of c] plain_not(9) [of c]
    by (auto simp: list_all_iff) (simp add: host_char_def)
  then have "list_all host_char (h @ p)" by (simp add: list_all_iff)
  moreover have "CHR ''%'' \<notin> set (h @ p)"
    using assms port_text_set not_plain by (fastforce simp: list_all_iff)
  ultimately have "unescape encodeHost (h @ p) = Some (h @ p)" by (intro unescape_plain) auto
  then show ?thesis
    using host_first [OF assms] validOptionalPort_text [OF assms(2)]
    by (auto simp: parseHost_def last_colon [OF assms])
qed

lemma splitHost_plain:
  assumes "list_all plain h" and "port_text p"
  shows "splitHost (h @ p) = h"
  using host_first [OF assms] host_first [OF assms(1), of "[]"] validOptionalPort_text [OF assms(2)]
  by (auto simp: splitHost_def last_colon [OF assms] port_text_def)

lemma parseAuthority_plain:
  assumes "list_all plain h" and "port_text p"
  shows "parseAuthority (h @ p) = Some (h @ p)"
proof -
  have "CHR ''@'' \<notin> set (h @ p)"
    using assms port_text_set not_plain by (fastforce simp: list_all_iff)
  then show ?thesis
    by (simp add: parseAuthority_def LastIndex_no_head parseHost_plain [OF assms])
qed

text \<open>
  Scheme, host, optional port, and a path of plain bytes and slashes: \<^const>\<open>Parse\<close> finds the parts.
\<close>

definition path_text :: "string \<Rightarrow> bool" where
  "path_text p = (p = [] \<or> (\<exists>q. p = CHR ''/'' # q \<and> list_all (\<lambda>c. plain c \<or> c = CHR ''/'') q))"

lemma path_text_set: "path_text p \<Longrightarrow> c \<in> set p \<Longrightarrow> plain c \<or> c = CHR ''/''"
  by (auto simp: path_text_def list_all_iff)

lemma split_authority_plain:
  assumes "list_all plain h" "port_text p" "path_text q"
  shows "split_authority ((h @ p) @ q) = (h @ p, q)"
proof -
  have no: "CHR ''/'' \<notin> set (h @ p)"
    using assms port_text_set not_plain by (fastforce simp: list_all_iff)
  show ?thesis
  proof (cases "q = []")
    case True
    moreover have "IndexByte (h @ p) (CHR ''/'') = None" by (simp only: IndexByte_None no not_False_eq_True)
    ultimately show ?thesis by (simp add: split_authority_def)
  next
    case False
    with assms(3) obtain q' where q: "q = CHR ''/'' # q'" by (auto simp: path_text_def)
    have "IndexByte ((h @ p) @ q) (CHR ''/'') = Some (length (h @ p))"
      unfolding q by (rule IndexByte_append [OF no])
    then show ?thesis by (simp add: split_authority_def)
  qed
qed

lemma Parse_plain:
  assumes "list_all plain h" "port_text p" "path_text q" and "scheme \<in> {''http'', ''https''}"
  shows "Parse (scheme @ ''://'' @ h @ p @ q) =
    Some \<lparr>u_Scheme = scheme, u_Opaque = [], u_Host = h @ p, u_Path = q, u_RawQuery = []\<rparr>"
proof -
  let ?rest = "''//'' @ (h @ p) @ q"
  let ?raw = "scheme @ CHR '':'' # ?rest"
  have cs: "plain c \<or> c = CHR '':'' \<or> c = CHR ''/''" if "c \<in> set ?raw" for c
  proof -
    have "list_all plain scheme"
      using assms(4) by (elim insertE emptyE) (simp_all add: plain_def char_class)
    moreover have "c \<in> set scheme \<or> c = CHR '':'' \<or> c = CHR ''/'' \<or> c \<in> set h \<or> c \<in> set p \<or> c \<in> set q"
      using that by auto
    ultimately show ?thesis
      using assms(1) port_text_set [OF assms(2)] path_text_set [OF assms(3)] unfolding list_all_iff by blast
  qed
  have no: "CHR ''#'' \<notin> set ?raw" "CHR ''?'' \<notin> set ?raw" "CHR ''%'' \<notin> set ?raw"
    using cs not_plain by (blast dest: cs)+
  have "\<not> list_ex ctl_byte ?raw"
  proof
    assume "list_ex ctl_byte ?raw"
    then obtain c where "c \<in> set ?raw" "ctl_byte c" unfolding list_ex_iff by blast
    with cs [of c] plain_not(8) [of c] show False by (auto simp: ctl_byte_def less_char_def)
  qed
  moreover have "getScheme ?raw = Some (scheme, ?rest)"
    using assms(4) by (auto simp: getScheme_def char_class)
  moreover have "map lower_byte scheme = scheme" "scheme \<noteq> []"
    using assms(4) by (auto simp: lower_byte_def char_class)
  moreover have "parse_rest scheme ?rest =
      Some \<lparr>u_Scheme = scheme, u_Opaque = [], u_Host = h @ p, u_Path = q, u_RawQuery = []\<rparr>"
  proof -
    have "\<not> suffix ''?'' ?rest" using no(2) set_mono_suffix [of "''?''" ?rest] by auto
    moreover have "CutByte ?rest (CHR ''?'') = (?rest, [], False)"
      using no(2) by (intro CutByte_absent) auto
    moreover have "unescape encodePath q = Some q"
      using no(3) by (intro unescape_plain) auto
    moreover have "split_authority (drop 2 ?rest) = (h @ p, q)"
      using split_authority_plain [OF assms(1-3)] by simp
    ultimately show ?thesis
      using parseAuthority_plain [OF assms(1,2)] \<open>scheme \<noteq> []\<close>
      by (simp add: parse_rest_def set_path_def Let_def)
  qed
  moreover have "?raw \<noteq> ''*''" using assms(4) by auto
  ultimately have "parse_url ?raw =
      Some \<lparr>u_Scheme = scheme, u_Opaque = [], u_Host = h @ p, u_Path = q, u_RawQuery = []\<rparr>"
    by (simp add: parse_url_def)
  then show ?thesis
    using CutByte_absent [OF no(1)] by (simp add: Parse_def)
qed

lemma Hostname_plain:
  assumes "list_all plain h" "port_text p"
  shows "Hostname \<lparr>u_Scheme = s, u_Opaque = o', u_Host = h @ p, u_Path = q, u_RawQuery = r\<rparr> = h"
  by (simp add: Hostname_def splitHost_plain [OF assms])

end
