(* ===== verification/Ocee_Webhook.thy ===== *)
theory Ocee_Webhook
  imports Ocee_Url "HOL-Library.Word"
begin

text \<open>
  Webhook addresses and their delivery: package \<^verbatim>\<open>webhook\<close> (\<^verbatim>\<open>src/internal/webhook/webhook.go\<close>) with the
  address tests of \<^verbatim>\<open>net.IP\<close>. The resolver (\<^verbatim>\<open>net.LookupIP\<close>), the JSON encoder and the exchange of one
  HTTP request are arguments. Shown: which addresses count as internal, as a list of address
  blocks; what an accepted address guarantees; and that a delivery sends at most one request, to the
  address it was given, and succeeds exactly on a 2xx answer.
\<close>

unbundle bit_operations_syntax

section \<open>Addresses\<close>

type_synonym IP = "8 word list"

definition To4 :: "IP \<Rightarrow> IP option" where
  "To4 ip =
     (if length ip = 4 then Some ip
      else if length ip = 16 \<and> take 10 ip = replicate 10 0 \<and> ip ! 10 = 0xFF \<and> ip ! 11 = 0xFF
      then Some (drop 12 ip) else None)"

definition v4InV6Prefix :: IP where
  "v4InV6Prefix = replicate 10 0 @ [0xFF, 0xFF]"

definition ip_Equal :: "IP \<Rightarrow> IP \<Rightarrow> bool" where
  "ip_Equal ip x =
     (if length ip = length x then ip = x
      else if length ip = 4 \<and> length x = 16 then take 12 x = v4InV6Prefix \<and> ip = drop 12 x
      else if length ip = 16 \<and> length x = 4 then take 12 ip = v4InV6Prefix \<and> drop 12 ip = x
      else False)"

definition IPv4zero :: IP where
  "IPv4zero = v4InV6Prefix @ [0, 0, 0, 0]"

definition IPv6unspecified :: IP where
  "IPv6unspecified = replicate 16 0"

definition IPv6loopback :: IP where
  "IPv6loopback = replicate 15 0 @ [1]"

definition IsUnspecified :: "IP \<Rightarrow> bool" where
  "IsUnspecified ip = (ip_Equal ip IPv4zero \<or> ip_Equal ip IPv6unspecified)"

definition IsLoopback :: "IP \<Rightarrow> bool" where
  "IsLoopback ip =
     (case To4 ip of Some ip4 \<Rightarrow> ip4 ! 0 = 127 | None \<Rightarrow> ip_Equal ip IPv6loopback)"

definition IsPrivate :: "IP \<Rightarrow> bool" where
  "IsPrivate ip =
     (case To4 ip of
        Some ip4 \<Rightarrow>
          ip4 ! 0 = 10 \<or> (ip4 ! 0 = 172 \<and> ip4 ! 1 AND 0xF0 = 16) \<or> (ip4 ! 0 = 192 \<and> ip4 ! 1 = 168)
      | None \<Rightarrow> length ip = 16 \<and> ip ! 0 AND 0xFE = 0xFC)"

definition IsLinkLocalUnicast :: "IP \<Rightarrow> bool" where
  "IsLinkLocalUnicast ip =
     (case To4 ip of
        Some ip4 \<Rightarrow> ip4 ! 0 = 169 \<and> ip4 ! 1 = 254
      | None \<Rightarrow> length ip = 16 \<and> ip ! 0 = 0xFE \<and> ip ! 1 AND 0xC0 = 0x80)"

definition IsLinkLocalMulticast :: "IP \<Rightarrow> bool" where
  "IsLinkLocalMulticast ip =
     (case To4 ip of
        Some ip4 \<Rightarrow> ip4 ! 0 = 224 \<and> ip4 ! 1 = 0 \<and> ip4 ! 2 = 0
      | None \<Rightarrow> length ip = 16 \<and> ip ! 0 = 0xFF \<and> ip ! 1 AND 0x0F = 0x02)"

definition isInternal :: "IP \<Rightarrow> bool" where
  "isInternal ip =
     (if IsLoopback ip \<or> IsPrivate ip \<or> IsLinkLocalUnicast ip \<or> IsLinkLocalMulticast ip \<or> IsUnspecified ip
      then True
      else (case To4 ip of
          Some ip4 \<Rightarrow> ip4 ! 0 = 100 \<and> ip4 ! 1 AND 0xC0 = 64
        | None \<Rightarrow> False))"

section \<open>Validate\<close>

text \<open>
  \<^verbatim>\<open>strings.EqualFold\<close> with an ASCII text: letters match in either case, and the two non-ASCII characters
  that fold to an ASCII letter, U+017F and U+212A, match \<open>s\<close> and \<open>k\<close>.
\<close>

fun EqualFold :: "string \<Rightarrow> string \<Rightarrow> bool" where
  "EqualFold s [] = (s = [])"
| "EqualFold s (d # t) =
     (case s of
        [] \<Rightarrow> False
      | c # s' \<Rightarrow>
          if lower_byte c = lower_byte d then EqualFold s' t
          else if lower_byte d = CHR ''s'' \<and> prefix [CHR 0xC5, CHR 0xBF] s then EqualFold (drop 2 s) t
          else if lower_byte d = CHR ''k'' \<and> prefix [CHR 0xE2, CHR 0x84, CHR 0xAA] s
          then EqualFold (drop 3 s) t
          else False)"

definition Validate :: "(string \<Rightarrow> IP list option) \<Rightarrow> string \<Rightarrow> bool \<Rightarrow> string option" where
  "Validate lookupIP rawURL allowPrivate =
     (case Parse rawURL of
        None \<Rightarrow> Some ''webhook_url is not a valid URL''
      | Some u \<Rightarrow>
          if u_Scheme u \<noteq> ''http'' \<and> u_Scheme u \<noteq> ''https''
          then Some ''webhook_url must use http or https''
          else
            let host = Hostname u in
            if host = [] then Some ''webhook_url is missing a host''
            else if allowPrivate then None
            else (case lookupIP host of
                None \<Rightarrow>
                  if EqualFold host ''localhost'' then Some ''webhook_url may not target localhost''
                  else None
              | Some ips \<Rightarrow>
                  if list_ex isInternal ips
                  then Some ''webhook_url may not target a private or loopback address''
                  else None))"

section \<open>Deliver\<close>

record request =
  rq_Method :: string
  rq_URL :: string
  rq_Body :: string
  rq_Headers :: "(string \<times> string) list"

record response =
  rs_StatusCode :: int
  rs_Status :: string
  rs_Location :: "string option"

text \<open>
  The client. \<open>CheckRedirect\<close> is called before a redirect is followed; \<open>UseLastResponse\<close> is the answer
  \<^verbatim>\<open>http.ErrUseLastResponse\<close>, which makes \<open>Do\<close> return the redirecting response itself.
\<close>

datatype redirect_answer = Follow | UseLastResponse

record Client =
  c_Timeout :: duration
  c_CheckRedirect :: redirect_answer

definition New :: "duration \<Rightarrow> Client" where
  "New timeout = \<lparr>c_Timeout = timeout, c_CheckRedirect = UseLastResponse\<rparr>"

definition is_redirect :: "response \<Rightarrow> bool" where
  "is_redirect r = (rs_StatusCode r \<in> {301, 302, 303, 307, 308} \<and> rs_Location r \<noteq> None)"

text \<open>
  \<^verbatim>\<open>Client.Do\<close>: the requests sent and the final result. \<open>send\<close> is one exchange under the timeout, with
  the location of a redirect already made absolute; at most ten requests are made. A followed redirect
  keeps the method and the body only for the statuses 307 and 308.
\<close>

definition redirected :: "request \<Rightarrow> response \<Rightarrow> request" where
  "redirected rq r =
     (let rq' = rq\<lparr>rq_URL := the (rs_Location r)\<rparr> in
      if rs_StatusCode r \<in> {307, 308} then rq' else rq'\<lparr>rq_Method := ''GET'', rq_Body := []\<rparr>)"

fun Do :: "nat \<Rightarrow> Client \<Rightarrow> (request \<Rightarrow> string + response) \<Rightarrow> request \<Rightarrow>
    request list \<times> (string + response)" where
  "Do 0 c send rq = ([], Inl ''stopped after 10 redirects'')"
| "Do (Suc n) c send rq =
     (case send rq of
        Inl e \<Rightarrow> ([rq], Inl e)
      | Inr r \<Rightarrow>
          if is_redirect r \<and> c_CheckRedirect c = Follow then
            (case Do n c send (redirected rq r) of (rqs, res) \<Rightarrow> (rq # rqs, res))
          else ([rq], Inr r))"

text \<open>The text of the error of \<^verbatim>\<open>http.NewRequestWithContext\<close> is left out of the message.\<close>

definition Deliver ::
  "Client \<Rightarrow> (request \<Rightarrow> string + response) \<Rightarrow> string \<Rightarrow> string + string \<Rightarrow>
   request list \<times> string option" where
  "Deliver c send rawURL body =
     (case body of
        Inl e \<Rightarrow> ([], Some (''marshal webhook body: '' @ e))
      | Inr b \<Rightarrow>
          if Parse rawURL = None then ([], Some ''build webhook request'')
          else
            let rq = \<lparr>rq_Method = ''POST'', rq_URL = rawURL, rq_Body = b,
                  rq_Headers = [(''Content-Type'', ''application/json''),
                                (''User-Agent'', ''ocee-webhook/1'')]\<rparr>
            in (case Do 10 c send rq of
                  (rqs, Inl e) \<Rightarrow> (rqs, Some (''post webhook: '' @ e))
                | (rqs, Inr r) \<Rightarrow>
                    if quot (rs_StatusCode r) 100 = 2 then (rqs, None)
                    else (rqs, Some (''webhook returned '' @ rs_Status r))))"

section \<open>Internal addresses as blocks\<close>

definition v4_number :: "8 word \<Rightarrow> 8 word \<Rightarrow> 8 word \<Rightarrow> 8 word \<Rightarrow> nat" where
  "v4_number a b c d = ((unat a * 256 + unat b) * 256 + unat c) * 256 + unat d"

text \<open>The blocks as in \<^verbatim>\<open>127.0.0.0/8\<close>: the first address and the number of leading bits.\<close>

definition internal_blocks :: "(nat \<times> nat) list" where
  "internal_blocks =
     [(v4_number 127 0 0 0, 8), (v4_number 10 0 0 0, 8), (v4_number 172 16 0 0, 12),
      (v4_number 192 168 0 0, 16), (v4_number 169 254 0 0, 16), (v4_number 224 0 0 0, 24),
      (v4_number 0 0 0 0, 32), (v4_number 100 64 0 0, 10)]"

definition in_block :: "nat \<Rightarrow> nat \<times> nat \<Rightarrow> bool" where
  "in_block n blk = (n div 2 ^ (32 - snd blk) = fst blk div 2 ^ (32 - snd blk))"

lemma byte_lt: "unat (b :: 8 word) < 256"
  by (rule order_less_le_trans [OF unsigned_less]) simp

lemma byte_cases:
  obtains n where "n < 256" "(b :: 8 word) = word_of_nat n" "unat b = n"
  using that [of "unat b"] byte_lt [of b] by simp

lemma byte_masks:
  "(b :: 8 word) AND 0xF0 = 16 \<longleftrightarrow> unat b div 16 = 1"
  "(b :: 8 word) AND 0xC0 = 64 \<longleftrightarrow> unat b div 64 = 1"
proof -
  have "\<forall>n\<in>set [0..<256]. ((word_of_nat n :: 8 word) AND 0xF0 = 16) = (n div 16 = 1)"
    "\<forall>n\<in>set [0..<256]. ((word_of_nat n :: 8 word) AND 0xC0 = 64) = (n div 64 = 1)"
    by code_simp+
  then show "(b :: 8 word) AND 0xF0 = 16 \<longleftrightarrow> unat b div 16 = 1"
    "(b :: 8 word) AND 0xC0 = 64 \<longleftrightarrow> unat b div 64 = 1"
    by (cases rule: byte_cases [of b]; simp)+
qed

lemma byte_eq: "(b :: 8 word) = numeral k \<longleftrightarrow> unat b = unat (numeral k :: 8 word)" "(b :: 8 word) = 0 \<longleftrightarrow> unat b = 0"
  by (simp_all add: word_unat_eq_iff)

lemma v4_number_div:
  fixes a b c d :: "8 word"
  defines "n \<equiv> v4_number a b c d"
  shows "n div 16777216 = unat a" "n div 65536 = unat a * 256 + unat b"
    "n div 256 = (unat a * 256 + unat b) * 256 + unat c"
    "n div 1048576 = unat a * 16 + unat b div 16" "n div 4194304 = unat a * 4 + unat b div 64"
proof -
  note lt = byte_lt
  have n: "n = unat a * 16777216 + unat b * 65536 + unat c * 256 + unat d"
    by (simp add: n_def v4_number_def)
  show "n div 16777216 = unat a" "n div 65536 = unat a * 256 + unat b"
    "n div 256 = (unat a * 256 + unat b) * 256 + unat c"
    using lt [of b] lt [of c] lt [of d] unfolding n by (intro div_nat_eqI; simp)+
  obtain q where q: "q = unat b div 16" "16 * q \<le> unat b" "unat b < 16 * q + 16" by simp
  show "n div 1048576 = unat a * 16 + unat b div 16"
    unfolding q(1) [symmetric] n using q(2,3) lt [of c] lt [of d] by (intro div_nat_eqI) simp_all
  obtain p where p: "p = unat b div 64" "64 * p \<le> unat b" "unat b < 64 * p + 64" by simp
  show "n div 4194304 = unat a * 4 + unat b div 64"
    unfolding p(1) [symmetric] n using p(2,3) lt [of c] lt [of d] by (intro div_nat_eqI) simp_all
qed

lemma digits_eq:
  fixes x y m k n :: nat
  assumes "y < n" "k < n"
  shows "x * n + y = m * n + k \<longleftrightarrow> x = m \<and> y = k"
proof
  assume eq: "x * n + y = m * n + k"
  have "(x * n + y) div n = x" "(m * n + k) div n = m" using assms by simp_all
  with eq show "x = m \<and> y = k" by auto
qed auto

lemma To4_v4: "To4 [a, b, c, d] = Some [a, b, c, d]" "To4 (v4InV6Prefix @ [a, b, c, d]) = Some [a, b, c, d]"
  by (simp_all add: To4_def v4InV6Prefix_def eval_nat_numeral)

lemma IsUnspecified_v4:
  "IsUnspecified [a, b, c, d] \<longleftrightarrow> a = 0 \<and> b = 0 \<and> c = 0 \<and> d = 0"
  "IsUnspecified (v4InV6Prefix @ [a, b, c, d]) \<longleftrightarrow> a = 0 \<and> b = 0 \<and> c = 0 \<and> d = 0"
  by (auto simp: IsUnspecified_def ip_Equal_def IPv4zero_def IPv6unspecified_def v4InV6Prefix_def
      eval_nat_numeral)

lemma isInternal_To4:
  assumes "To4 ip = Some [a, b, c, d]" and "IsUnspecified ip \<longleftrightarrow> a = 0 \<and> b = 0 \<and> c = 0 \<and> d = 0"
  shows "isInternal ip \<longleftrightarrow>
    unat a = 127 \<or> unat a = 10 \<or> (unat a = 172 \<and> unat b div 16 = 1) \<or> (unat a = 192 \<and> unat b = 168) \<or>
    (unat a = 169 \<and> unat b = 254) \<or> (unat a = 224 \<and> unat b = 0 \<and> unat c = 0) \<or>
    (unat a = 0 \<and> unat b = 0 \<and> unat c = 0 \<and> unat d = 0) \<or> (unat a = 100 \<and> unat b div 64 = 1)"
proof -
  have "IsLoopback ip \<longleftrightarrow> unat a = 127"
    "IsPrivate ip \<longleftrightarrow> unat a = 10 \<or> (unat a = 172 \<and> unat b div 16 = 1) \<or> (unat a = 192 \<and> unat b = 168)"
    "IsLinkLocalUnicast ip \<longleftrightarrow> unat a = 169 \<and> unat b = 254"
    "IsLinkLocalMulticast ip \<longleftrightarrow> unat a = 224 \<and> unat b = 0 \<and> unat c = 0"
    "IsUnspecified ip \<longleftrightarrow> unat a = 0 \<and> unat b = 0 \<and> unat c = 0 \<and> unat d = 0"
    by (simp_all add: assms IsLoopback_def IsPrivate_def IsLinkLocalUnicast_def
        IsLinkLocalMulticast_def byte_masks) (simp_all add: byte_eq)
  moreover have "(case To4 ip of Some ip4 \<Rightarrow> ip4 ! 0 = 100 \<and> ip4 ! 1 AND 0xC0 = 64 | None \<Rightarrow> False) \<longleftrightarrow>
      unat a = 100 \<and> unat b div 64 = 1"
    by (simp add: assms byte_masks) (simp add: byte_eq)
  ultimately show ?thesis unfolding isInternal_def by argo
qed

lemma in_internal_blocks:
  "list_ex (in_block (v4_number a b c d)) internal_blocks \<longleftrightarrow>
    unat a = 127 \<or> unat a = 10 \<or> (unat a = 172 \<and> unat b div 16 = 1) \<or> (unat a = 192 \<and> unat b = 168) \<or>
    (unat a = 169 \<and> unat b = 254) \<or> (unat a = 224 \<and> unat b = 0 \<and> unat c = 0) \<or>
    (unat a = 0 \<and> unat b = 0 \<and> unat c = 0 \<and> unat d = 0) \<or> (unat a = 100 \<and> unat b div 64 = 1)"
proof -
  let ?n = "v4_number a b c d"
  have k: "unat b div 16 < 16" "unat b div 64 < 4" using byte_lt [of b] by auto
  have "in_block ?n (v4_number 127 0 0 0, 8) \<longleftrightarrow> unat a = 127"
    "in_block ?n (v4_number 10 0 0 0, 8) \<longleftrightarrow> unat a = 10"
    by (simp_all add: in_block_def v4_number_div)
  moreover have "in_block ?n (v4_number 172 16 0 0, 12) \<longleftrightarrow> unat a = 172 \<and> unat b div 16 = 1"
    "in_block ?n (v4_number 100 64 0 0, 10) \<longleftrightarrow> unat a = 100 \<and> unat b div 64 = 1"
    using k digits_eq [of "unat b div 16" 16 1 "unat a" 172] digits_eq [of "unat b div 64" 4 1 "unat a" 100]
    by (simp_all add: in_block_def v4_number_div)
  moreover have "in_block ?n (v4_number 192 168 0 0, 16) \<longleftrightarrow> unat a = 192 \<and> unat b = 168"
    "in_block ?n (v4_number 169 254 0 0, 16) \<longleftrightarrow> unat a = 169 \<and> unat b = 254"
    using digits_eq [OF byte_lt, of 168 "unat a" b 192] digits_eq [OF byte_lt, of 254 "unat a" b 169]
    by (simp_all add: in_block_def v4_number_div)
  moreover have "in_block ?n (v4_number 224 0 0 0, 24) \<longleftrightarrow> unat a = 224 \<and> unat b = 0 \<and> unat c = 0"
    using digits_eq [OF byte_lt, of 0 "unat a * 256 + unat b" c "224 * 256"] digits_eq [OF byte_lt, of 0 "unat a" b 224]
    by (simp add: in_block_def v4_number_div)
  moreover have "in_block ?n (v4_number 0 0 0 0, 32) \<longleftrightarrow> unat a = 0 \<and> unat b = 0 \<and> unat c = 0 \<and> unat d = 0"
    by (simp add: in_block_def v4_number_def)
  ultimately show ?thesis by (simp add: internal_blocks_def)
qed

section \<open>Properties\<close>

text \<open>
  C27. An IPv4 address counts as internal exactly when it lies in one of the loopback, private,
  link-local, carrier NAT or local multicast blocks or is 0.0.0.0, and writing it as an IPv4-mapped
  IPv6 address makes no difference.
\<close>

theorem isInternal_v4:
  "isInternal [a, b, c, d] = list_ex (in_block (v4_number a b c d)) internal_blocks \<and>
   isInternal (v4InV6Prefix @ [a, b, c, d]) = isInternal [a, b, c, d]"
  unfolding in_internal_blocks isInternal_To4 [OF To4_v4(1) IsUnspecified_v4(1)]
    isInternal_To4 [OF To4_v4(2) IsUnspecified_v4(2)] by simp

text \<open>
  C28. An ordinary address (scheme, host name, optional port, path) whose host resolves to IPv4 addresses
  is accepted exactly when none of them lies in an internal block: the name that is looked up is the
  host of the address, not its port or path.
\<close>

theorem Validate_resolved:
  assumes "list_all plain h" "h \<noteq> []" "port_text p" "path_text q" and "scheme \<in> {''http'', ''https''}"
    and "lookupIP h = Some (map (\<lambda>(a, b, c, d). [a, b, c, d]) addrs)"
  shows "Validate lookupIP (scheme @ ''://'' @ h @ p @ q) False = None \<longleftrightarrow>
    (\<forall>(a, b, c, d)\<in>set addrs. \<not> list_ex (in_block (v4_number a b c d)) internal_blocks)"
proof -
  have "list_ex isInternal (map (\<lambda>(a, b, c, d). [a, b, c, d]) addrs) \<longleftrightarrow>
      (\<exists>(a, b, c, d)\<in>set addrs. list_ex (in_block (v4_number a b c d)) internal_blocks)"
    using isInternal_To4 [OF To4_v4(1) IsUnspecified_v4(1)] in_internal_blocks
    by (simp add: list_ex_iff case_prod_unfold)
  moreover have "\<not> (scheme \<noteq> ''http'' \<and> scheme \<noteq> ''https'')" using assms(5) by simp
  ultimately show ?thesis
    unfolding Validate_def Parse_plain [OF assms(1,3,4,5)] option.case Let_def
      Hostname_plain [OF assms(1,3)]
    using assms(2,6) by (simp add: case_prod_unfold)
qed

theorem Validate_resolved_witness:
  "Validate (\<lambda>_. Some [[93, 184, 216, 34]]) (''https'' @ ''://'' @ ''example.com'' @ '':8443'' @ ''/hook'') False = None \<and>
   Validate (\<lambda>_. Some [[172, 16, 4, 4]]) (''http'' @ ''://'' @ ''intra'' @ [] @ []) False \<noteq> None"
proof -
  have texts: "list_all plain ''example.com''" "list_all plain ''intra''" "port_text '':8443''" "port_text []"
    "path_text ''/hook''" "path_text []"
    by (simp_all add: plain_def char_class port_text_def path_text_def)
  have "Validate (\<lambda>_. Some [[93, 184, 216, 34]]) (''https'' @ ''://'' @ ''example.com'' @ '':8443'' @ ''/hook'') False = None"
    using Validate_resolved [OF texts(1) _ texts(3,5), of "''https''" "\<lambda>_. Some [[93, 184, 216, 34]]" "[(93, 184, 216, 34)]"]
    by (simp add: internal_blocks_def in_block_def v4_number_def)
  moreover have "Validate (\<lambda>_. Some [[172, 16, 4, 4]]) (''http'' @ ''://'' @ ''intra'' @ [] @ []) False \<noteq> None"
    using Validate_resolved [OF texts(2) _ texts(4,6), of "''http''" "\<lambda>_. Some [[172, 16, 4, 4]]" "[(172, 16, 4, 4)]"]
    by (simp add: internal_blocks_def in_block_def v4_number_def)
  ultimately show ?thesis by blast
qed

text \<open>
  Allowing private targets relaxes the address check only: every address that is refused then is
  refused with the same message without the permission, whatever the resolver says, and every
  accepted address has the scheme http or https and a host.
\<close>

theorem Validate_allowPrivate:
  "(case Validate lookupIP rawURL True of
      Some e \<Rightarrow> Validate lookupIP' rawURL False = Some e
    | None \<Rightarrow> \<exists>u. Parse rawURL = Some u \<and> u_Scheme u \<in> {''http'', ''https''} \<and> Hostname u \<noteq> [])"
  by (auto simp: Validate_def Let_def split: option.splits)

lemma Do_no_redirect:
  "Do (Suc n) (New timeout) send rq = ([rq], send rq)"
  by (auto simp: New_def split: sum.splits)

lemma quot_hundred: "quot c 100 = 2 \<longleftrightarrow> 200 \<le> c \<and> c < 300"
proof (cases "0 \<le> c")
  case True
  then show ?thesis by (simp add: quot_nonneg) linarith
next
  case False
  then have "quot c 100 \<le> 0" by (simp add: quot_def)
  with False show ?thesis by auto
qed

lemma Deliver_spec:
  assumes "Deliver (New timeout) send rawURL body = (rqs, err)"
  shows "length rqs \<le> 1"
    and "\<forall>rq\<in>set rqs. rq_URL rq = rawURL \<and> rq_Method rq = ''POST'' \<and> body = Inr (rq_Body rq)"
    and "err = None \<longleftrightarrow> (\<exists>rq r. rqs = [rq] \<and> send rq = Inr r \<and> 200 \<le> rs_StatusCode r \<and> rs_StatusCode r < 300)"
  using assms
  by (auto simp: Deliver_def Do_no_redirect [of 9, simplified] quot_hundred Let_def
      split: sum.splits if_splits)

text \<open>
  A delivery sends at most one request, a POST of the given body to the given address: a redirect
  is not followed. It succeeds exactly if the request is answered with a status from 200 to 299.
\<close>

theorem Deliver_once:
  "\<exists>rqs err. Deliver (New timeout) send rawURL body = (rqs, err) \<and> length rqs \<le> 1 \<and>
    (\<forall>rq\<in>set rqs. rq_URL rq = rawURL \<and> rq_Method rq = ''POST'' \<and> body = Inr (rq_Body rq)) \<and>
    (err = None \<longleftrightarrow> (\<exists>rq r. rqs = [rq] \<and> send rq = Inr r \<and> 200 \<le> rs_StatusCode r \<and> rs_StatusCode r < 300))"
  using Deliver_spec [of timeout send rawURL body]
  by (cases "Deliver (New timeout) send rawURL body") simp

theorem Deliver_once_witness:
  "\<exists>rqs err. Deliver (New second) (\<lambda>_. Inr \<lparr>rs_StatusCode = 302, rs_Status = ''302 Found'',
      rs_Location = Some ''http://10.0.0.1/''\<rparr>) ''https://example.com/hook'' (Inr ''{}'') = (rqs, err) \<and>
    length rqs \<le> 1 \<and> err \<noteq> None"
  using Deliver_once [of second "\<lambda>_. Inr \<lparr>rs_StatusCode = 302, rs_Status = ''302 Found'',
      rs_Location = Some ''http://10.0.0.1/''\<rparr>" "''https://example.com/hook''" "Inr ''{}''"]
  by auto

end
