(* ===== verification/Ocee_World.thy ===== *)
theory Ocee_World
  imports Ocee_Executor Ocee_Queue Ocee_Webhook
begin

text \<open>
  What the API and the worker share: the state both act on (\<open>world\<close>: the submissions table, the tasks
  that were put into the queue, the executor's caches, and the calls made so far), the JSON
  values they exchange with clients, and the third-party encodings they use (\<open>codec\<close>).
\<close>

section \<open>Encodings\<close>

datatype json =
  JNull
| JBool bool
| JInt int
| JString string
| JTime time
| JUuid uuid
| JList "json list"
| JObject "(string \<times> json) list"

definition jopt :: "('a \<Rightarrow> json) \<Rightarrow> 'a option \<Rightarrow> json" where
  "jopt f x = (case x of None \<Rightarrow> JNull | Some v \<Rightarrow> f v)"

text \<open>
  The text form of a UUID is that of a third-party package, and with it the JSON texts that hold
  one. \<open>cd_json\<close> is the encoder for responses and webhook bodies.
\<close>

record codec =
  cd_marshal_exec :: "ExecutePayload \<Rightarrow> string + string"
  cd_unmarshal_exec :: "string \<Rightarrow> string + ExecutePayload"
  cd_marshal_hook :: "WebhookPayload \<Rightarrow> string + string"
  cd_unmarshal_hook :: "string \<Rightarrow> string + WebhookPayload"
  cd_uuid_String :: "uuid \<Rightarrow> string"
  cd_uuid_Parse :: "string \<Rightarrow> uuid option"
  cd_json :: "json \<Rightarrow> string + string"

section \<open>The state\<close>

record world =
  w_table :: table
  w_tasks :: "task list"
  w_exec :: Executor
  w_calls :: "docker_call list"
  w_requests :: "request list"

text \<open>
  \<^verbatim>\<open>asynq.Client.EnqueueContext\<close>: the task is stored or not, and the caller may see an error although it
  was stored.
\<close>

definition EnqueueContext :: "db_reply \<Rightarrow> task \<Rightarrow> world \<Rightarrow> world \<times> string option" where
  "EnqueueContext rp t w =
     (case rp of
        Answered \<Rightarrow> (w\<lparr>w_tasks := w_tasks w @ [t]\<rparr>, None)
      | Refused e \<Rightarrow> (w, Some e)
      | ReplyLost e \<Rightarrow> (w\<lparr>w_tasks := w_tasks w @ [t]\<rparr>, Some e))"

definition db_message :: "db_error \<Rightarrow> string" where
  "db_message e = (case e of ErrNoRows \<Rightarrow> ''no rows in result set'' | DbError m \<Rightarrow> m)"

end
