(* ===== verification/Ocee_Worker.thy ===== *)
theory Ocee_Worker
  imports Ocee_World
begin

text \<open>
  The handlers of the queue's tasks: package \<^verbatim>\<open>worker\<close> (\<^verbatim>\<open>src/internal/worker/worker.go\<close>). One call of
  a handler gets an \<open>attempt\<close>: how the database, the queue and the Docker daemon behave during that
  call, and the retry counters of the task. Its result says what the queue does next: the task is
  done, it is retried, or it is dropped without a retry (an error that wraps \<open>asynq.SkipRetry\<close>; the text is
  what stands before that error's own).
  Shown: a finished submission is never touched or run again; the result of a run is stored column by
  column; engine failures are retried until the last attempt, which settles the submission; handlers
  write only the row of their task; and the cases in which a row is left unsettled.
\<close>

section \<open>Handlers\<close>

datatype handler_result = Finished | Retry string | SkipRetry string

record attempt =
  at_get :: db_env
  at_mark :: db_env
  at_complete :: db_env
  at_fail :: db_env
  at_enqueue :: db_reply
  at_docker :: docker
  at_count :: "int option"
  at_limit :: "int option"

definition isFinalAttempt :: "attempt \<Rightarrow> bool" where
  "isFinalAttempt a =
     (case at_count a of None \<Rightarrow> True | Some c \<Rightarrow>
     (case at_limit a of None \<Rightarrow> True | Some l \<Rightarrow> c \<ge> l))"

definition nilIfEmpty :: "string \<Rightarrow> string option" where
  "nilIfEmpty s = (if s = [] then None else Some s)"

definition fail :: "db_env \<Rightarrow> uuid \<Rightarrow> string \<Rightarrow> world \<Rightarrow> world" where
  "fail de i msg w =
     w\<lparr>w_table := fst (FailSubmission de \<lparr>fs_ID = i, fs_Error = Some msg\<rparr> (w_table w))\<rparr>"

definition enqueueWebhook :: "codec \<Rightarrow> Config \<Rightarrow> db_reply \<Rightarrow> Submission \<Rightarrow> world \<Rightarrow> world" where
  "enqueueWebhook cd cfg rp sub w =
     (case sub_WebhookUrl sub of
        None \<Rightarrow> w
      | Some url \<Rightarrow>
          if url = [] then w
          else (case NewWebhookTask (cd_marshal_hook cd) (sub_ID sub) url (WebhookMaxRetries cfg) of
              Inl e \<Rightarrow> w
            | Inr t \<Rightarrow> fst (EnqueueContext rp t w)))"

definition complete_params :: "uuid \<Rightarrow> Outcome \<Rightarrow> CompleteSubmissionParams" where
  "complete_params i out =
     \<lparr>cs_ID = i, cs_Stdout = Some (out_Stdout out), cs_Stderr = Some (out_Stderr out),
      cs_ExitCode = Some (out_ExitCode out), cs_CompileOutput = nilIfEmpty (out_CompileOutput out),
      cs_CpuTimeMs = Some (out_CPUTimeMS out), cs_WallTimeMs = Some (out_WallTimeMS out),
      cs_MemoryKb = Some (out_MemoryKB out), cs_TimedOut = out_TimedOut out,
      cs_OomKilled = out_OOMKilled out\<rparr>"

text \<open>The part of \<open>handleExecute\<close> from the call of \<open>Execute\<close> on.\<close>

definition run_and_store ::
  "codec \<Rightarrow> string \<Rightarrow> Config \<Rightarrow> attempt \<Rightarrow> uuid \<Rightarrow> Spec \<Rightarrow> Submission \<Rightarrow> world \<Rightarrow> world \<times> handler_result" where
  "run_and_store cd script cfg a i spec sub w =
     (case Execute script cfg (at_docker a) spec (sub_Code sub) (sub_Stdin sub) (w_exec w) of
        (ex, calls, res) \<Rightarrow>
          let w1 = w\<lparr>w_exec := ex, w_calls := w_calls w @ calls\<rparr> in
          (case res of
             Inl e \<Rightarrow>
               if isFinalAttempt a then
                 (enqueueWebhook cd cfg (at_enqueue a) sub
                    (fail (at_fail a) i (''execution engine error: '' @ e) w1), Finished)
               else (w1, Retry (''execute: '' @ e))
           | Inr out \<Rightarrow>
               (case CompleteSubmission (at_complete a) (complete_params i out) (w_table w1) of
                  (tbl, Inl e) \<Rightarrow> (w1\<lparr>w_table := tbl\<rparr>, Retry (''store result: '' @ db_message e))
                | (tbl, Inr updated) \<Rightarrow>
                    (enqueueWebhook cd cfg (at_enqueue a) updated (w1\<lparr>w_table := tbl\<rparr>), Finished))))"

definition handleExecute ::
  "codec \<Rightarrow> string \<Rightarrow> Config \<Rightarrow> attempt \<Rightarrow> task \<Rightarrow> world \<Rightarrow> world \<times> handler_result" where
  "handleExecute cd script cfg a t w =
     (case cd_unmarshal_exec cd (t_payload t) of
        Inl e \<Rightarrow> (w, SkipRetry (''unmarshal payload: '' @ e))
      | Inr p \<Rightarrow>
     (let i = ep_SubmissionID p in
      case GetSubmission (at_get a) i (w_table w) of
        Inl e \<Rightarrow>
          (if e = ErrNoRows
           then (w, SkipRetry (''submission '' @ cd_uuid_String cd i @ '' not found''))
           else (w, Retry (''load submission: '' @ db_message e)))
      | Inr sub \<Rightarrow>
          if sub_Status sub = SubmissionStatusCompleted \<or> sub_Status sub = SubmissionStatusFailed
          then (w, Finished)
          else (case Get (sub_Language sub) of
              None \<Rightarrow> (fail (at_fail a) i (''unsupported language '' @ sub_Language sub) w, Finished)
            | Some spec \<Rightarrow>
                (case MarkSubmissionRunning (at_mark a) i (w_table w) of
                   (tbl, Inl e) \<Rightarrow> (w\<lparr>w_table := tbl\<rparr>, Retry (''mark running: '' @ db_message e))
                 | (tbl, Inr _) \<Rightarrow> run_and_store cd script cfg a i spec sub (w\<lparr>w_table := tbl\<rparr>)))))"

definition buildWebhookBody :: "Submission \<Rightarrow> json" where
  "buildWebhookBody s = JObject
     [(''id'', JUuid (sub_ID s)),
      (''language'', JString (sub_Language s)),
      (''status'', JString (sub_Status s)),
      (''stdout'', jopt JString (sub_Stdout s)),
      (''stderr'', jopt JString (sub_Stderr s)),
      (''exit_code'', jopt JInt (sub_ExitCode s)),
      (''compile_output'', jopt JString (sub_CompileOutput s)),
      (''timed_out'', JBool (sub_TimedOut s)),
      (''oom_killed'', JBool (sub_OomKilled s)),
      (''metrics'', JObject
         [(''cpu_time_ms'', jopt JInt (sub_CpuTimeMs s)),
          (''wall_time_ms'', jopt JInt (sub_WallTimeMs s)),
          (''memory_kb'', jopt JInt (sub_MemoryKb s))]),
      (''error'', jopt JString (sub_Error s)),
      (''created_at'', JTime (sub_CreatedAt s)),
      (''finished_at'', jopt JTime (sub_FinishedAt s))]"

definition handleWebhook ::
  "codec \<Rightarrow> Config \<Rightarrow> (request \<Rightarrow> string + response) \<Rightarrow> attempt \<Rightarrow> task \<Rightarrow> world \<Rightarrow>
   world \<times> handler_result" where
  "handleWebhook cd cfg send a t w =
     (case cd_unmarshal_hook cd (t_payload t) of
        Inl e \<Rightarrow> (w, SkipRetry (''unmarshal payload: '' @ e))
      | Inr p \<Rightarrow>
     (let i = wp_SubmissionID p in
      case GetSubmission (at_get a) i (w_table w) of
        Inl e \<Rightarrow>
          (if e = ErrNoRows
           then (w, SkipRetry (''submission '' @ cd_uuid_String cd i @ '' not found''))
           else (w, Retry (''load submission: '' @ db_message e)))
      | Inr sub \<Rightarrow>
          (case Deliver (New (WebhookTimeout cfg)) send (wp_URL p) (cd_json cd (buildWebhookBody sub)) of
             (rqs, err) \<Rightarrow>
               (w\<lparr>w_requests := w_requests w @ rqs\<rparr>,
                case err of Some e \<Rightarrow> Retry e | None \<Rightarrow> Finished))))"

text \<open>The registry of handlers.\<close>

datatype handler = ExecuteHandler | WebhookHandler

definition Mux :: "(string \<times> handler) list" where
  "Mux = [(TypeExecute, ExecuteHandler), (TypeWebhook, WebhookHandler)]"

section \<open>What a handler writes\<close>

lemma enqueueWebhook_frame [simp]:
  "w_table (enqueueWebhook cd cfg rp sub w) = w_table w"
  "w_exec (enqueueWebhook cd cfg rp sub w) = w_exec w"
  "w_calls (enqueueWebhook cd cfg rp sub w) = w_calls w"
  "w_requests (enqueueWebhook cd cfg rp sub w) = w_requests w"
  by (simp_all add: enqueueWebhook_def EnqueueContext_def split: option.split sum.split db_reply.split)

lemma fail_frame [simp]:
  "w_tasks (fail de i msg w) = w_tasks w" "w_exec (fail de i msg w) = w_exec w"
  "w_calls (fail de i msg w) = w_calls w" "w_requests (fail de i msg w) = w_requests w"
  by (simp_all add: fail_def)

lemma fail_table:
  "w_table (fail de i msg w) = fst (db_put (Fail de \<lparr>fs_ID = i, fs_Error = Some msg\<rparr>) (w_table w))"
  by (simp add: fail_def)

lemma complete_params_full [simp]:
  "full_write (Complete de (complete_params i out))" "cs_ID (complete_params i out) = i"
  by (simp_all add: complete_params_def)

text \<open>Writes to the row \<open>i\<close> only, never an insertion, and with every result column given.\<close>

definition row_writes :: "uuid \<Rightarrow> db_write list \<Rightarrow> bool" where
  "row_writes i cs = list_all (\<lambda>c. full_write c \<and> db_target c = i \<and> (\<forall>de p. c \<noteq> Create de p)) cs"

lemma row_writes_Cons: "row_writes i [c] \<Longrightarrow> row_writes i cs \<Longrightarrow> row_writes i (c # cs)"
  by (simp add: row_writes_def)

lemma row_writes_simps [simp]:
  "row_writes i []" "row_writes i [Mark de i]" "row_writes i [Complete de (complete_params i out)]"
  "row_writes i [Fail de \<lparr>fs_ID = i, fs_Error = Some msg\<rparr>]"
  using complete_params_full(1) by (simp_all add: row_writes_def del: full_write.simps(1))

lemma run_and_store_writes:
  "\<exists>cs. row_writes i cs \<and>
     w_table (fst (run_and_store cd script cfg a i spec sub w)) = put_seq db_put cs (w_table w)"
proof -
  obtain ex calls res where ex:
    "Execute script cfg (at_docker a) spec (sub_Code sub) (sub_Stdin sub) (w_exec w) = (ex, calls, res)"
    by (cases "Execute script cfg (at_docker a) spec (sub_Code sub) (sub_Stdin sub) (w_exec w)") auto
  show ?thesis
  proof (cases res)
    case (Inl e)
    let ?f = "Fail (at_fail a) \<lparr>fs_ID = i, fs_Error = Some (''execution engine error: '' @ e)\<rparr>"
    have "w_table (fst (run_and_store cd script cfg a i spec sub w)) =
        put_seq db_put (if isFinalAttempt a then [?f] else []) (w_table w)"
      using ex Inl by (simp add: run_and_store_def fail_table Let_def)
    then show ?thesis by (intro exI [of _ "if isFinalAttempt a then [?f] else []"]) simp
  next
    case (Inr out)
    have "w_table (fst (run_and_store cd script cfg a i spec sub w)) =
        put_seq db_put [Complete (at_complete a) (complete_params i out)] (w_table w)"
      using ex Inr by (auto simp: run_and_store_def Let_def split: prod.splits sum.splits)
    then show ?thesis by (intro exI [of _ "[Complete (at_complete a) (complete_params i out)]"]) simp
  qed
qed

lemma handleExecute_writes:
  assumes "cd_unmarshal_exec cd (t_payload t) = Inr p"
  shows "\<exists>cs. row_writes (ep_SubmissionID p) cs \<and>
    w_table (fst (handleExecute cd script cfg a t w)) = put_seq db_put cs (w_table w)"
proof -
  let ?i = "ep_SubmissionID p"
  have none: ?thesis if "fst (handleExecute cd script cfg a t w) = w"
    using that by (intro exI [of _ "[]"]) simp
  show ?thesis
  proof (cases "GetSubmission (at_get a) ?i (w_table w)")
    case (Inl e)
    with assms show ?thesis by (intro none) (simp add: handleExecute_def Let_def)
  next
    case get: (Inr sub)
    show ?thesis
    proof (cases "sub_Status sub = SubmissionStatusCompleted \<or> sub_Status sub = SubmissionStatusFailed")
      case True
      with assms get show ?thesis by (intro none) (auto simp: handleExecute_def Let_def)
    next
      case open_row: False
      show ?thesis
      proof (cases "Get (sub_Language sub)")
        case None
        let ?f = "Fail (at_fail a)
          \<lparr>fs_ID = ?i, fs_Error = Some (''unsupported language '' @ sub_Language sub)\<rparr>"
        from assms get open_row None show ?thesis
          by (intro exI [of _ "[?f]"]) (simp add: handleExecute_def fail_table Let_def)
      next
        case (Some spec)
        obtain tbl r where mark: "MarkSubmissionRunning (at_mark a) ?i (w_table w) = (tbl, r)"
          by (cases "MarkSubmissionRunning (at_mark a) ?i (w_table w)") auto
        show ?thesis
        proof (cases r)
          case (Inl e)
          with assms get open_row Some mark show ?thesis
            by (intro exI [of _ "[Mark (at_mark a) ?i]"]) (simp add: handleExecute_def Let_def)
        next
          case (Inr x)
          obtain cs where cs: "row_writes ?i cs"
            "w_table (fst (run_and_store cd script cfg a ?i spec sub (w\<lparr>w_table := tbl\<rparr>))) =
              put_seq db_put cs (w_table (w\<lparr>w_table := tbl\<rparr>))"
            using run_and_store_writes by blast
          with assms get open_row Some mark Inr show ?thesis
            by (intro exI [of _ "Mark (at_mark a) ?i # cs"])
              (simp add: handleExecute_def Let_def row_writes_Cons)
        qed
      qed
    qed
  qed
qed

section \<open>The paths of a working database\<close>

definition terminal :: "Submission \<Rightarrow> bool" where
  "terminal r = (sub_Status r = SubmissionStatusCompleted \<or> sub_Status r = SubmissionStatusFailed)"

lemma terminal_set [simp]:
  "\<not> terminal (set_running de r)" "terminal (set_completed de c r)" "terminal (set_failed de f r)"
  "\<not> terminal (new_row de p)"
  by (simp_all add: terminal_def set_running_def set_completed_def set_failed_def new_row_def)

lemma GetSubmission_row:
  "w_table w i = Some r \<Longrightarrow> GetSubmission de i (w_table w) = Inr r \<or>
     (\<exists>e. GetSubmission de i (w_table w) = Inl (DbError e))"
  by (simp add: GetSubmission_def statement_def split: db_reply.split)

lemma GetSubmission_Answered:
  "db_reply de = Answered \<Longrightarrow> tbl i = Some r \<Longrightarrow> GetSubmission de i tbl = Inr r"
  by (simp add: GetSubmission_def statement_def)

lemma handleExecute_open:
  assumes "cd_unmarshal_exec cd (t_payload t) = Inr p" and "w_table w (ep_SubmissionID p) = Some r"
    and "\<not> terminal r" and "Get (sub_Language r) = Some spec"
    and "db_reply (at_get a) = Answered" "db_reply (at_mark a) = Answered"
  shows "handleExecute cd script cfg a t w =
    run_and_store cd script cfg a (ep_SubmissionID p) spec r
      (w\<lparr>w_table := (w_table w)(ep_SubmissionID p \<mapsto> set_running (at_mark a) r)\<rparr>)"
  using assms
  by (simp add: handleExecute_def GetSubmission_Answered terminal_def MarkSubmissionRunning_def
      statement_def update_row_def Let_def)

text \<open>The texts of an outcome, which the database has to accept.\<close>

definition storable :: "db_env \<Rightarrow> Outcome \<Rightarrow> bool" where
  "storable de out =
     (db_text_ok de (out_Stdout out) \<and> db_text_ok de (out_Stderr out) \<and>
      (out_CompileOutput out = [] \<or> db_text_ok de (out_CompileOutput out)))"

lemma CompleteSubmission_run:
  assumes "db_reply de = Answered" and "tbl i = Some r"
  shows "CompleteSubmission de (complete_params i out) tbl =
    (if storable de out
     then (tbl(i \<mapsto> set_completed de (complete_params i out) r), Inr (set_completed de (complete_params i out) r))
     else (tbl, Inl bad_text))"
  using assms
  by (auto simp: CompleteSubmission_def statement_def update_row_def storable_def complete_params_def
      opt_text_ok_def nilIfEmpty_def)

lemma fail_run:
  assumes "db_reply de = Answered" and "db_text_ok de msg" and "w_table w i = Some r"
  shows "fail de i msg w =
    w\<lparr>w_table := (w_table w)(i \<mapsto> set_failed de \<lparr>fs_ID = i, fs_Error = Some msg\<rparr> r)\<rparr>"
  using assms by (simp add: fail_def FailSubmission_def statement_def update_row_def opt_text_ok_def)

text \<open>The webhook task for a submission, if it has an address.\<close>

definition hook_tasks :: "codec \<Rightarrow> Config \<Rightarrow> Submission \<Rightarrow> task list" where
  "hook_tasks cd cfg sub =
     (case sub_WebhookUrl sub of
        None \<Rightarrow> []
      | Some url \<Rightarrow>
          if url = [] then []
          else (case NewWebhookTask (cd_marshal_hook cd) (sub_ID sub) url (WebhookMaxRetries cfg) of
              Inl e \<Rightarrow> [] | Inr t \<Rightarrow> [t]))"

lemma enqueueWebhook_Answered:
  "enqueueWebhook cd cfg Answered sub w = w\<lparr>w_tasks := w_tasks w @ hook_tasks cd cfg sub\<rparr>"
  by (simp add: enqueueWebhook_def hook_tasks_def EnqueueContext_def split: option.split sum.split)

lemma hook_tasks_same_input [simp]:
  "hook_tasks cd cfg (set_running de r) = hook_tasks cd cfg r"
  "hook_tasks cd cfg (set_completed de c r) = hook_tasks cd cfg r"
  by (cases "sub_WebhookUrl r"; simp add: hook_tasks_def set_running_def set_completed_def)+

text \<open>
  The database works during a call that runs the given submission: it answers every statement, and it
  accepts the texts that have to be stored, which are those of the outcome or of the engine's error.
\<close>

definition db_works :: "string \<Rightarrow> Config \<Rightarrow> Spec \<Rightarrow> string \<Rightarrow> string \<Rightarrow> attempt \<Rightarrow> bool" where
  "db_works script cfg spec code stdin a =
     ((\<forall>de\<in>{at_get a, at_mark a, at_complete a, at_fail a}. db_reply de = Answered) \<and>
      (\<forall>ex. case snd (snd (Execute script cfg (at_docker a) spec code stdin ex)) of
         Inl e \<Rightarrow> db_text_ok (at_fail a) (''execution engine error: '' @ e)
       | Inr out \<Rightarrow> storable (at_complete a) out))"

lemma db_worksD:
  assumes "db_works script cfg spec code stdin a"
  shows "db_reply (at_get a) = Answered" "db_reply (at_mark a) = Answered"
    "db_reply (at_complete a) = Answered" "db_reply (at_fail a) = Answered"
    and "Execute script cfg (at_docker a) spec code stdin ex = (ex', calls, Inl e) \<Longrightarrow>
      db_text_ok (at_fail a) (''execution engine error: '' @ e)"
    and "Execute script cfg (at_docker a) spec code stdin ex = (ex', calls, Inr out) \<Longrightarrow> storable (at_complete a) out"
proof -
  show "db_reply (at_get a) = Answered" "db_reply (at_mark a) = Answered"
    "db_reply (at_complete a) = Answered" "db_reply (at_fail a) = Answered"
    using assms by (simp_all add: db_works_def)
next
  note texts = assms [unfolded db_works_def, THEN conjunct2, THEN spec [of _ ex]]
  show "Execute script cfg (at_docker a) spec code stdin ex = (ex', calls, Inl e) \<Longrightarrow>
      db_text_ok (at_fail a) (''execution engine error: '' @ e)"
    and "Execute script cfg (at_docker a) spec code stdin ex = (ex', calls, Inr out) \<Longrightarrow> storable (at_complete a) out"
    using texts by simp_all
qed

lemma handleExecute_terminal:
  assumes "cd_unmarshal_exec cd (t_payload t) = Inr p" and "w_table w (ep_SubmissionID p) = Some r"
    and "terminal r"
  shows "handleExecute cd script cfg a t w = (w, Finished) \<or> (\<exists>e. handleExecute cd script cfg a t w = (w, Retry e))"
    and "db_reply (at_get a) = Answered \<Longrightarrow> handleExecute cd script cfg a t w = (w, Finished)"
  using assms GetSubmission_row [OF assms(2), of "at_get a"]
  by (auto simp: handleExecute_def terminal_def GetSubmission_Answered Let_def)

lemma run_and_store_settles:
  assumes "db_works script cfg spec (sub_Code sub) (sub_Stdin sub) a" and "w_table w i = Some r"
  shows "case run_and_store cd script cfg a i spec sub w of (w', res) \<Rightarrow>
    (\<exists>e. res = Retry e \<and> \<not> isFinalAttempt a) \<or>
    res = Finished \<and> (\<exists>r'. w_table w' i = Some r' \<and> terminal r')"
proof -
  obtain ex calls res where ex:
    "Execute script cfg (at_docker a) spec (sub_Code sub) (sub_Stdin sub) (w_exec w) = (ex, calls, res)"
    by (cases "Execute script cfg (at_docker a) spec (sub_Code sub) (sub_Stdin sub) (w_exec w)") auto
  note works = db_worksD [OF assms(1)]
  show ?thesis
  proof (cases res)
    case (Inl e)
    with ex assms(2) works(4) works(5) [of "w_exec w" ex calls e] show ?thesis
      by (simp add: run_and_store_def fail_run Let_def)
  next
    case (Inr out)
    with ex assms(2) works(3) works(6) [of "w_exec w" ex calls out] show ?thesis
      by (simp add: run_and_store_def CompleteSubmission_run Let_def)
  qed
qed

lemma handleExecute_settles:
  assumes "cd_unmarshal_exec cd (t_payload t) = Inr p" and "w_table w (ep_SubmissionID p) = Some r"
    and "Get (sub_Language r) = Some spec" and "db_works script cfg spec (sub_Code r) (sub_Stdin r) a"
  shows "case handleExecute cd script cfg a t w of (w', res) \<Rightarrow>
    (\<exists>e. res = Retry e \<and> \<not> isFinalAttempt a) \<or>
    res = Finished \<and> (\<exists>r'. w_table w' (ep_SubmissionID p) = Some r' \<and> terminal r')"
proof (cases "terminal r")
  case True
  with assms db_worksD(1) [OF assms(4)] show ?thesis
    by (simp add: handleExecute_terminal(2))
next
  case False
  with assms db_worksD(1,2) [OF assms(4)] show ?thesis
    using run_and_store_settles [OF assms(4)] by (simp add: handleExecute_open)
qed

lemma handleExecute_row:
  assumes "cd_unmarshal_exec cd (t_payload t) = Inr p"
  shows "\<forall>k. case w_table w k of
      None \<Rightarrow> w_table (fst (handleExecute cd script cfg a t w)) k = None
    | Some r \<Rightarrow> \<exists>r'. w_table (fst (handleExecute cd script cfg a t w)) k = Some r' \<and> same_input r r' \<and>
        (row_wf r \<longrightarrow> row_wf r') \<and> (k \<noteq> ep_SubmissionID p \<longrightarrow> r' = r)"
proof
  fix k
  obtain cs where cs: "row_writes (ep_SubmissionID p) cs"
    "w_table (fst (handleExecute cd script cfg a t w)) = put_seq db_put cs (w_table w)"
    using handleExecute_writes [OF assms] by blast
  let ?P = "\<lambda>x. case w_table w k of None \<Rightarrow> x = None
    | Some r \<Rightarrow> \<exists>r'. x = Some r' \<and> same_input r r' \<and> (row_wf r \<longrightarrow> row_wf r') \<and>
        (k \<noteq> ep_SubmissionID p \<longrightarrow> r' = r)"
  show "?P (w_table (fst (handleExecute cd script cfg a t w)) k)"
    unfolding cs(2)
  proof (rule store.put_seq_keeps [where P = ?P])
    show "?P (w_table w k)" by (simp split: option.split)
  next
    fix c x
    assume "c \<in> set cs" and k: "k = db_target c" and P: "?P x"
    then have c: "full_write c" "db_target c = ep_SubmissionID p" "\<And>de q. c \<noteq> Create de q"
      using cs(1) by (auto simp: row_writes_def list_all_iff)
    from P k c show "?P (db_change c x)"
      by (cases c) (auto split: option.splits)
  qed
qed

lemma handleExecute_progress:
  assumes "cd_unmarshal_exec cd (t_payload t) = Inr p" and "w_table w (ep_SubmissionID p) = Some r"
    and "Get (sub_Language r) = Some spec" and "\<not> isFinalAttempt a"
  shows "case handleExecute cd script cfg a t w of (w', res) \<Rightarrow>
    (\<exists>e. res = Retry e) \<or> res = Finished \<and> (\<exists>r'. w_table w' (ep_SubmissionID p) = Some r' \<and> terminal r')"
proof (cases "terminal r \<or> GetSubmission (at_get a) (ep_SubmissionID p) (w_table w) \<noteq> Inr r")
  case True
  with assms GetSubmission_row [OF assms(2), of "at_get a"] show ?thesis
    by (auto simp: handleExecute_def terminal_def Let_def)
next
  case False
  let ?i = "ep_SubmissionID p"
  have "case run_and_store cd script cfg a ?i spec r w1 of (w', res) \<Rightarrow>
      (\<exists>e. res = Retry e) \<or> res = Finished \<and> (\<exists>r'. w_table w' ?i = Some r' \<and> terminal r')" for w1
  proof -
    obtain ex calls res where ex:
      "Execute script cfg (at_docker a) spec (sub_Code r) (sub_Stdin r) (w_exec w1) = (ex, calls, res)"
      by (cases "Execute script cfg (at_docker a) spec (sub_Code r) (sub_Stdin r) (w_exec w1)") auto
    show ?thesis
    proof (cases res)
      case (Inl e)
      with ex assms(4) show ?thesis by (simp add: run_and_store_def Let_def)
    next
      case (Inr out)
      let ?c = "Complete (at_complete a) (complete_params ?i out)"
      obtain tbl res' where c: "db_put ?c (w_table w1) = (tbl, res')"
        by (cases "db_put ?c (w_table w1)") auto
      have "tbl ?i = Some r' \<and> terminal r'" if "res' = Inr r'" for r'
        using store.answer [of ?c "w_table w1" r'] c that by auto
      with ex Inr c show ?thesis
        by (cases res') (simp_all add: run_and_store_def Let_def)
    qed
  qed
  moreover obtain tbl m where "MarkSubmissionRunning (at_mark a) ?i (w_table w) = (tbl, m)"
    by (cases "MarkSubmissionRunning (at_mark a) ?i (w_table w)") auto
  ultimately show ?thesis
    using assms False by (cases m) (simp_all add: handleExecute_def terminal_def Let_def)
qed

text \<open>
  How the queue runs a task: again, with the retry count one higher, while the handler asks for it and
  the count is below the limit.
\<close>

fun process :: "(nat \<Rightarrow> world \<Rightarrow> world \<times> handler_result) \<Rightarrow> nat \<Rightarrow> nat \<Rightarrow> world \<Rightarrow> world \<times> handler_result" where
  "process h 0 n w = h n w"
| "process h (Suc k) n w =
     (case h n w of
        (w', Retry e) \<Rightarrow> process h k (Suc n) w'
      | (w', res) \<Rightarrow> (w', res))"

text \<open>
  The contract of a task that may be tried again: \<open>inv\<close> is what every attempt can rely on and keeps,
  \<open>settled\<close> what the task is for. An attempt that is not the last one settles the task or asks for
  another; the last one settles it if its surroundings work.
\<close>

locale retried_task =
  fixes call :: "'a \<Rightarrow> world \<Rightarrow> world \<times> handler_result"
    and last_try :: "'a \<Rightarrow> bool"
    and works :: "'a \<Rightarrow> bool"
    and inv :: "world \<Rightarrow> bool"
    and settled :: "world \<Rightarrow> bool"
  assumes keeps: "inv w \<Longrightarrow> inv (fst (call a w))"
    and progress: "inv w \<Longrightarrow> \<not> last_try a \<Longrightarrow> call a w = (w', res) \<Longrightarrow>
      (\<exists>e. res = Retry e) \<or> res = Finished \<and> settled w'"
    and settles: "inv w \<Longrightarrow> last_try a \<Longrightarrow> works a \<Longrightarrow> call a w = (w', res) \<Longrightarrow> res = Finished \<and> settled w'"
begin

lemma process_settles:
  assumes "inv w" and "\<And>m. m < n + k \<Longrightarrow> \<not> last_try (att m)"
    and "last_try (att (n + k))" "works (att (n + k))"
    and "process (\<lambda>m. call (att m)) k n w = (w', res)"
  shows "res = Finished \<and> settled w'"
  using assms
proof (induction k arbitrary: n w)
  case 0
  then show ?case using settles by simp
next
  case (Suc k)
  obtain w1 res1 where h: "call (att n) w = (w1, res1)" by (cases "call (att n) w") auto
  from keeps [OF Suc.prems(1), of "att n"] h have "inv w1" by simp
  show ?case
  proof (cases "\<exists>e. res1 = Retry e")
    case True
    then have "process (\<lambda>m. call (att m)) k (Suc n) w1 = (w', res)" using Suc.prems(5) h by auto
    with Suc.prems(2-4) \<open>inv w1\<close> show ?thesis by (intro Suc.IH [of w1 "Suc n"]) simp_all
  next
    case False
    with progress [OF Suc.prems(1) _ h] Suc.prems(2) [of n] Suc.prems(5) h show ?thesis
      by (auto split: handler_result.splits)
  qed
qed

end

text \<open>
  An execution task names an existing row of a registered language with the given code and input, and is
  settled by its end.
\<close>

definition runnable :: "codec \<Rightarrow> task \<Rightarrow> Spec \<Rightarrow> string \<Rightarrow> string \<Rightarrow> world \<Rightarrow> bool" where
  "runnable cd t spec code stdin w =
     (\<exists>p r. cd_unmarshal_exec cd (t_payload t) = Inr p \<and> w_table w (ep_SubmissionID p) = Some r \<and>
        Get (sub_Language r) = Some spec \<and> sub_Code r = code \<and> sub_Stdin r = stdin)"

definition settled_row :: "codec \<Rightarrow> task \<Rightarrow> world \<Rightarrow> bool" where
  "settled_row cd t w =
     (\<exists>p r. cd_unmarshal_exec cd (t_payload t) = Inr p \<and> w_table w (ep_SubmissionID p) = Some r \<and> terminal r)"

lemma runnableE:
  assumes "runnable cd t spec code stdin w"
  obtains p r where "cd_unmarshal_exec cd (t_payload t) = Inr p" "w_table w (ep_SubmissionID p) = Some r"
    "Get (sub_Language r) = Some spec" "sub_Code r = code" "sub_Stdin r = stdin"
  using assms unfolding runnable_def by blast

lemma handleExecute_runnable:
  assumes "runnable cd t spec code stdin w"
  shows "runnable cd t spec code stdin (fst (handleExecute cd script cfg a t w))"
  using assms
proof (rule runnableE)
  fix p r
  assume p: "cd_unmarshal_exec cd (t_payload t) = Inr p" "w_table w (ep_SubmissionID p) = Some r"
    "Get (sub_Language r) = Some spec" "sub_Code r = code" "sub_Stdin r = stdin"
  with handleExecute_row [where w = w and script = script and cfg = cfg and a = a, OF p(1), THEN spec [of _ "ep_SubmissionID p"]]
  show ?thesis unfolding runnable_def same_input_def by auto
qed

interpretation execution: retried_task "\<lambda>a. handleExecute cd script cfg a t" isFinalAttempt
  "db_works script cfg spec code stdin" "runnable cd t spec code stdin" "settled_row cd t"
  for cd script cfg t spec code stdin
proof
  fix w a
  show "runnable cd t spec code stdin w \<Longrightarrow>
      runnable cd t spec code stdin (fst (handleExecute cd script cfg a t w))"
    by (rule handleExecute_runnable)
next
  fix w a w' res
  assume "runnable cd t spec code stdin w" and "\<not> isFinalAttempt a"
    and "handleExecute cd script cfg a t w = (w', res)"
  then show "(\<exists>e. res = Retry e) \<or> res = Finished \<and> settled_row cd t w'"
    by (elim runnableE) (frule (3) handleExecute_progress [of cd t _ w _ spec a script cfg],
      auto simp: settled_row_def)
next
  fix w a w' res
  assume "runnable cd t spec code stdin w" and "isFinalAttempt a" and "db_works script cfg spec code stdin a"
    and "handleExecute cd script cfg a t w = (w', res)"
  then show "res = Finished \<and> settled_row cd t w'"
    by (elim runnableE) (frule (2) handleExecute_settles [of cd t _ w _ spec script cfg a],
      auto simp: settled_row_def)
qed

section \<open>Sample data\<close>

text \<open>A codec that writes a UUID in unary; a call with a working database.\<close>

definition sample_codec :: codec where
  "sample_codec =
     \<lparr>cd_marshal_exec = (\<lambda>p. Inr (replicate (unat (ep_SubmissionID p)) (CHR ''x''))),
      cd_unmarshal_exec = (\<lambda>b. Inr \<lparr>ep_SubmissionID = word_of_nat (length b)\<rparr>),
      cd_marshal_hook = (\<lambda>p. Inr (replicate (unat (wp_SubmissionID p)) (CHR ''x'') @ CHR '':'' # wp_URL p)),
      cd_unmarshal_hook = (\<lambda>b. case CutByte b (CHR '':'') of
         (u, url, _) \<Rightarrow> Inr \<lparr>wp_SubmissionID = word_of_nat (length u), wp_URL = url\<rparr>),
      cd_uuid_String = (\<lambda>i. replicate (unat i) (CHR ''x'')),
      cd_uuid_Parse = (\<lambda>b. Some (word_of_nat (length b))),
      cd_json = (\<lambda>_. Inr ''{}'')\<rparr>"

definition sample_attempt :: "docker \<Rightarrow> int \<Rightarrow> attempt" where
  "sample_attempt dk n =
     \<lparr>at_get = ok_db 2, at_mark = ok_db 3, at_complete = ok_db 4, at_fail = ok_db 5,
      at_enqueue = Answered, at_docker = dk, at_count = Some n, at_limit = Some 2\<rparr>"

definition sample_task :: task where
  "sample_task = \<lparr>t_type = TypeExecute, t_payload = ''xxxxxxx'', t_queue = QueueDefault, t_max_retry = 2,
     t_timeout = 120 * second, t_retention = 3600 * second\<rparr>"

definition sample_world :: "Submission \<Rightarrow> world" where
  "sample_world r = \<lparr>w_table = [7 \<mapsto> r], w_tasks = [], w_exec = warm_executor, w_calls = [], w_requests = []\<rparr>"

lemma sample_attempt_simps [simp]:
  "at_get (sample_attempt dk n) = ok_db 2" "at_mark (sample_attempt dk n) = ok_db 3"
  "at_complete (sample_attempt dk n) = ok_db 4" "at_fail (sample_attempt dk n) = ok_db 5"
  "at_enqueue (sample_attempt dk n) = Answered" "at_docker (sample_attempt dk n) = dk"
  "isFinalAttempt (sample_attempt dk n) \<longleftrightarrow> 2 \<le> n" "at_count (sample_attempt dk n) = Some n"
  "at_limit (sample_attempt dk n) = Some 2"
  by (simp_all add: sample_attempt_def isFinalAttempt_def)

lemma sample_task_payload [simp]:
  "cd_unmarshal_exec sample_codec (t_payload sample_task) = Inr \<lparr>ep_SubmissionID = 7\<rparr>"
  by (simp add: sample_codec_def sample_task_def)

lemma sample_codec_ok [simp]: "codec_ok (cd_marshal_exec sample_codec) (cd_unmarshal_exec sample_codec)"
  by (simp add: codec_ok_def sample_codec_def)

lemma sample_world_simps [simp]:
  "w_table (sample_world r) = [7 \<mapsto> r]" "w_tasks (sample_world r) = []" "w_exec (sample_world r) = warm_executor"
  by (simp_all add: sample_world_def)

lemma sample_row_simps [simp]:
  "sub_ID sample_row = 7" "sub_Language sample_row = ''python''" "\<not> terminal sample_row"
  "sub_Error sample_row = None" "sub_Code sample_row = ''print(6)''"
  "sub_WebhookUrl sample_row = Some ''https://example.com/hook''"
  by (simp_all add: sample_row_def sample_params_def) (simp_all add: new_row_def)

lemma Get_python [simp]: "Get ''python'' = Some python_spec"
  by (simp add: Get_def registry_def)

text \<open>A run whose program wrote the given text to stdout and was reported without a marker.\<close>

definition plain_outcome :: "string \<Rightarrow> Outcome" where
  "plain_outcome txt = buildOutcome default_config txt [] ''__OCEE_2a__'' 0 (1 * second) False"

lemma plain_outcome_simps [simp]:
  "out_Stdout (plain_outcome txt) = txt" "out_Stderr (plain_outcome txt) = []"
  "out_CompileOutput (plain_outcome txt) = []" "out_ExitCode (plain_outcome txt) = 0"
  by (simp_all add: plain_outcome_def buildOutcome_unmarked extractMarker_absent wrap32_def wrap_def)

lemma plain_run:
  assumes "length txt \<le> 1000"
  obtains ex calls where "Execute ''s'' default_config (docker_of (txt, [])) python_spec code stdin warm_executor =
    (ex, calls, Inr (plain_outcome txt))"
proof -
  have "snd (snd (Execute ''s'' default_config (docker_of (txt, [])) python_spec code stdin warm_executor)) =
      Inr (plain_outcome txt)"
    using Execute_delivers [of python_spec warm_executor "docker_of (txt, [])" "''__OCEE_2a__''" "''c1''" "(txt, [])"
        "''s''" default_config code stdin] assms
    by (simp add: plain_outcome_def)
  then show thesis
    using that by (cases "Execute ''s'' default_config (docker_of (txt, [])) python_spec code stdin warm_executor") auto
qed

text \<open>A daemon that cannot attach to the container.\<close>

definition broken_docker :: docker where
  "broken_docker = sample_docker\<lparr>dk_attach := Some ''no such host''\<rparr>"

lemma broken_run_any:
  "snd (snd (Execute ''s'' default_config broken_docker python_spec code stdin ex)) = Inl ''attach: no such host''"
  by (simp add: Execute_def ensureImage_def createContainer_def runContainer_def broken_docker_def
      sample_docker_def newNonce_def Let_def)

lemma broken_run:
  obtains ex calls where "Execute ''s'' default_config broken_docker python_spec code stdin warm_executor =
    (ex, calls, Inl ''attach: no such host'')"
  using broken_run_any [of code stdin warm_executor] that
  by (cases "Execute ''s'' default_config broken_docker python_spec code stdin warm_executor") auto

section \<open>Properties\<close>

text \<open>
  A submission that is completed or failed is never touched again by its task: the handler changes
  nothing, starts no container and enqueues nothing, and the task ends or is retried (if the row cannot
  be read).
\<close>

theorem finished_submission_untouched:
  assumes "cd_unmarshal_exec cd (t_payload t) = Inr p" and "w_table w (ep_SubmissionID p) = Some r"
    and "terminal r"
  shows "fst (handleExecute cd script cfg a t w) = w \<and>
    (snd (handleExecute cd script cfg a t w) = Finished \<or> (\<exists>e. snd (handleExecute cd script cfg a t w) = Retry e))"
  using handleExecute_terminal(1) [OF assms, of script cfg a] by auto

theorem finished_submission_untouched_witness:
  "fst (handleExecute sample_codec ''s'' default_config (sample_attempt sample_docker 1) sample_task
      (sample_world (set_completed (ok_db 4) sample_result sample_row))) =
    sample_world (set_completed (ok_db 4) sample_result sample_row)"
  using finished_submission_untouched [of sample_codec sample_task "\<lparr>ep_SubmissionID = 7\<rparr>"
      "sample_world (set_completed (ok_db 4) sample_result sample_row)"
      "set_completed (ok_db 4) sample_result sample_row" "''s''" default_config "sample_attempt sample_docker 1"]
  by simp

text \<open>
  C2. When the container ran and the database works, the row becomes completed and holds the outcome
  column by column (an empty compiler output as NULL), whatever the exit status was, with the submitted
  data unchanged; the webhook task is enqueued if there is an address; no other row changes; and the
  task is not retried.
\<close>

theorem handleExecute_stores_result:
  assumes "cd_unmarshal_exec cd (t_payload t) = Inr p" and "i = ep_SubmissionID p"
    and "w_table w i = Some r" and "\<not> terminal r" and "Get (sub_Language r) = Some spec"
    and "db_reply (at_get a) = Answered" "db_reply (at_mark a) = Answered" "db_reply (at_complete a) = Answered"
    and "at_enqueue a = Answered"
    and "Execute script cfg (at_docker a) spec (sub_Code r) (sub_Stdin r) (w_exec w) = (ex, calls, Inr out)"
    and "storable (at_complete a) out"
  shows "\<exists>w' r'. handleExecute cd script cfg a t w = (w', Finished) \<and>
    w_table w' = (w_table w)(i \<mapsto> r') \<and> same_input r r' \<and> sub_Status r' = SubmissionStatusCompleted \<and>
    sub_Stdout r' = Some (out_Stdout out) \<and> sub_Stderr r' = Some (out_Stderr out) \<and>
    sub_ExitCode r' = Some (out_ExitCode out) \<and>
    sub_CompileOutput r' = (if out_CompileOutput out = [] then None else Some (out_CompileOutput out)) \<and>
    sub_CpuTimeMs r' = Some (out_CPUTimeMS out) \<and> sub_WallTimeMs r' = Some (out_WallTimeMS out) \<and>
    sub_MemoryKb r' = Some (out_MemoryKB out) \<and> sub_TimedOut r' = out_TimedOut out \<and>
    sub_OomKilled r' = out_OOMKilled out \<and> sub_Error r' = sub_Error r \<and>
    w_tasks w' = w_tasks w @ hook_tasks cd cfg r \<and> w_calls w' = w_calls w @ calls"
proof -
  let ?r = "set_completed (at_complete a) (complete_params i out) (set_running (at_mark a) r)"
  let ?w = "w\<lparr>w_table := (w_table w)(i \<mapsto> ?r), w_tasks := w_tasks w @ hook_tasks cd cfg r, w_exec := ex,
         w_calls := w_calls w @ calls\<rparr>"
  have "handleExecute cd script cfg a t w = (?w, Finished)"
    using assms
    by (simp add: handleExecute_open run_and_store_def CompleteSubmission_run enqueueWebhook_Answered Let_def)
  then show ?thesis
    by (intro exI [of _ ?w] exI [of _ ?r])
      (simp add: set_completed_def set_running_def complete_params_def nilIfEmpty_def same_input_def)
qed

theorem handleExecute_stores_result_witness:
  "\<exists>w' r'. handleExecute sample_codec ''s'' default_config (sample_attempt (docker_of (''6'', [])) 0) sample_task
      (sample_world sample_row) = (w', Finished) \<and> w_table w' = [7 \<mapsto> r'] \<and>
    sub_Status r' = SubmissionStatusCompleted \<and> sub_Stdout r' = Some ''6'' \<and> sub_ExitCode r' = Some 0"
proof (rule plain_run [of "''6''" "sub_Code sample_row" "sub_Stdin sample_row"])
  fix ex calls
  assume "Execute ''s'' default_config (docker_of (''6'', [])) python_spec (sub_Code sample_row)
      (sub_Stdin sample_row) warm_executor = (ex, calls, Inr (plain_outcome ''6''))"
  then show ?thesis
    using handleExecute_stores_result [of sample_codec sample_task "\<lparr>ep_SubmissionID = 7\<rparr>" 7
        "sample_world sample_row" sample_row python_spec "sample_attempt (docker_of (''6'', [])) 0" "''s''"
        default_config ex calls "plain_outcome ''6''"]
    by (auto simp: storable_def)
qed simp

text \<open>
  C13. An engine failure with a working database: before the last attempt the row stays running, nothing
  is enqueued and the task is retried; on the last attempt the row becomes failed with the
  reason, the webhook task is enqueued if there is an address, and the task is done.
\<close>

theorem handleExecute_engine_failure:
  assumes "cd_unmarshal_exec cd (t_payload t) = Inr p" and "i = ep_SubmissionID p"
    and "w_table w i = Some r" and "\<not> terminal r" and "Get (sub_Language r) = Some spec"
    and "db_reply (at_get a) = Answered" "db_reply (at_mark a) = Answered" "db_reply (at_fail a) = Answered"
    and "at_enqueue a = Answered"
    and "Execute script cfg (at_docker a) spec (sub_Code r) (sub_Stdin r) (w_exec w) = (ex, calls, Inl e)"
    and "db_text_ok (at_fail a) (''execution engine error: '' @ e)"
  shows "\<exists>w' r' res. handleExecute cd script cfg a t w = (w', res) \<and> w_table w' = (w_table w)(i \<mapsto> r') \<and>
    same_input r r' \<and>
    (if isFinalAttempt a
     then res = Finished \<and> sub_Status r' = SubmissionStatusFailed \<and>
       sub_Error r' = Some (''execution engine error: '' @ e) \<and> w_tasks w' = w_tasks w @ hook_tasks cd cfg r
     else res = Retry (''execute: '' @ e) \<and> sub_Status r' = SubmissionStatusRunning \<and> w_tasks w' = w_tasks w)"
proof -
  let ?run = "set_running (at_mark a) r"
  let ?fail = "set_failed (at_fail a) \<lparr>fs_ID = i, fs_Error = Some (''execution engine error: '' @ e)\<rparr> ?run"
  let ?w1 = "w\<lparr>w_table := (w_table w)(i \<mapsto> ?run), w_exec := ex, w_calls := w_calls w @ calls\<rparr>"
  show ?thesis
  proof (cases "isFinalAttempt a")
    case True
    let ?w = "?w1\<lparr>w_table := (w_table w)(i \<mapsto> ?fail), w_tasks := w_tasks w @ hook_tasks cd cfg r\<rparr>"
    have "handleExecute cd script cfg a t w = (?w, Finished)"
      using assms True
      by (simp add: handleExecute_open run_and_store_def fail_run enqueueWebhook_Answered Let_def)
    with True show ?thesis
      by (intro exI [of _ ?w] exI [of _ ?fail]) (simp add: set_failed_def set_running_def same_input_def)
  next
    case False
    have "handleExecute cd script cfg a t w = (?w1, Retry (''execute: '' @ e))"
      using assms False by (simp add: handleExecute_open run_and_store_def Let_def)
    with False show ?thesis
      by (intro exI [of _ ?w1] exI [of _ ?run]) (simp add: set_running_def same_input_def)
  qed
qed

theorem handleExecute_engine_failure_witness:
  "\<exists>w' r'. handleExecute sample_codec ''s'' default_config (sample_attempt broken_docker 2) sample_task
      (sample_world sample_row) = (w', Finished) \<and> w_table w' = [7 \<mapsto> r'] \<and>
    sub_Status r' = SubmissionStatusFailed"
proof (rule broken_run [of "sub_Code sample_row" "sub_Stdin sample_row"])
  fix ex calls
  assume "Execute ''s'' default_config broken_docker python_spec (sub_Code sample_row)
      (sub_Stdin sample_row) warm_executor = (ex, calls, Inl ''attach: no such host'')"
  then show ?thesis
    using handleExecute_engine_failure [of sample_codec sample_task "\<lparr>ep_SubmissionID = 7\<rparr>" 7
        "sample_world sample_row" sample_row python_spec "sample_attempt broken_docker 2" "''s''"
        default_config ex calls "''attach: no such host''"]
    by auto
qed

text \<open>
  A handler call, however the database and the daemon behave, writes only the row of its task and
  loses nothing of it: other rows are unchanged, a row that did not exist still does not, the submitted
  data is unchanged, and a well-formed row stays well-formed.
\<close>

theorem handleExecute_writes_own_row:
  assumes "cd_unmarshal_exec cd (t_payload t) = Inr p"
  shows "\<forall>k. case w_table w k of
      None \<Rightarrow> w_table (fst (handleExecute cd script cfg a t w)) k = None
    | Some r \<Rightarrow> \<exists>r'. w_table (fst (handleExecute cd script cfg a t w)) k = Some r' \<and> same_input r r' \<and>
        (row_wf r \<longrightarrow> row_wf r') \<and> (k \<noteq> ep_SubmissionID p \<longrightarrow> r' = r)"
  by (rule handleExecute_row [OF assms])

theorem handleExecute_writes_own_row_witness:
  "\<exists>r'. w_table (fst (handleExecute sample_codec ''s'' default_config (sample_attempt broken_docker 2) sample_task
      (sample_world sample_row))) 7 = Some r' \<and> same_input sample_row r'"
  using handleExecute_writes_own_row [where w = "sample_world sample_row" and script = "''s''" and
      cfg = default_config and a = "sample_attempt broken_docker 2", OF sample_task_payload, THEN spec [of _ 7]]
  by auto

text \<open>
  C1. Every accepted submission is settled: however the database and the daemon behave during the first
  attempts, when the database answers and accepts the texts of the result during the last one the queue
  makes (the third), the row is
  completed or failed in the end and the task is done.
\<close>

theorem execute_task_settles:
  assumes "codec_ok (cd_marshal_exec cd) (cd_unmarshal_exec cd)"
    and "NewExecuteTask (cd_marshal_exec cd) i timeout = Inr t"
    and "w_table w i = Some r" and "Get (sub_Language r) = Some spec"
    and "\<And>n. at_count (att n) = Some (int n) \<and> at_limit (att n) = Some (t_max_retry t)"
    and "db_works script cfg spec (sub_Code r) (sub_Stdin r) (att 2)"
  shows "case process (\<lambda>n. handleExecute cd script cfg (att n) t) (nat (t_max_retry t)) 0 w of (w', res) \<Rightarrow>
    res = Finished \<and> (\<exists>r'. w_table w' i = Some r' \<and> terminal r')"
proof -
  obtain b where b: "cd_marshal_exec cd \<lparr>ep_SubmissionID = i\<rparr> = Inr b"
    "cd_unmarshal_exec cd b = Inr \<lparr>ep_SubmissionID = i\<rparr>"
    using assms(1) by (rule codec_okE)
  with assms(2) have t: "t_payload t = b" "t_max_retry t = 2" by (auto simp: NewExecuteTask_def)
  have final: "isFinalAttempt (att n) \<longleftrightarrow> 2 \<le> n" for n
    using assms(5) [of n] t(2) by (simp add: isFinalAttempt_def)
  have run: "runnable cd t spec (sub_Code r) (sub_Stdin r) w"
    using b(2) t(1) assms(3,4) by (simp add: runnable_def)
  show ?thesis
  proof (clarify)
    fix w' res
    assume "process (\<lambda>n. handleExecute cd script cfg (att n) t) (nat (t_max_retry t)) 0 w = (w', res)"
    then have "res = Finished \<and> settled_row cd t w'"
      unfolding t(2) using assms(6)
      by (intro execution.process_settles [OF run, of 0 2 att]) (simp_all add: final numeral_2_eq_2)
    with b(2) t(1) show "res = Finished \<and> (\<exists>r'. w_table w' i = Some r' \<and> terminal r')"
      by (simp add: settled_row_def)
  qed
qed

theorem execute_task_settles_witness:
  "case process (\<lambda>n. handleExecute sample_codec ''s'' default_config (sample_attempt broken_docker (int n))
      (projr (NewExecuteTask (cd_marshal_exec sample_codec) 7 second))) 2 0 (sample_world sample_row) of (w', res) \<Rightarrow>
    res = Finished \<and> (\<exists>r'. w_table w' 7 = Some r' \<and> terminal r')"
proof -
  let ?t = "projr (NewExecuteTask (cd_marshal_exec sample_codec) 7 second)"
  have t: "NewExecuteTask (cd_marshal_exec sample_codec) 7 second = Inr ?t" "t_max_retry ?t = 2"
    by (simp_all add: NewExecuteTask_def sample_codec_def)
  have "db_works ''s'' default_config python_spec (sub_Code sample_row) (sub_Stdin sample_row)
      (sample_attempt broken_docker (int 2))"
    by (auto simp: db_works_def broken_run_any)
  from execute_task_settles [of sample_codec 7 second ?t "sample_world sample_row" sample_row python_spec
      "\<lambda>n. sample_attempt broken_docker (int n)" "''s''" default_config, OF sample_codec_ok t(1) _ _ _ this]
  show ?thesis unfolding t(2) by simp
qed

text \<open>
  C35. When the database does not accept the program's output as text (invalid UTF-8, NUL bytes), the
  result cannot be stored: every attempt, also the last one, ends with the row running, asks for a
  retry and enqueues nothing, so the retries never settle the submission.
\<close>

theorem unstorable_output_never_settles:
  assumes "cd_unmarshal_exec cd (t_payload t) = Inr p" and "i = ep_SubmissionID p"
    and "w_table w i = Some r" and "\<not> terminal r" and "Get (sub_Language r) = Some spec"
    and "db_reply (at_get a) = Answered" "db_reply (at_mark a) = Answered" "db_reply (at_complete a) = Answered"
    and "Execute script cfg (at_docker a) spec (sub_Code r) (sub_Stdin r) (w_exec w) = (ex, calls, Inr out)"
    and "\<not> storable (at_complete a) out"
  shows "\<exists>w' r' e. handleExecute cd script cfg a t w = (w', Retry e) \<and>
    w_table w' i = Some r' \<and> sub_Status r' = SubmissionStatusRunning \<and> w_tasks w' = w_tasks w"
proof -
  let ?r = "set_running (at_mark a) r"
  let ?w = "w\<lparr>w_table := (w_table w)(i \<mapsto> ?r), w_exec := ex, w_calls := w_calls w @ calls\<rparr>"
  have "handleExecute cd script cfg a t w = (?w, Retry (''store result: '' @ db_message bad_text))"
    using assms by (simp add: handleExecute_open run_and_store_def CompleteSubmission_run Let_def)
  then show ?thesis
    by (intro exI [of _ ?w] exI [of _ ?r]) (simp add: set_running_def)
qed

theorem unstorable_output_never_settles_witness:
  "\<exists>w' r' e. handleExecute sample_codec ''s'' default_config (sample_attempt (docker_of ([CHR 0x00], [])) 2)
      sample_task (sample_world sample_row) = (w', Retry e) \<and> isFinalAttempt (sample_attempt (docker_of ([CHR 0x00], [])) 2) \<and>
    w_table w' 7 = Some r' \<and> sub_Status r' = SubmissionStatusRunning"
proof (rule plain_run [of "[CHR 0x00]" "sub_Code sample_row" "sub_Stdin sample_row"])
  fix ex calls
  assume "Execute ''s'' default_config (docker_of ([CHR 0x00], [])) python_spec (sub_Code sample_row)
      (sub_Stdin sample_row) warm_executor = (ex, calls, Inr (plain_outcome [CHR 0x00]))"
  then show ?thesis
    using unstorable_output_never_settles [of sample_codec sample_task "\<lparr>ep_SubmissionID = 7\<rparr>" 7
        "sample_world sample_row" sample_row python_spec "sample_attempt (docker_of ([CHR 0x00], [])) 2" "''s''"
        default_config ex calls "plain_outcome [CHR 0x00]"]
    by (auto simp: storable_def)
qed simp

text \<open>
  C25. When the database refuses the record of an engine failure on the last attempt (the record is written
  under the task's own context, which may be what ended the execution), the task is done all the same:
  the row stays running for good, and the webhook is enqueued for a submission that has not ended.
\<close>

theorem lost_failure_record:
  assumes "cd_unmarshal_exec cd (t_payload t) = Inr p" and "i = ep_SubmissionID p"
    and "w_table w i = Some r" and "\<not> terminal r" and "Get (sub_Language r) = Some spec"
    and "db_reply (at_get a) = Answered" "db_reply (at_mark a) = Answered" "db_reply (at_fail a) = Refused x"
    and "at_enqueue a = Answered" and "isFinalAttempt a"
    and "Execute script cfg (at_docker a) spec (sub_Code r) (sub_Stdin r) (w_exec w) = (ex, calls, Inl e)"
  shows "\<exists>w' r'. handleExecute cd script cfg a t w = (w', Finished) \<and> w_table w' i = Some r' \<and>
    sub_Status r' = SubmissionStatusRunning \<and> w_tasks w' = w_tasks w @ hook_tasks cd cfg r"
proof -
  let ?r = "set_running (at_mark a) r"
  let ?w = "w\<lparr>w_table := (w_table w)(i \<mapsto> ?r), w_exec := ex, w_calls := w_calls w @ calls,
    w_tasks := w_tasks w @ hook_tasks cd cfg r\<rparr>"
  have "fail (at_fail a) i msg w1 = w1" for msg w1
    using assms(8) by (simp add: fail_def FailSubmission_def statement_def)
  then have "handleExecute cd script cfg a t w = (?w, Finished)"
    using assms by (simp add: handleExecute_open run_and_store_def enqueueWebhook_Answered Let_def)
  then show ?thesis
    by (intro exI [of _ ?w] exI [of _ ?r]) (simp add: set_running_def)
qed

theorem lost_failure_record_witness:
  "\<exists>w' r'. handleExecute sample_codec ''s'' default_config
      ((sample_attempt broken_docker 2)\<lparr>at_fail := (ok_db 5)\<lparr>db_reply := Refused ''context deadline exceeded''\<rparr>\<rparr>)
      sample_task (sample_world sample_row) = (w', Finished) \<and>
    w_table w' 7 = Some r' \<and> sub_Status r' = SubmissionStatusRunning \<and> w_tasks w' \<noteq> []"
proof (rule broken_run [of "sub_Code sample_row" "sub_Stdin sample_row"])
  fix ex calls
  let ?a = "(sample_attempt broken_docker 2)\<lparr>at_fail := (ok_db 5)\<lparr>db_reply := Refused ''context deadline exceeded''\<rparr>\<rparr>"
  assume "Execute ''s'' default_config broken_docker python_spec (sub_Code sample_row)
      (sub_Stdin sample_row) warm_executor = (ex, calls, Inl ''attach: no such host'')"
  moreover have "isFinalAttempt ?a" by (simp add: isFinalAttempt_def)
  moreover have "hook_tasks sample_codec default_config sample_row \<noteq> []"
    by (simp add: hook_tasks_def NewWebhookTask_def sample_codec_def)
  ultimately show ?thesis
    using lost_failure_record [of sample_codec sample_task "\<lparr>ep_SubmissionID = 7\<rparr>" 7
        "sample_world sample_row" sample_row python_spec ?a "''context deadline exceeded''" "''s''"
        default_config ex calls "''attach: no such host''"]
    by auto
qed

text \<open>
  A submission whose language is no longer registered becomes failed, but no webhook task is
  enqueued for it, even if it has a webhook address.
\<close>

theorem unsupported_language_no_webhook:
  assumes "cd_unmarshal_exec cd (t_payload t) = Inr p" and "i = ep_SubmissionID p"
    and "w_table w i = Some r" and "\<not> terminal r" and "Get (sub_Language r) = None"
    and "db_reply (at_get a) = Answered" "db_reply (at_fail a) = Answered"
    and "db_text_ok (at_fail a) (''unsupported language '' @ sub_Language r)"
  shows "\<exists>w' r'. handleExecute cd script cfg a t w = (w', Finished) \<and>
    w_table w' i = Some r' \<and> sub_Status r' = SubmissionStatusFailed \<and> w_tasks w' = w_tasks w"
proof -
  let ?r = "set_failed (at_fail a)
    \<lparr>fs_ID = i, fs_Error = Some (''unsupported language '' @ sub_Language r)\<rparr> r"
  have "handleExecute cd script cfg a t w = (w\<lparr>w_table := (w_table w)(i \<mapsto> ?r)\<rparr>, Finished)"
    using assms
    by (simp add: handleExecute_def GetSubmission_Answered fail_run terminal_def [of r] Let_def)
  then show ?thesis
    by (intro exI [of _ "w\<lparr>w_table := (w_table w)(i \<mapsto> ?r)\<rparr>"] exI [of _ ?r]) (simp add: set_failed_def)
qed

theorem unsupported_language_no_webhook_witness:
  "\<exists>w' r'. handleExecute sample_codec ''s'' default_config (sample_attempt sample_docker 0) sample_task
      (sample_world (sample_row\<lparr>sub_Language := ''cobol''\<rparr>)) = (w', Finished) \<and>
    w_table w' 7 = Some r' \<and> sub_Status r' = SubmissionStatusFailed \<and> w_tasks w' = []"
  using unsupported_language_no_webhook [of sample_codec sample_task "\<lparr>ep_SubmissionID = 7\<rparr>" 7
      "sample_world (sample_row\<lparr>sub_Language := ''cobol''\<rparr>)" "sample_row\<lparr>sub_Language := ''cobol''\<rparr>"
      "sample_attempt sample_docker 0" "''s''" default_config]
  by (simp add: Get_def registry_def terminal_def sample_row_def new_row_def)

text \<open>
  C26. A delivery task never changes a submission and never enqueues anything; it sends at most one
  request, to the address of the task; it is done exactly when the receiver answered 2xx, and otherwise
  it is retried, except when its payload is unreadable or the submission does not exist.
\<close>

theorem handleWebhook_delivers:
  assumes "cd_unmarshal_hook cd (t_payload t) = Inr p" and "w_table w (wp_SubmissionID p) = Some r"
  shows "\<exists>rqs res. handleWebhook cd cfg send a t w = (w\<lparr>w_requests := w_requests w @ rqs\<rparr>, res) \<and>
    length rqs \<le> 1 \<and> (\<forall>rq\<in>set rqs. rq_URL rq = wp_URL p) \<and> (\<forall>e. res \<noteq> SkipRetry e) \<and>
    (res = Finished \<longleftrightarrow>
      (\<exists>rq rs. rqs = [rq] \<and> send rq = Inr rs \<and> 200 \<le> rs_StatusCode rs \<and> rs_StatusCode rs < 300))"
proof (cases "GetSubmission (at_get a) (wp_SubmissionID p) (w_table w)")
  case (Inl e)
  with assms GetSubmission_row [OF assms(2), of "at_get a"] show ?thesis
    by (intro exI [of _ "[]"]) (auto simp: handleWebhook_def Let_def)
next
  case (Inr sub)
  obtain rqs err where d: "Deliver (New (WebhookTimeout cfg)) send (wp_URL p) (cd_json cd (buildWebhookBody sub)) = (rqs, err)"
    by (cases "Deliver (New (WebhookTimeout cfg)) send (wp_URL p) (cd_json cd (buildWebhookBody sub))") auto
  with Deliver_spec [OF d] assms Inr show ?thesis
    by (intro exI [of _ rqs]) (auto simp: handleWebhook_def Let_def split: option.splits)
qed

theorem handleWebhook_delivers_witness:
  "\<exists>rqs res. handleWebhook sample_codec default_config
      (\<lambda>_. Inr \<lparr>rs_StatusCode = 204, rs_Status = ''204 No Content'', rs_Location = None\<rparr>)
      (sample_attempt sample_docker 0) (sample_task\<lparr>t_payload := ''xxxxxxx:https://example.com/hook''\<rparr>)
      (sample_world sample_row) = ((sample_world sample_row)\<lparr>w_requests := rqs\<rparr>, res) \<and> length rqs \<le> 1"
  using handleWebhook_delivers [of sample_codec "sample_task\<lparr>t_payload := ''xxxxxxx:https://example.com/hook''\<rparr>"
      "\<lparr>wp_SubmissionID = 7, wp_URL = ''https://example.com/hook''\<rparr>" "sample_world sample_row" sample_row
      default_config "\<lambda>_. Inr \<lparr>rs_StatusCode = 204, rs_Status = ''204 No Content'', rs_Location = None\<rparr>"
      "sample_attempt sample_docker 0"]
  by (auto simp: sample_codec_def sample_world_def)

end
