(* ===== verification/Ocee_Api.thy ===== *)
theory Ocee_Api
  imports Ocee_Worker
begin

text \<open>
  The REST interface: package \<^verbatim>\<open>api\<close> (\<^verbatim>\<open>src/internal/api/handlers.go\<close>, \<^verbatim>\<open>dto.go\<close>, \<^verbatim>\<open>server.go\<close>). A request gets
  an \<open>api_call\<close>: what the JSON decoder makes of the body, how the database, the queue and the resolver
  behave during the call, and the fresh UUID. A handler returns the new state and the reply.
  Shown: which requests are accepted and what an acceptance guarantees, that a refused request leaves no
  trace, what the fault paths leave behind, paging bounds, and how every request is answered and logged,
  also when its handler panics.
\<close>

section \<open>Messages\<close>

record createSubmissionRequest =
  cr_Language :: string
  cr_Code :: string
  cr_Stdin :: string
  cr_WebhookURL :: string

record metrics =
  me_CPUTimeMS :: "int option"
  me_WallTimeMS :: "int option"
  me_MemoryKB :: "int option"

record submissionResponse =
  sr_ID :: uuid
  sr_Language :: string
  sr_Status :: string
  sr_Stdout :: "string option"
  sr_Stderr :: "string option"
  sr_ExitCode :: "int option"
  sr_CompileOutput :: "string option"
  sr_TimedOut :: bool
  sr_OOMKilled :: bool
  sr_Metrics :: "metrics option"
  sr_Error :: "string option"
  sr_CreatedAt :: time
  sr_StartedAt :: "time option"
  sr_FinishedAt :: "time option"

definition toResponse :: "Submission \<Rightarrow> submissionResponse" where
  "toResponse s =
     (let r = \<lparr>sr_ID = sub_ID s, sr_Language = sub_Language s, sr_Status = sub_Status s,
           sr_Stdout = sub_Stdout s, sr_Stderr = sub_Stderr s, sr_ExitCode = sub_ExitCode s,
           sr_CompileOutput = sub_CompileOutput s, sr_TimedOut = sub_TimedOut s,
           sr_OOMKilled = sub_OomKilled s, sr_Metrics = None, sr_Error = sub_Error s,
           sr_CreatedAt = sub_CreatedAt s, sr_StartedAt = sub_StartedAt s,
           sr_FinishedAt = sub_FinishedAt s\<rparr>
      in if sub_CpuTimeMs s \<noteq> None \<or> sub_WallTimeMs s \<noteq> None \<or> sub_MemoryKb s \<noteq> None
         then r\<lparr>sr_Metrics := Some \<lparr>me_CPUTimeMS = sub_CpuTimeMs s, me_WallTimeMS = sub_WallTimeMs s,
                  me_MemoryKB = sub_MemoryKb s\<rparr>\<rparr>
         else r)"

text \<open>The JSON form given by the field tags; a field marked \<^verbatim>\<open>omitempty\<close> is left out when it is nil.\<close>

definition omitempty :: "string \<Rightarrow> ('a \<Rightarrow> json) \<Rightarrow> 'a option \<Rightarrow> (string \<times> json) list" where
  "omitempty k f x = (case x of None \<Rightarrow> [] | Some v \<Rightarrow> [(k, f v)])"

definition metrics_json :: "metrics \<Rightarrow> json" where
  "metrics_json m = JObject
     [(''cpu_time_ms'', jopt JInt (me_CPUTimeMS m)), (''wall_time_ms'', jopt JInt (me_WallTimeMS m)),
      (''memory_kb'', jopt JInt (me_MemoryKB m))]"

definition submission_json :: "submissionResponse \<Rightarrow> json" where
  "submission_json r = JObject
     ([(''id'', JUuid (sr_ID r)), (''language'', JString (sr_Language r)),
       (''status'', JString (sr_Status r)), (''stdout'', jopt JString (sr_Stdout r)),
       (''stderr'', jopt JString (sr_Stderr r)), (''exit_code'', jopt JInt (sr_ExitCode r))] @
      omitempty ''compile_output'' JString (sr_CompileOutput r) @
      [(''timed_out'', JBool (sr_TimedOut r)), (''oom_killed'', JBool (sr_OOMKilled r))] @
      omitempty ''metrics'' metrics_json (sr_Metrics r) @
      omitempty ''error'' JString (sr_Error r) @
      [(''created_at'', JTime (sr_CreatedAt r))] @
      omitempty ''started_at'' JTime (sr_StartedAt r) @
      omitempty ''finished_at'' JTime (sr_FinishedAt r))"

record reply =
  rp_status :: int
  rp_location :: "string option"
  rp_body :: json

definition writeJSON :: "int \<Rightarrow> json \<Rightarrow> reply" where
  "writeJSON status body = \<lparr>rp_status = status, rp_location = None, rp_body = body\<rparr>"

definition errorResponse :: "string \<Rightarrow> json" where
  "errorResponse msg = JObject [(''error'', JString msg)]"

definition writeError :: "int \<Rightarrow> string \<Rightarrow> reply" where
  "writeError status msg = writeJSON status (errorResponse msg)"

definition createSubmissionResponse :: "uuid \<Rightarrow> string \<Rightarrow> time \<Rightarrow> string \<Rightarrow> json" where
  "createSubmissionResponse i status created url = JObject
     [(''id'', JUuid i), (''status'', JString status), (''created_at'', JTime created),
      (''result_url'', JString url)]"

section \<open>Submitting\<close>

text \<open>
  What \<^verbatim>\<open>dec.Decode\<close> makes of a body of which at most the given number of bytes may be read:
  the first value, and whether nothing but the end of the input follows it.
\<close>

datatype decode_result = BodyTooLarge | DecodeError string | Decoded createSubmissionRequest

record api_call =
  ac_decode :: "int \<Rightarrow> decode_result"
  ac_then_EOF :: "int \<Rightarrow> bool"
  ac_uuid :: uuid
  ac_create :: db_env
  ac_fail :: db_env
  ac_enqueue :: db_reply
  ac_lookupIP :: "string \<Rightarrow> IP list option"
  ac_quote :: "string \<Rightarrow> string"
  ac_lower :: "string \<Rightarrow> string"

definition body_limit :: "Config \<Rightarrow> int" where
  "body_limit cfg = wrap64 (MaxCodeBytes cfg + MaxStdinBytes cfg + 4096)"

definition taskTimeout :: "Config \<Rightarrow> duration" where
  "taskTimeout cfg = wrap64 (CompileTimeout cfg + RunTimeout cfg + 90 * second)"

text \<open>
  The checks on a decoded request: an error reply, or the language and the webhook address.
\<close>

definition check_request ::
  "Config \<Rightarrow> api_call \<Rightarrow> createSubmissionRequest \<Rightarrow> reply + Spec \<times> string option" where
  "check_request cfg c req =
     (case Get (ToLower (ac_lower c) (TrimSpace (cr_Language req))) of
        None \<Rightarrow> Inl (writeError 400
          (''unsupported language '' @ ac_quote c (cr_Language req) @ ''; see GET /v1/languages''))
      | Some spec \<Rightarrow>
          if TrimSpace (cr_Code req) = [] then Inl (writeError 400 ''code is required'')
          else if int (length (cr_Code req)) > MaxCodeBytes cfg then
            Inl (writeError 413 (''code exceeds '' @ Itoa (MaxCodeBytes cfg) @ '' bytes''))
          else if int (length (cr_Stdin req)) > MaxStdinBytes cfg then
            Inl (writeError 413 (''stdin exceeds '' @ Itoa (MaxStdinBytes cfg) @ '' bytes''))
          else if \<not> ValidString (cr_Code req) \<or> \<not> ValidString (cr_Stdin req) then
            Inl (writeError 400 ''code and stdin must be valid UTF-8'')
          else
            let u = TrimSpace (cr_WebhookURL req) in
            if u = [] then Inr (spec, None)
            else (case Validate (ac_lookupIP c) u (WebhookAllowPrivate cfg) of
                Some err \<Rightarrow> Inl (writeError 400 err)
              | None \<Rightarrow> Inr (spec, Some u)))"

text \<open>The part of \<open>handleCreateSubmission\<close> after the checks: persist, then enqueue.\<close>

definition persist_and_enqueue ::
  "codec \<Rightarrow> Config \<Rightarrow> api_call \<Rightarrow> createSubmissionRequest \<Rightarrow> Spec \<Rightarrow> string option \<Rightarrow> world \<Rightarrow>
   world \<times> reply" where
  "persist_and_enqueue cd cfg c req spec webhookURL w =
     (let i = ac_uuid c in
      case CreateSubmission (ac_create c)
          \<lparr>cp_ID = i, cp_Language = spec_ID spec, cp_Code = cr_Code req, cp_Stdin = cr_Stdin req,
           cp_WebhookUrl = webhookURL\<rparr> (w_table w) of
        (tbl, Inl e) \<Rightarrow> (w\<lparr>w_table := tbl\<rparr>, writeError 500 ''could not persist submission'')
      | (tbl, Inr sub) \<Rightarrow>
          let w1 = w\<lparr>w_table := tbl\<rparr> in
          (case NewExecuteTask (cd_marshal_exec cd) i (taskTimeout cfg) of
             Inl e \<Rightarrow> (w1, writeError 500 ''could not enqueue submission'')
           | Inr t \<Rightarrow>
               (case EnqueueContext (ac_enqueue c) t w1 of
                  (w2, Some e) \<Rightarrow>
                    (w2\<lparr>w_table := fst (FailSubmission (ac_fail c)
                           \<lparr>fs_ID = i, fs_Error = Some ''could not enqueue execution job''\<rparr> (w_table w2))\<rparr>,
                     writeError 503 ''execution queue unavailable'')
                | (w2, None) \<Rightarrow>
                    let url = ''/v1/submissions/'' @ cd_uuid_String cd i in
                    (w2, (writeJSON 202 (createSubmissionResponse (sub_ID sub) (sub_Status sub)
                            (sub_CreatedAt sub) url))\<lparr>rp_location := Some url\<rparr>))))"

definition handleCreateSubmission :: "codec \<Rightarrow> Config \<Rightarrow> api_call \<Rightarrow> world \<Rightarrow> world \<times> reply" where
  "handleCreateSubmission cd cfg c w =
     (let limit = body_limit cfg in
      case ac_decode c limit of
        BodyTooLarge \<Rightarrow> (w, writeError 413 (''request body exceeds '' @ Itoa limit @ '' bytes''))
      | DecodeError e \<Rightarrow> (w, writeError 400 (''invalid JSON body: '' @ e))
      | Decoded req \<Rightarrow>
          if \<not> ac_then_EOF c limit
          then (w, writeError 400 ''body must contain exactly one JSON object'')
          else (case check_request cfg c req of
              Inl rp \<Rightarrow> (w, rp)
            | Inr (spec, webhookURL) \<Rightarrow> persist_and_enqueue cd cfg c req spec webhookURL w))"

section \<open>Reading\<close>

definition handleGetSubmission :: "codec \<Rightarrow> db_env \<Rightarrow> string \<Rightarrow> world \<Rightarrow> reply" where
  "handleGetSubmission cd de raw w =
     (case cd_uuid_Parse cd raw of
        None \<Rightarrow> writeError 400 ''id must be a UUID''
      | Some i \<Rightarrow>
          (case GetSubmission de i (w_table w) of
             Inl e \<Rightarrow>
               if e = ErrNoRows then writeError 404 ''submission not found''
               else writeError 500 ''could not read submission''
           | Inr sub \<Rightarrow> writeJSON 200 (submission_json (toResponse sub))))"

definition clampQueryInt :: "(string \<Rightarrow> string) \<Rightarrow> string \<Rightarrow> int \<Rightarrow> int \<Rightarrow> int \<Rightarrow> int" where
  "clampQueryInt query key def lo hi =
     (let raw = query key in
      if raw = [] then def
      else (case Atoi raw of
          Inl _ \<Rightarrow> def
        | Inr n \<Rightarrow> if n < lo then lo else if n > hi then hi else n))"

definition page_limit :: "Config \<Rightarrow> (string \<Rightarrow> string) \<Rightarrow> int" where
  "page_limit cfg query = wrap32 (clampQueryInt query ''limit'' 20 1 (DefaultPageCap cfg))"

definition page_offset :: "(string \<Rightarrow> string) \<Rightarrow> int" where
  "page_offset query = wrap32 (clampQueryInt query ''offset'' 0 0 1000000)"

definition handleListSubmissions ::
  "Config \<Rightarrow> (table \<Rightarrow> Submission list) \<Rightarrow> db_env \<Rightarrow> (string \<Rightarrow> string) \<Rightarrow> world \<Rightarrow> reply" where
  "handleListSubmissions cfg scan de query w =
     (let limit = page_limit cfg query; offset = page_offset query in
      case ListSubmissions scan de \<lparr>ls_Limit = limit, ls_Offset = offset\<rparr> (w_table w) of
        Inl e \<Rightarrow> writeError 500 ''could not list submissions''
      | Inr rows \<Rightarrow> writeJSON 200 (JObject
          [(''submissions'', JList (map (submission_json \<circ> toResponse) rows)),
           (''limit'', JInt limit), (''offset'', JInt offset)]))"

definition spec_json :: "Spec \<Rightarrow> json" where
  "spec_json s = JObject
     ([(''id'', JString (spec_ID s)), (''name'', JString (spec_Name s)),
       (''version'', JString (spec_Version s)), (''image'', JString (spec_Image s)),
       (''filename'', JString (spec_Filename s))] @
      (if spec_Notes s = [] then [] else [(''notes'', JString (spec_Notes s))]))"

definition handleListLanguages :: "registry \<Rightarrow> reply" where
  "handleListLanguages it = writeJSON 200 (JObject [(''languages'', JList (map spec_json (All it)))])"

definition handleHealthz :: reply where
  "handleHealthz = writeJSON 200 (JObject [(''status'', JString ''ok'')])"

definition handleReadyz :: "string option \<Rightarrow> string option \<Rightarrow> reply" where
  "handleReadyz pg redis =
     writeJSON (if pg = None \<and> redis = None then 200 else 503)
       (JObject [(''checks'', JObject
          [(''postgres'', JString (case pg of None \<Rightarrow> ''ok'' | Some e \<Rightarrow> e)),
           (''redis'', JString (case redis of None \<Rightarrow> ''ok'' | Some e \<Rightarrow> e))])])"

section \<open>Routing and middleware\<close>

datatype api_handler =
  HCreateSubmission | HGetSubmission | HListSubmissions | HListLanguages | HHealthz | HReadyz

definition Routes :: "((string \<times> string list) \<times> api_handler) list" where
  "Routes =
     [((''POST'', [''v1'', ''submissions'']), HCreateSubmission),
      ((''GET'', [''v1'', ''submissions'', ''{id}'']), HGetSubmission),
      ((''GET'', [''v1'', ''submissions'']), HListSubmissions),
      ((''GET'', [''v1'', ''languages'']), HListLanguages),
      ((''GET'', [''healthz'']), HHealthz),
      ((''GET'', [''readyz'']), HReadyz)]"

text \<open>
  \<^verbatim>\<open>http.ServeMux\<close> on a path given as its segments: a path with empty or dot segments is redirected to its clean
  form, a wildcard matches one non-empty segment, GET also matches HEAD, and a path that only matches
  under other methods is answered with 405.
\<close>

definition segment_matches :: "string \<Rightarrow> string \<Rightarrow> bool" where
  "segment_matches pat seg = (if pat = ''{id}'' then seg \<noteq> [] else pat = seg)"

definition path_matches :: "string list \<Rightarrow> string list \<Rightarrow> bool" where
  "path_matches pat path = list_all2 segment_matches pat path"

definition method_matches :: "string \<Rightarrow> string \<Rightarrow> bool" where
  "method_matches pat m = (pat = m \<or> pat = ''GET'' \<and> m = ''HEAD'')"

definition unclean :: "string list \<Rightarrow> bool" where
  "unclean path = (''.'' \<in> set path \<or> ''..'' \<in> set path \<or> [] \<in> set (butlast path))"

datatype routed = Handled api_handler | Moved | MethodNotAllowed | NotFound

definition route :: "string \<Rightarrow> string list \<Rightarrow> routed" where
  "route m path =
     (if m \<noteq> ''CONNECT'' \<and> unclean path then Moved
      else case filter (\<lambda>((pm, pp), _). method_matches pm m \<and> path_matches pp path) Routes of
        (_, h) # _ \<Rightarrow> Handled h
      | [] \<Rightarrow> if list_ex (\<lambda>((_, pp), _). path_matches pp path) Routes then MethodNotAllowed else NotFound)"

text \<open>
  What a handler does with its \<^verbatim>\<open>http.ResponseWriter\<close>, and the writer of package \<^verbatim>\<open>net/http\<close>: only the
  first status counts, and writing a body first sends the status 200.
\<close>

datatype writer_op = WriteHeader int | WriteBody json

record http_writer =
  hw_status :: "int option"
  hw_body :: "json list"

fun writer_do :: "writer_op \<Rightarrow> http_writer \<Rightarrow> http_writer" where
  "writer_do (WriteHeader code) w = (if hw_status w = None then w\<lparr>hw_status := Some code\<rparr> else w)"
| "writer_do (WriteBody b) w =
     (if hw_status w = None then w\<lparr>hw_status := Some 200, hw_body := hw_body w @ [b]\<rparr>
      else w\<lparr>hw_body := hw_body w @ [b]\<rparr>)"

record statusRecorder =
  re_ResponseWriter :: http_writer
  re_status :: int
  re_wroteHeader :: bool

fun recorder_do :: "writer_op \<Rightarrow> statusRecorder \<Rightarrow> statusRecorder" where
  "recorder_do (WriteHeader code) r =
     (if re_wroteHeader r then r
      else \<lparr>re_ResponseWriter = writer_do (WriteHeader code) (re_ResponseWriter r), re_status = code,
            re_wroteHeader = True\<rparr>)"
| "recorder_do (WriteBody b) r =
     r\<lparr>re_ResponseWriter := writer_do (WriteBody b) (re_ResponseWriter r)\<rparr>"

text \<open>
  A run of a handler is the list of its writes and whether it then panicked. The log line of
  \<open>requestLogger\<close> is its status, \<^const>\<open>None\<close> if a panic passes through before it is written.
\<close>

type_synonym handler_run = "writer_op list \<times> bool"

definition requestLogger :: "handler_run \<Rightarrow> http_writer \<Rightarrow> http_writer \<times> int option" where
  "requestLogger run w =
     (case run of (ops, panicked) \<Rightarrow>
        let rec = fold recorder_do ops \<lparr>re_ResponseWriter = w, re_status = 200, re_wroteHeader = False\<rparr>
        in (re_ResponseWriter rec, if panicked then None else Some (re_status rec)))"

definition recoverer :: "handler_run \<Rightarrow> http_writer \<Rightarrow> http_writer \<times> int option" where
  "recoverer run w =
     (case requestLogger run w of (w1, line) \<Rightarrow>
        if snd run
        then (fold writer_do [WriteHeader 500, WriteBody (errorResponse ''internal error'')] w1, line)
        else (w1, line))"

definition reply_ops :: "reply \<Rightarrow> writer_op list" where
  "reply_ops rp = [WriteHeader (rp_status rp), WriteBody (rp_body rp)]"

definition empty_writer :: http_writer where
  "empty_writer = \<lparr>hw_status = None, hw_body = []\<rparr>"

text \<open>
  The composition of \<open>Routes\<close>: a request goes through the middleware and the mux to its handler. The
  environment of a request has the parts the handlers take, and whether the handler panics: after how
  many of its writes, and what it had done to the state until then. The mux answers what it does not route
  with a plain text; a redirect has a body for GET only.
\<close>

record http_request =
  hr_method :: string
  hr_path :: "string list"
  hr_query :: "string \<Rightarrow> string"

record serve_env =
  se_call :: api_call
  se_db :: db_env
  se_scan :: "table \<Rightarrow> Submission list"
  se_postgres :: "string option"
  se_redis :: "string option"
  se_registry :: registry
  se_panic :: "(nat \<times> (world \<Rightarrow> world)) option"

definition dispatch ::
  "codec \<Rightarrow> Config \<Rightarrow> serve_env \<Rightarrow> http_request \<Rightarrow> world \<Rightarrow> world \<times> writer_op list" where
  "dispatch cd cfg se rq w =
     (case route (hr_method rq) (hr_path rq) of
        Handled HCreateSubmission \<Rightarrow>
          (case handleCreateSubmission cd cfg (se_call se) w of (w', rp) \<Rightarrow> (w', reply_ops rp))
      | Handled HGetSubmission \<Rightarrow>
          (w, reply_ops (handleGetSubmission cd (se_db se) (last (hr_path rq)) w))
      | Handled HListSubmissions \<Rightarrow>
          (w, reply_ops (handleListSubmissions cfg (se_scan se) (se_db se) (hr_query rq) w))
      | Handled HListLanguages \<Rightarrow> (w, reply_ops (handleListLanguages (se_registry se)))
      | Handled HHealthz \<Rightarrow> (w, reply_ops handleHealthz)
      | Handled HReadyz \<Rightarrow> (w, reply_ops (handleReadyz (se_postgres se) (se_redis se)))
      | Moved \<Rightarrow>
          (w, WriteHeader 301 # (if hr_method rq = ''GET'' then [WriteBody (JString ''Moved Permanently'')] else []))
      | MethodNotAllowed \<Rightarrow> (w, [WriteHeader 405, WriteBody (JString ''Method Not Allowed'')])
      | NotFound \<Rightarrow> (w, [WriteHeader 404, WriteBody (JString ''404 page not found'')]))"

text \<open>
  What the client gets: status 200 if none was written, and no body in the answer to HEAD. The result of
  \<open>serve\<close> is the state, what the client gets, and the status in the log, if the request is logged.
\<close>

definition client_view :: "http_request \<Rightarrow> http_writer \<Rightarrow> int \<times> json list" where
  "client_view rq wr =
     (case hw_status wr of None \<Rightarrow> 200 | Some code \<Rightarrow> code, if hr_method rq = ''HEAD'' then [] else hw_body wr)"

definition serve ::
  "codec \<Rightarrow> Config \<Rightarrow> serve_env \<Rightarrow> http_request \<Rightarrow> world \<Rightarrow> world \<times> (int \<times> json list) \<times> int option" where
  "serve cd cfg se rq w =
     (case dispatch cd cfg se rq w of (w', ops) \<Rightarrow>
        (case se_panic se of
           None \<Rightarrow> (case recoverer (ops, False) empty_writer of (wr, line) \<Rightarrow> (w', client_view rq wr, line))
         | Some (k, part) \<Rightarrow>
             (case recoverer (take k ops, True) empty_writer of (wr, line) \<Rightarrow> (part w, client_view rq wr, line))))"

section \<open>Facts\<close>

lemma check_request_Inl: "check_request cfg c req = Inl rp \<Longrightarrow> rp_status rp = 400 \<or> rp_status rp = 413"
  by (auto simp: check_request_def writeError_def writeJSON_def Let_def split: option.splits if_splits)

lemma check_request_Inr:
  assumes "check_request cfg c req = Inr (spec, url)"
  shows "Get (spec_ID spec) = Some spec" and "TrimSpace (cr_Code req) \<noteq> []"
    and "int (length (cr_Code req)) \<le> MaxCodeBytes cfg" "int (length (cr_Stdin req)) \<le> MaxStdinBytes cfg"
    and "ValidString (cr_Code req)" "ValidString (cr_Stdin req)"
    and "case url of None \<Rightarrow> TrimSpace (cr_WebhookURL req) = []
      | Some u \<Rightarrow> u = TrimSpace (cr_WebhookURL req) \<and> u \<noteq> [] \<and>
          Validate (ac_lookupIP c) u (WebhookAllowPrivate cfg) = None"
proof -
  have "\<exists>k. Get k = Some spec"
    using assms by (auto simp: check_request_def Let_def split: option.splits if_splits)
  then show "Get (spec_ID spec) = Some spec" by (auto dest: Get_ID)
qed (use assms in \<open>auto simp: check_request_def Let_def split: option.splits if_splits\<close>)

lemma create_status:
  "rp_status (writeError n msg) = n" "rp_status (writeJSON n b) = n"
  by (simp_all add: writeError_def writeJSON_def)

text \<open>A submission that is not refused got through the checks.\<close>

lemma handleCreate_cases:
  obtains (refused) rp where "handleCreateSubmission cd cfg c w = (w, rp)" "rp_status rp = 400 \<or> rp_status rp = 413"
  | (checked) req spec url where "ac_decode c (body_limit cfg) = Decoded req"
      "check_request cfg c req = Inr (spec, url)"
      "handleCreateSubmission cd cfg c w = persist_and_enqueue cd cfg c req spec url w"
proof (cases "ac_decode c (body_limit cfg)")
  case (Decoded req)
  show thesis
  proof (cases "ac_then_EOF c (body_limit cfg)")
    case eof: True
    show thesis
    proof (cases "check_request cfg c req")
      case (Inl rp)
      with Decoded eof check_request_Inl [OF Inl] show thesis
        by (intro refused) (auto simp: handleCreateSubmission_def Let_def)
    next
      case (Inr x)
      with Decoded eof show thesis
        by (cases x) (auto intro: checked simp: handleCreateSubmission_def Let_def)
    qed
  next
    case False
    with Decoded show thesis
      by (intro refused) (auto simp: handleCreateSubmission_def create_status Let_def)
  qed
qed (auto intro!: refused simp: handleCreateSubmission_def create_status Let_def)

lemma CreateSubmission_Inr:
  assumes "CreateSubmission de a tbl = (tbl', Inr sub)"
  shows "tbl (cp_ID a) = None" "sub = new_row de a" "tbl' = tbl(cp_ID a \<mapsto> new_row de a)"
  using assms by (auto simp: CreateSubmission_def statement_def split: db_reply.splits if_splits)

definition request_params :: "api_call \<Rightarrow> createSubmissionRequest \<Rightarrow> Spec \<Rightarrow> string option \<Rightarrow> CreateSubmissionParams" where
  "request_params c req spec url =
     \<lparr>cp_ID = ac_uuid c, cp_Language = spec_ID spec, cp_Code = cr_Code req, cp_Stdin = cr_Stdin req,
      cp_WebhookUrl = url\<rparr>"

text \<open>The ways \<^const>\<open>persist_and_enqueue\<close> ends.\<close>

lemma persist_cases:
  assumes "persist_and_enqueue cd cfg c req spec url w = (w', rp)"
  obtains (not_stored) e where
      "CreateSubmission (ac_create c) (request_params c req spec url) (w_table w) = (w_table w', Inl e)"
      "w' = w\<lparr>w_table := w_table w'\<rparr>" "rp_status rp = 500"
  | (no_task) e where
      "CreateSubmission (ac_create c) (request_params c req spec url) (w_table w) =
        (w_table w', Inr (new_row (ac_create c) (request_params c req spec url)))"
      "NewExecuteTask (cd_marshal_exec cd) (ac_uuid c) (taskTimeout cfg) = Inl e"
      "w' = w\<lparr>w_table := w_table w'\<rparr>" "rp_status rp = 500"
  | (not_enqueued) tbl t where
      "CreateSubmission (ac_create c) (request_params c req spec url) (w_table w) =
        (tbl, Inr (new_row (ac_create c) (request_params c req spec url)))"
      "NewExecuteTask (cd_marshal_exec cd) (ac_uuid c) (taskTimeout cfg) = Inr t"
      "w_table w' = fst (FailSubmission (ac_fail c)
         \<lparr>fs_ID = ac_uuid c, fs_Error = Some ''could not enqueue execution job''\<rparr> tbl)"
      "w' = w\<lparr>w_table := w_table w', w_tasks := w_tasks w'\<rparr>"
      "w_tasks w' = w_tasks w \<or> w_tasks w' = w_tasks w @ [t]" "rp_status rp = 503"
  | (accepted) t where
      "CreateSubmission (ac_create c) (request_params c req spec url) (w_table w) =
        (w_table w', Inr (new_row (ac_create c) (request_params c req spec url)))"
      "NewExecuteTask (cd_marshal_exec cd) (ac_uuid c) (taskTimeout cfg) = Inr t"
      "w' = w\<lparr>w_table := w_table w', w_tasks := w_tasks w @ [t]\<rparr>" "rp_status rp = 202"
      "rp_location rp = Some (''/v1/submissions/'' @ cd_uuid_String cd (ac_uuid c))"
proof -
  obtain tbl r where cre: "CreateSubmission (ac_create c) (request_params c req spec url) (w_table w) = (tbl, r)"
    by (cases "CreateSubmission (ac_create c) (request_params c req spec url) (w_table w)") auto
  show thesis
  proof (cases r)
    case (Inl e)
    with cre assms show thesis
      by (intro not_stored) (auto simp: persist_and_enqueue_def request_params_def create_status)
  next
    case r: (Inr sub)
    note cre' = cre [unfolded r]
    note sub = CreateSubmission_Inr(2) [OF cre']
    show thesis
    proof (cases "NewExecuteTask (cd_marshal_exec cd) (ac_uuid c) (taskTimeout cfg)")
      case (Inl e)
      with cre' sub assms show thesis
        by (intro no_task) (auto simp: persist_and_enqueue_def request_params_def create_status Let_def)
    next
      case (Inr t)
      show thesis
      proof (cases "ac_enqueue c = Answered")
        case True
        with cre' sub Inr assms show thesis
          by (intro accepted) (auto simp: persist_and_enqueue_def request_params_def create_status
              EnqueueContext_def Let_def writeJSON_def)
      next
        case False
        with cre' sub Inr assms show thesis
          by (intro not_enqueued) (auto simp: persist_and_enqueue_def request_params_def create_status
              EnqueueContext_def Let_def split: db_reply.splits)
      qed
    qed
  qed
qed

section \<open>Sample data\<close>

definition sample_request :: createSubmissionRequest where
  "sample_request = \<lparr>cr_Language = ''Python '', cr_Code = ''print(6)'', cr_Stdin = [], cr_WebhookURL = []\<rparr>"

definition sample_call :: api_call where
  "sample_call =
     \<lparr>ac_decode = (\<lambda>_. Decoded sample_request), ac_then_EOF = (\<lambda>_. True), ac_uuid = 7, ac_create = ok_db 1,
      ac_fail = ok_db 2, ac_enqueue = Answered, ac_lookupIP = (\<lambda>_. None), ac_quote = (\<lambda>s. s),
      ac_lower = (\<lambda>s. s)\<rparr>"

definition empty_world :: world where
  "empty_world = \<lparr>w_table = Map.empty, w_tasks = [], w_exec = fresh_executor, w_calls = [], w_requests = []\<rparr>"

lemma sample_call_simps [simp]:
  "ac_decode sample_call n = Decoded sample_request" "ac_then_EOF sample_call n" "ac_uuid sample_call = 7"
  "ac_create sample_call = ok_db 1" "ac_fail sample_call = ok_db 2" "ac_enqueue sample_call = Answered"
  "w_table empty_world = Map.empty" "w_tasks empty_world = []"
  by (simp_all add: sample_call_def empty_world_def)

lemma sample_checked: "check_request default_config sample_call sample_request = Inr (python_spec, None)"
proof -
  have "TrimSpace ''Python '' = ''Python''" "TrimSpace ''print(6)'' = ''print(6)''" "TrimSpace [] = []"
    "ToLower (ac_lower sample_call) ''Python'' = ''python''" "ValidString ''print(6)''" "ValidString []"
    by code_simp+
  then show ?thesis
    by (simp add: check_request_def sample_request_def)
qed

lemma sample_create:
  "snd (handleCreateSubmission sample_codec default_config sample_call empty_world) =
     (writeJSON 202 (createSubmissionResponse 7 SubmissionStatusQueued 1 ''/v1/submissions/xxxxxxx''))
       \<lparr>rp_location := Some ''/v1/submissions/xxxxxxx''\<rparr>"
  "w_table (fst (handleCreateSubmission sample_codec default_config sample_call empty_world)) 7 =
     Some (new_row (ok_db 1) (request_params sample_call sample_request python_spec None))"
  using sample_checked
  by (simp_all add: handleCreateSubmission_def persist_and_enqueue_def CreateSubmission_def statement_def
      NewExecuteTask_def EnqueueContext_def sample_codec_def opt_text_ok_def request_params_def Let_def)
    (simp_all add: sample_request_def python_spec_def new_row_def numeral_eq_Suc)

section \<open>Properties\<close>

lemma new_row_fields [simp]:
  "sub_Status (new_row de a) = SubmissionStatusQueued" "sub_Language (new_row de a) = cp_Language a"
  "sub_Code (new_row de a) = cp_Code a" "sub_Stdin (new_row de a) = cp_Stdin a"
  "sub_WebhookUrl (new_row de a) = cp_WebhookUrl a"
  by (simp_all add: new_row_def)

text \<open>
  C21. An accepted submission (status 202) is stored under a fresh id, queued, with exactly the code and
  input of the request, within the size limits, for a registered language and with a validated webhook
  address; exactly one task is enqueued, and the worker reads this id from it.
\<close>

theorem create_accepted:
  assumes "handleCreateSubmission cd cfg c w = (w', rp)" and "rp_status rp = 202"
    and "codec_ok (cd_marshal_exec cd) (cd_unmarshal_exec cd)"
  shows "\<exists>req r t spec. ac_decode c (body_limit cfg) = Decoded req \<and> w_table w (ac_uuid c) = None \<and>
    w_table w' = (w_table w)(ac_uuid c \<mapsto> r) \<and> sub_ID r = ac_uuid c \<and>
    sub_Status r = SubmissionStatusQueued \<and> sub_Code r = cr_Code req \<and> sub_Stdin r = cr_Stdin req \<and>
    Get (sub_Language r) = Some spec \<and> int (length (sub_Code r)) \<le> MaxCodeBytes cfg \<and>
    int (length (sub_Stdin r)) \<le> MaxStdinBytes cfg \<and>
    (case sub_WebhookUrl r of None \<Rightarrow> True
     | Some u \<Rightarrow> Validate (ac_lookupIP c) u (WebhookAllowPrivate cfg) = None) \<and>
    w_tasks w' = w_tasks w @ [t] \<and> t_type t = TypeExecute \<and> t_timeout t = taskTimeout cfg \<and>
    cd_unmarshal_exec cd (t_payload t) = Inr \<lparr>ep_SubmissionID = ac_uuid c\<rparr> \<and>
    rp_location rp = Some (''/v1/submissions/'' @ cd_uuid_String cd (ac_uuid c))"
proof (cases rule: handleCreate_cases [of cd cfg c w])
  case (refused rp')
  with assms show ?thesis by auto
next
  case (checked req spec url)
  note ok = check_request_Inr [OF checked(2)]
  from assms(1) checked(3) have "persist_and_enqueue cd cfg c req spec url w = (w', rp)" by simp
  then show ?thesis
  proof (cases rule: persist_cases)
    case (accepted t)
    let ?r = "new_row (ac_create c) (request_params c req spec url)"
    obtain b where b: "cd_marshal_exec cd \<lparr>ep_SubmissionID = ac_uuid c\<rparr> = Inr b"
      "cd_unmarshal_exec cd b = Inr \<lparr>ep_SubmissionID = ac_uuid c\<rparr>"
      using assms(3) by (rule codec_okE)
    with accepted(2) have t: "t_payload t = b" "t_type t = TypeExecute" "t_timeout t = taskTimeout cfg"
      by (auto simp: NewExecuteTask_def)
    have "w_tasks w' = w_tasks w @ [t]" by (subst accepted(3)) simp
    with CreateSubmission_Inr(1,3) [OF accepted(1)] checked(1) ok accepted(5) t b(2) show ?thesis
      by (intro exI [of _ req] exI [of _ ?r] exI [of _ t] exI [of _ spec])
        (auto simp: request_params_def split: option.splits)
  qed (use assms(2) in auto)
qed

theorem create_accepted_witness:
  "w_table (fst (handleCreateSubmission sample_codec default_config sample_call empty_world)) 7 \<noteq> None \<and>
   rp_location (snd (handleCreateSubmission sample_codec default_config sample_call empty_world)) \<noteq> None"
  using create_accepted [of sample_codec default_config sample_call empty_world _ _, OF surjective_pairing _ sample_codec_ok]
    sample_create by (auto simp: create_status)

text \<open>
  Every submission request is answered with one of five statuses, and a request that is refused as
  bad or too large leaves no trace: no row, no task.
\<close>

theorem create_refused_no_trace:
  assumes "handleCreateSubmission cd cfg c w = (w', rp)"
  shows "rp_status rp \<in> {202, 400, 413, 500, 503} \<and> (rp_status rp \<in> {400, 413} \<longrightarrow> w' = w)"
proof (cases rule: handleCreate_cases [of cd cfg c w])
  case (refused rp')
  with assms show ?thesis by auto
next
  case (checked req spec url)
  with assms have "persist_and_enqueue cd cfg c req spec url w = (w', rp)" by simp
  then show ?thesis by (cases rule: persist_cases) auto
qed

theorem create_refused_no_trace_witness:
  "fst (handleCreateSubmission sample_codec default_config
      (sample_call\<lparr>ac_decode := (\<lambda>_. Decoded (sample_request\<lparr>cr_Language := ''cobol''\<rparr>))\<rparr>) empty_world) = empty_world"
proof -
  let ?c = "sample_call\<lparr>ac_decode := (\<lambda>_. Decoded (sample_request\<lparr>cr_Language := ''cobol''\<rparr>))\<rparr>"
  have "Get (ToLower (ac_lower sample_call) (TrimSpace ''cobol'')) = None" by code_simp
  then have "rp_status (snd (handleCreateSubmission sample_codec default_config ?c empty_world)) = 400"
    by (simp add: handleCreateSubmission_def check_request_def create_status Let_def)
  with create_refused_no_trace [OF surjective_pairing, of sample_codec default_config ?c empty_world]
  show ?thesis by auto
qed

text \<open>
  C34. When the queue does not confirm the task (status 503), the submission does not stay queued: if the
  database works, the row is failed with the reason, whether or not the task got into the queue.
\<close>

theorem enqueue_failure_recorded:
  assumes "handleCreateSubmission cd cfg c w = (w', rp)" and "rp_status rp = 503"
    and "db_reply (ac_fail c) = Answered" and "db_text_ok (ac_fail c) ''could not enqueue execution job''"
  shows "\<exists>r. w_table w' (ac_uuid c) = Some r \<and> sub_Status r = SubmissionStatusFailed \<and>
    sub_Error r = Some ''could not enqueue execution job''"
proof (cases rule: handleCreate_cases [of cd cfg c w])
  case (refused rp')
  with assms show ?thesis by auto
next
  case (checked req spec url)
  from assms(1) checked(3) have "persist_and_enqueue cd cfg c req spec url w = (w', rp)" by simp
  then show ?thesis
  proof (cases rule: persist_cases)
    case (not_enqueued tbl t)
    from CreateSubmission_Inr(3) [OF not_enqueued(1)]
    have "tbl (ac_uuid c) = Some (new_row (ac_create c) (request_params c req spec url))"
      by (simp add: request_params_def)
    with not_enqueued(3) assms(3,4) show ?thesis
      by (simp add: FailSubmission_def statement_def update_row_def opt_text_ok_def set_failed_def)
  qed (use assms(2) in auto)
qed

theorem enqueue_failure_recorded_witness:
  "\<exists>r. w_table (fst (handleCreateSubmission sample_codec default_config
      (sample_call\<lparr>ac_enqueue := ReplyLost ''timeout''\<rparr>) empty_world)) 7 = Some r \<and> sub_Status r = SubmissionStatusFailed"
proof -
  let ?c = "sample_call\<lparr>ac_enqueue := ReplyLost ''timeout''\<rparr>"
  have "check_request default_config ?c sample_request = check_request default_config sample_call sample_request"
    by (simp add: check_request_def Let_def cong: option.case_cong if_cong)
  then have "rp_status (snd (handleCreateSubmission sample_codec default_config ?c empty_world)) = 503"
    using sample_checked
    by (simp add: handleCreateSubmission_def persist_and_enqueue_def CreateSubmission_def statement_def
        NewExecuteTask_def EnqueueContext_def sample_codec_def opt_text_ok_def create_status Let_def)
      (simp add: sample_request_def python_spec_def create_status)
  with enqueue_failure_recorded [OF surjective_pairing, of sample_codec default_config ?c empty_world]
  show ?thesis by auto
qed

text \<open>
  Code that is valid UTF-8 but that the database refuses as text (a NUL character is both) passes the
  checks and is answered with 500, not 400.
\<close>

theorem unstorable_code_is_500:
  assumes "ac_decode c (body_limit cfg) = Decoded req" and "ac_then_EOF c (body_limit cfg)"
    and "check_request cfg c req = Inr (spec, url)"
    and "db_reply (ac_create c) = Answered" and "\<not> db_text_ok (ac_create c) (cr_Code req)"
  shows "handleCreateSubmission cd cfg c w = (w, writeError 500 ''could not persist submission'')"
  using assms
  by (simp add: handleCreateSubmission_def persist_and_enqueue_def CreateSubmission_def statement_def Let_def)

theorem unstorable_code_is_500_witness:
  "handleCreateSubmission sample_codec default_config
      (sample_call\<lparr>ac_decode := (\<lambda>_. Decoded (sample_request\<lparr>cr_Code := [CHR ''x'', CHR 0x00]\<rparr>))\<rparr>) empty_world =
    (empty_world, writeError 500 ''could not persist submission'')"
proof (rule unstorable_code_is_500)
  have "TrimSpace ''Python '' = ''Python''" "TrimSpace [CHR ''x'', CHR 0x00] = [CHR ''x'', CHR 0x00]" "TrimSpace [] = []"
    "ToLower (ac_lower sample_call) ''Python'' = ''python''" "ValidString [CHR ''x'', CHR 0x00]" "ValidString []"
    by code_simp+
  then show "check_request default_config
      (sample_call\<lparr>ac_decode := (\<lambda>_. Decoded (sample_request\<lparr>cr_Code := [CHR ''x'', CHR 0x00]\<rparr>))\<rparr>)
      (sample_request\<lparr>cr_Code := [CHR ''x'', CHR 0x00]\<rparr>) = Inr (python_spec, None)"
    by (simp add: check_request_def sample_request_def)
qed simp_all

lemma clampQueryInt_range:
  "lo \<le> hi \<Longrightarrow> lo \<le> def \<Longrightarrow> def \<le> hi \<Longrightarrow>
   lo \<le> clampQueryInt query key def lo hi \<and> clampQueryInt query key def lo hi \<le> hi"
  by (auto simp: clampQueryInt_def Let_def split: sum.splits)

text \<open>
  With a page cap of at least the default page size, every listing asks the database for at least one
  and at most the cap of rows, from an offset between 0 and a million: no query is refused for
  a negative limit, and a working database gives the status 200.
\<close>

theorem page_bounds:
  assumes "20 \<le> DefaultPageCap cfg" and "DefaultPageCap cfg < 2 ^ 31"
  shows "1 \<le> page_limit cfg query \<and> page_limit cfg query \<le> DefaultPageCap cfg \<and>
    0 \<le> page_offset query \<and> page_offset query \<le> 1000000 \<and>
    (db_reply de = Answered \<longrightarrow> rp_status (handleListSubmissions cfg scan de query w) = 200)"
proof -
  have l: "1 \<le> clampQueryInt query ''limit'' 20 1 (DefaultPageCap cfg)"
    "clampQueryInt query ''limit'' 20 1 (DefaultPageCap cfg) \<le> DefaultPageCap cfg"
    using clampQueryInt_range [of 1 "DefaultPageCap cfg" 20 query "''limit''"] assms by auto
  then have limit: "page_limit cfg query = clampQueryInt query ''limit'' 20 1 (DefaultPageCap cfg)"
    unfolding page_limit_def wrap32_def using assms by (intro wrap_id) auto
  have o': "0 \<le> clampQueryInt query ''offset'' 0 0 1000000" "clampQueryInt query ''offset'' 0 0 1000000 \<le> 1000000"
    using clampQueryInt_range [of 0 1000000 0 query "''offset''"] by auto
  then have offset: "page_offset query = clampQueryInt query ''offset'' 0 0 1000000"
    unfolding page_offset_def wrap32_def by (intro wrap_id) auto
  show ?thesis
    using l o' unfolding limit [symmetric] offset [symmetric]
    by (simp add: handleListSubmissions_def ListSubmissions_def statement_def create_status Let_def)
qed

theorem page_bounds_witness:
  "1 \<le> page_limit default_config (\<lambda>_. ''-3'') \<and> page_limit default_config (\<lambda>_. ''-3'') \<le> 100"
  using page_bounds [of default_config "\<lambda>_. ''-3''" "ok_db 1" "\<lambda>_. []" empty_world] by simp

text \<open>
  With a page cap below the default page size, a listing without a limit parameter is not held to the
  cap: it asks for 20 rows.
\<close>

theorem page_cap_ignored:
  assumes "query ''limit'' = []" and "DefaultPageCap cfg < 20"
  shows "page_limit cfg query = 20 \<and> DefaultPageCap cfg < page_limit cfg query"
  using assms by (simp add: page_limit_def clampQueryInt_def wrap32_def wrap_def)

theorem page_cap_ignored_witness:
  "page_limit (default_config\<lparr>DefaultPageCap := 5\<rparr>) (\<lambda>_. []) = 20"
  using page_cap_ignored [of "\<lambda>_. []" "default_config\<lparr>DefaultPageCap := 5\<rparr>"] by simp

text \<open>
  The queue gives a task one minute more than the engine's own budget for the container, so a
  container that is within its budget is not reclaimed by the queue.
\<close>

theorem task_outlives_budget:
  assumes "0 \<le> CompileTimeout cfg" "0 \<le> RunTimeout cfg"
    and "CompileTimeout cfg + RunTimeout cfg + 90 * second < 2 ^ 63"
  shows "taskTimeout cfg = execution_budget cfg + 60 * second \<and> 0 < execution_budget cfg"
proof -
  have "taskTimeout cfg = CompileTimeout cfg + RunTimeout cfg + 90 * second"
    unfolding taskTimeout_def wrap64_def using assms by (intro wrap_id) auto
  moreover have "execution_budget cfg = RunTimeout cfg + CompileTimeout cfg + 30 * second"
    unfolding execution_budget_def wrap64_def using assms by (intro wrap_id) auto
  ultimately show ?thesis using assms by simp
qed

theorem task_outlives_budget_witness:
  "taskTimeout default_config = execution_budget default_config + 60 * second"
  using task_outlives_budget [of default_config] by simp

definition obj_fields :: "json \<Rightarrow> (string \<times> json) list" where
  "obj_fields j = (case j of JObject kvs \<Rightarrow> kvs | _ \<Rightarrow> [])"

definition jfield :: "json \<Rightarrow> string \<Rightarrow> json option" where
  "jfield j k = map_of (obj_fields j) k"

lemma hook_fields_distinct: "distinct (map fst (obj_fields (buildWebhookBody s)))"
  by (simp add: obj_fields_def buildWebhookBody_def)

lemma set_omitempty: "(k', v) \<in> set (omitempty k f x) \<longleftrightarrow> k' = k \<and> x \<noteq> None \<and> v = jopt f x"
  by (cases x) (auto simp: omitempty_def jopt_def)

lemma toResponse_fields:
  "sr_ID (toResponse s) = sub_ID s" "sr_Language (toResponse s) = sub_Language s"
  "sr_Status (toResponse s) = sub_Status s" "sr_Stdout (toResponse s) = sub_Stdout s"
  "sr_Stderr (toResponse s) = sub_Stderr s" "sr_ExitCode (toResponse s) = sub_ExitCode s"
  "sr_CompileOutput (toResponse s) = sub_CompileOutput s" "sr_TimedOut (toResponse s) = sub_TimedOut s"
  "sr_OOMKilled (toResponse s) = sub_OomKilled s" "sr_Error (toResponse s) = sub_Error s"
  "sr_CreatedAt (toResponse s) = sub_CreatedAt s" "sr_StartedAt (toResponse s) = sub_StartedAt s"
  "sr_FinishedAt (toResponse s) = sub_FinishedAt s"
  by (simp_all add: toResponse_def Let_def)

lemma toResponse_metrics:
  "sr_Metrics (toResponse s) \<noteq> None \<Longrightarrow> jopt metrics_json (sr_Metrics (toResponse s)) =
     JObject [(''cpu_time_ms'', jopt JInt (sub_CpuTimeMs s)), (''wall_time_ms'', jopt JInt (sub_WallTimeMs s)),
       (''memory_kb'', jopt JInt (sub_MemoryKb s))]"
  by (simp add: toResponse_def metrics_json_def jopt_def Let_def split: if_splits)

text \<open>
  C18. Every field of the answer to \<^verbatim>\<open>GET /v1/submissions/{id}\<close> but the start time is in the webhook body
  with the same value; the start time is not in the webhook body.
\<close>

theorem webhook_body_mirrors_get:
  assumes "jfield (submission_json (toResponse s)) k = Some v"
  shows "if k = ''started_at'' then jfield (buildWebhookBody s) k = None
    else jfield (buildWebhookBody s) k = Some v"
proof -
  have "(k, v) \<in> set (obj_fields (submission_json (toResponse s)))"
    using assms unfolding jfield_def by (rule map_of_SomeD)
  then have "k = ''started_at'' \<or> (k, v) \<in> set (obj_fields (buildWebhookBody s))"
    unfolding submission_json_def obj_fields_def json.case set_append Un_iff set_omitempty toResponse_fields
    by (elim disjE conjE; simp add: toResponse_metrics buildWebhookBody_def; (elim disjE conjE)?; simp)
  moreover have "map_of (obj_fields (buildWebhookBody s)) ''started_at'' = None"
    by (simp add: obj_fields_def buildWebhookBody_def)
  ultimately show ?thesis
    unfolding jfield_def using map_of_is_SomeI [OF hook_fields_distinct] by auto
qed

theorem webhook_body_mirrors_get_witness:
  "jfield (buildWebhookBody sample_row) ''status'' = Some (JString ''queued'')"
  using webhook_body_mirrors_get [of sample_row "''status''" "JString ''queued''"]
  by (simp add: jfield_def obj_fields_def submission_json_def toResponse_fields sample_row_def
      SubmissionStatusQueued_def)

text \<open>
  C33. A submission is visible as soon as it is accepted: reading the address of the \<open>Location\<close> header gives
  the status 200 and the submission as queued.
\<close>

theorem accepted_is_visible:
  assumes "handleCreateSubmission cd cfg c w = (w', rp)" and "rp_status rp = 202"
    and "cd_uuid_Parse cd (cd_uuid_String cd (ac_uuid c)) = Some (ac_uuid c)" and "db_reply de = Answered"
  shows "\<exists>raw. rp_location rp = Some (''/v1/submissions/'' @ raw) \<and>
    rp_status (handleGetSubmission cd de raw w') = 200 \<and>
    jfield (rp_body (handleGetSubmission cd de raw w')) ''id'' = Some (JUuid (ac_uuid c)) \<and>
    jfield (rp_body (handleGetSubmission cd de raw w')) ''status'' = Some (JString ''queued'')"
proof (cases rule: handleCreate_cases [of cd cfg c w])
  case (refused rp')
  with assms show ?thesis by auto
next
  case (checked req spec url)
  from assms(1) checked(3) have "persist_and_enqueue cd cfg c req spec url w = (w', rp)" by simp
  then show ?thesis
  proof (cases rule: persist_cases)
    case (accepted t)
    let ?r = "new_row (ac_create c) (request_params c req spec url)"
    have "w_table w' (ac_uuid c) = Some ?r"
      using CreateSubmission_Inr(3) [OF accepted(1)] by (simp add: request_params_def)
    then have "handleGetSubmission cd de (cd_uuid_String cd (ac_uuid c)) w' =
        writeJSON 200 (submission_json (toResponse ?r))"
      using assms(3,4) by (simp add: handleGetSubmission_def GetSubmission_Answered)
    with accepted(5) show ?thesis
      by (simp add: writeJSON_def jfield_def obj_fields_def submission_json_def toResponse_fields
          request_params_def SubmissionStatusQueued_def)
  qed (use assms(2) in auto)
qed

theorem accepted_is_visible_witness:
  "\<exists>raw. rp_status (handleGetSubmission sample_codec (ok_db 3) raw
      (fst (handleCreateSubmission sample_codec default_config sample_call empty_world))) = 200"
  using accepted_is_visible [OF surjective_pairing, of sample_codec default_config sample_call empty_world "ok_db 3"]
    sample_create(1)
  by (auto simp: create_status sample_codec_def)

section \<open>Every request is answered\<close>

text \<open>
  A handler that sends its status before its bodies (all of them do, through \<open>writeJSON\<close>): the status
  that is sent is the one that is logged.
\<close>

lemma recorder_bodies:
  "re_wroteHeader r \<Longrightarrow> hw_status (re_ResponseWriter r) \<noteq> None \<Longrightarrow>
   fold recorder_do (map WriteBody bs) r =
     r\<lparr>re_ResponseWriter := (re_ResponseWriter r)\<lparr>hw_body := hw_body (re_ResponseWriter r) @ bs\<rparr>\<rparr>"
  by (induction bs arbitrary: r) auto

lemma recoverer_header_first:
  "recoverer (WriteHeader code # map WriteBody bs, panicked) empty_writer =
     (\<lparr>hw_status = Some code, hw_body = bs @ (if panicked then [errorResponse ''internal error''] else [])\<rparr>,
      if panicked then None else Some code)"
  by (simp add: recoverer_def requestLogger_def empty_writer_def recorder_bodies Let_def)

lemma recoverer_nothing_written:
  "recoverer ([], True) empty_writer =
     (\<lparr>hw_status = Some 500, hw_body = [errorResponse ''internal error'']\<rparr>, None)"
  by (simp add: recoverer_def requestLogger_def empty_writer_def Let_def)

text \<open>
  Every registered address is routed to its handler under its method, and HEAD like GET; every other
  method on it gives 405.
\<close>

theorem routes_complete:
  "route m [''v1'', ''submissions''] =
     (if m = ''POST'' then Handled HCreateSubmission
      else if m \<in> {''GET'', ''HEAD''} then Handled HListSubmissions else MethodNotAllowed)"
  "raw \<notin> {[], ''.'', ''..''} \<Longrightarrow> route m [''v1'', ''submissions'', raw] =
     (if m \<in> {''GET'', ''HEAD''} then Handled HGetSubmission else MethodNotAllowed)"
  "route m [''v1'', ''languages''] = (if m \<in> {''GET'', ''HEAD''} then Handled HListLanguages else MethodNotAllowed)"
  "route m [''healthz''] = (if m \<in> {''GET'', ''HEAD''} then Handled HHealthz else MethodNotAllowed)"
  "route m [''readyz''] = (if m \<in> {''GET'', ''HEAD''} then Handled HReadyz else MethodNotAllowed)"
  by (auto simp: route_def unclean_def Routes_def method_matches_def path_matches_def segment_matches_def)

text \<open>The statuses of the interface, by what the request is routed to.\<close>

fun api_status :: "routed \<Rightarrow> int set" where
  "api_status (Handled HCreateSubmission) = {202, 400, 413, 500, 503}"
| "api_status (Handled HGetSubmission) = {200, 400, 404, 500}"
| "api_status (Handled HListSubmissions) = {200, 500}"
| "api_status (Handled HListLanguages) = {200}"
| "api_status (Handled HHealthz) = {200}"
| "api_status (Handled HReadyz) = {200, 503}"
| "api_status Moved = {301}"
| "api_status MethodNotAllowed = {405}"
| "api_status NotFound = {404}"

lemma create_api_status: "rp_status (snd (handleCreateSubmission cd cfg c w)) \<in> {202, 400, 413, 500, 503}"
  using create_refused_no_trace [OF surjective_pairing] by blast

lemma dispatch_header_first:
  obtains code bs where "snd (dispatch cd cfg se rq w) = WriteHeader code # map WriteBody bs"
    "code \<in> api_status (route (hr_method rq) (hr_path rq))"
proof (cases "route (hr_method rq) (hr_path rq)")
  case (Handled h)
  note found = that
  have reply: thesis if "snd (dispatch cd cfg se rq w) = reply_ops rp" "rp_status rp \<in> api_status (Handled h)" for rp
    using that Handled by (intro found [of "rp_status rp" "[rp_body rp]"]) (simp_all add: reply_ops_def)
  show thesis
  proof (cases h)
    case HCreateSubmission
    then show thesis
      using Handled create_api_status [of cd cfg "se_call se" w]
      by (intro reply [of "snd (handleCreateSubmission cd cfg (se_call se) w)"])
        (simp_all add: dispatch_def split: prod.splits)
  next
    case HGetSubmission
    then show thesis
      using Handled by (intro reply [of "handleGetSubmission cd (se_db se) (last (hr_path rq)) w"])
        (auto simp: dispatch_def handleGetSubmission_def create_status split: option.splits sum.splits)
  next
    case HListSubmissions
    then show thesis
      using Handled by (intro reply [of "handleListSubmissions cfg (se_scan se) (se_db se) (hr_query rq) w"])
        (auto simp: dispatch_def handleListSubmissions_def create_status Let_def split: sum.splits)
  next
    case HListLanguages
    then show thesis
      using Handled by (intro reply [of "handleListLanguages (se_registry se)"])
        (simp_all add: dispatch_def handleListLanguages_def create_status)
  next
    case HHealthz
    then show thesis
      using Handled by (intro reply [of handleHealthz]) (simp_all add: dispatch_def handleHealthz_def create_status)
  next
    case HReadyz
    then show thesis
      using Handled by (intro reply [of "handleReadyz (se_postgres se) (se_redis se)"])
        (simp_all add: dispatch_def handleReadyz_def create_status)
  qed
next
  case Moved
  then show thesis
    by (intro that [of 301 "if hr_method rq = ''GET'' then [JString ''Moved Permanently''] else []"])
      (simp_all add: dispatch_def)
next
  case MethodNotAllowed
  then show thesis by (intro that [of 405 "[JString ''Method Not Allowed'']"]) (simp_all add: dispatch_def)
next
  case NotFound
  then show thesis by (intro that [of 404 "[JString ''404 page not found'']"]) (simp_all add: dispatch_def)
qed

text \<open>
  C20. Every request is answered with one status, also when its handler panics at any point. Without a panic
  it is a status of the interface for the address and the method, and it is the status in the log. When
  the handler panics before it wrote anything, the client gets 500 with the error object; when it panics
  later, the client gets the status that was already written, and the error object after what was written of
  the body; in both cases the request is not logged.
\<close>

theorem requests_answered:
  assumes "serve cd cfg se rq w = (w', (code, bodies), line)"
  shows "\<exists>c bs. snd (dispatch cd cfg se rq w) = WriteHeader c # map WriteBody bs \<and>
    c \<in> api_status (route (hr_method rq) (hr_path rq)) \<and>
    (case se_panic se of
       None \<Rightarrow> code = c \<and> line = Some c \<and> bodies = (if hr_method rq = ''HEAD'' then [] else bs)
     | Some (k, part) \<Rightarrow>
         line = None \<and> code = (if k = 0 then 500 else c) \<and>
         bodies = (if hr_method rq = ''HEAD'' then [] else take (k - 1) bs @ [errorResponse ''internal error'']))"
proof -
  obtain c bs where ops: "snd (dispatch cd cfg se rq w) = WriteHeader c # map WriteBody bs"
    and c: "c \<in> api_status (route (hr_method rq) (hr_path rq))" by (rule dispatch_header_first)
  then obtain w1 where d: "dispatch cd cfg se rq w = (w1, WriteHeader c # map WriteBody bs)"
    by (metis prod.collapse)
  have "case se_panic se of
       None \<Rightarrow> code = c \<and> line = Some c \<and> bodies = (if hr_method rq = ''HEAD'' then [] else bs)
     | Some (k, part) \<Rightarrow>
         line = None \<and> code = (if k = 0 then 500 else c) \<and>
         bodies = (if hr_method rq = ''HEAD'' then [] else take (k - 1) bs @ [errorResponse ''internal error''])"
  proof (cases "se_panic se")
    case None
    with assms d show ?thesis by (auto simp: serve_def recoverer_header_first client_view_def)
  next
    case (Some p)
    obtain k part where p: "p = (k, part)" by fastforce
    show ?thesis
    proof (cases k)
      case 0
      with assms d Some p show ?thesis by (auto simp: serve_def recoverer_nothing_written client_view_def)
    next
      case (Suc n)
      with assms d Some p show ?thesis
        by (auto simp: serve_def take_map recoverer_header_first client_view_def)
    qed
  qed
  with ops c show ?thesis by blast
qed

theorem requests_answered_witness:
  "\<exists>w'. serve sample_codec default_config
      \<lparr>se_call = sample_call, se_db = ok_db 3, se_scan = (\<lambda>_. []), se_postgres = None, se_redis = None,
       se_registry = registry, se_panic = Some (0, \<lambda>w. w)\<rparr>
      \<lparr>hr_method = ''GET'', hr_path = [''healthz''], hr_query = (\<lambda>_. [])\<rparr> empty_world =
    (w', (500, [errorResponse ''internal error'']), None)"
    (is "\<exists>w'. ?s = _")
proof -
  obtain w' code bodies line where s: "?s = (w', (code, bodies), line)" by (cases ?s) auto
  from requests_answered [OF this] s show ?thesis by auto
qed

end
