(* ===== verification/Ocee_Transition.thy ===== *)
theory Ocee_Transition
  imports Main
begin

text \<open>
  Transition systems, for the parts of the program in which several goroutines or processes are
  interleaved: reachable states, and three contracts as locales. \<open>inductive_invariant\<close> is a property
  that holds at the start and is kept by every step; \<open>refinement_map\<close> extends it by an abstract system
  that every step is simulated by; \<open>ending_system\<close> extends it by a measure that every step decreases and by
  the absence of deadlock. Each is interpreted on the step relations of the theories that follow.
\<close>

inductive reach :: "('s \<Rightarrow> bool) \<Rightarrow> ('s \<Rightarrow> 's \<Rightarrow> bool) \<Rightarrow> 's \<Rightarrow> bool" for start step where
  reach_start: "start s \<Longrightarrow> reach start step s"
| reach_step: "reach start step s \<Longrightarrow> step s s' \<Longrightarrow> reach start step s'"

lemma reach_steps:
  assumes "step\<^sup>*\<^sup>* s s'" and "reach start step s"
  shows "reach start step s'"
  using assms by (induction rule: rtranclp_induct) (auto intro: reach_step)

locale inductive_invariant =
  fixes start :: "'s \<Rightarrow> bool"
    and step :: "'s \<Rightarrow> 's \<Rightarrow> bool"
    and inv :: "'s \<Rightarrow> bool"
  assumes inv_start: "start s \<Longrightarrow> inv s"
    and inv_step: "inv s \<Longrightarrow> step s s' \<Longrightarrow> inv s'"
begin

lemma inv_steps:
  assumes "step\<^sup>*\<^sup>* s s'" and "inv s"
  shows "inv s'"
  using assms by (induction rule: rtranclp_induct) (auto intro: inv_step)

lemma reach_inv: "reach start step s \<Longrightarrow> inv s"
  by (induction rule: reach.induct) (auto intro: inv_start inv_step)

end

locale refinement_map = inductive_invariant +
  fixes abs :: "'s \<Rightarrow> 'a"
    and spec_start :: "'a \<Rightarrow> bool"
    and spec :: "'a \<Rightarrow> 'a \<Rightarrow> bool"
  assumes abs_start: "start s \<Longrightarrow> spec_start (abs s)"
    and simulates: "inv s \<Longrightarrow> step s s' \<Longrightarrow> spec\<^sup>*\<^sup>* (abs s) (abs s')"
begin

lemma run_refines:
  assumes "step\<^sup>*\<^sup>* s s'" and "inv s"
  shows "spec\<^sup>*\<^sup>* (abs s) (abs s')"
  using assms(1)
proof (induction rule: rtranclp_induct)
  case (step t u)
  have "spec\<^sup>*\<^sup>* (abs t) (abs u)"
    using inv_steps [OF step.hyps(1) assms(2)] step.hyps(2) by (rule simulates)
  with step.IH show ?case by (rule rtranclp_trans)
qed simp

lemma reach_refines: "reach start step s \<Longrightarrow> reach spec_start spec (abs s)"
proof (induction rule: reach.induct)
  case (reach_start s)
  then show ?case by (intro reach.reach_start abs_start)
next
  case (reach_step s s')
  then show ?case using simulates [OF reach_inv] by (blast intro: reach_steps)
qed

end

locale ending_system = inductive_invariant +
  fixes final :: "'s \<Rightarrow> bool"
    and remaining :: "'s \<Rightarrow> nat"
  assumes decreases: "inv s \<Longrightarrow> step s s' \<Longrightarrow> remaining s' < remaining s"
    and not_stuck: "inv s \<Longrightarrow> \<not> final s \<Longrightarrow> \<exists>s'. step s s'"
begin

lemma run_bounded: "(step ^^ n) s s' \<Longrightarrow> inv s \<Longrightarrow> n + remaining s' \<le> remaining s"
proof (induction n arbitrary: s')
  case (Suc n)
  then obtain t where t: "(step ^^ n) s t" "step t s'" by auto
  then have "inv t" using Suc.prems(2) by (auto intro: inv_steps dest: relpowp_imp_rtranclp)
  with t(2) have "remaining s' < remaining t" by (rule decreases [rotated])
  with Suc.IH [OF t(1) Suc.prems(2)] show ?case by simp
qed simp

lemma ends:
  assumes "inv s"
  shows "\<exists>s'. step\<^sup>*\<^sup>* s s' \<and> final s'"
  using assms
proof (induction "remaining s" arbitrary: s rule: less_induct)
  case less
  show ?case
  proof (cases "final s")
    case False
    then obtain t where t: "step s t" using not_stuck less.prems by blast
    with less.prems have "remaining t < remaining s" "inv t" by (auto intro: decreases inv_step)
    with less.hyps obtain s' where "step\<^sup>*\<^sup>* t s'" "final s'" by blast
    with t show ?thesis by (blast intro: converse_rtranclp_into_rtranclp)
  qed auto
qed

text \<open>Whatever is chosen at every step, a run that cannot go on has ended.\<close>

lemma stops_final: "inv s \<Longrightarrow> step\<^sup>*\<^sup>* s s' \<Longrightarrow> \<not> (\<exists>t. step s' t) \<Longrightarrow> final s'"
  using inv_steps not_stuck by blast

end

end
