(* ===== verification/Ocee_Interleave.thy ===== *)
theory Ocee_Interleave
  imports Ocee_Api Ocee_Transition
begin

text \<open>
  The engine with all its processes interleaved. Requests and workers run at the same time and share the
  database and the queue, so \<open>handleCreateSubmission\<close> and \<open>handleExecute\<close> are split at the statements that
  touch them; the splits are proved equal to the handlers. A state is the shared state with a position
  for every request and every worker; every step is one statement of one of them, with whatever faults.
  Shown by rule induction: what holds of all rows, tasks, deliveries and running handlers in every
  reachable state; and two runs in which a finished submission is overwritten.
\<close>

section \<open>The handlers, statement by statement\<close>

text \<open>
  Where a request is within \<^const>\<open>handleCreateSubmission\<close>: before the insertion, before the enqueueing, after a
  failed enqueueing, answered. What is read later is part of the position.
\<close>

datatype create_pc = CBegin | CStored uuid Submission | CUnqueued uuid | CDone reply

fun create_step :: "codec \<Rightarrow> Config \<Rightarrow> api_call \<Rightarrow> create_pc \<Rightarrow> world \<Rightarrow> world \<times> create_pc" where
  "create_step cd cfg c CBegin w =
     (let limit = body_limit cfg in
      case ac_decode c limit of
        BodyTooLarge \<Rightarrow> (w, CDone (writeError 413 (''request body exceeds '' @ Itoa limit @ '' bytes'')))
      | DecodeError e \<Rightarrow> (w, CDone (writeError 400 (''invalid JSON body: '' @ e)))
      | Decoded req \<Rightarrow>
          if \<not> ac_then_EOF c limit
          then (w, CDone (writeError 400 ''body must contain exactly one JSON object''))
          else (case check_request cfg c req of
              Inl rp \<Rightarrow> (w, CDone rp)
            | Inr (spec, webhookURL) \<Rightarrow>
                (case CreateSubmission (ac_create c)
                    \<lparr>cp_ID = ac_uuid c, cp_Language = spec_ID spec, cp_Code = cr_Code req,
                     cp_Stdin = cr_Stdin req, cp_WebhookUrl = webhookURL\<rparr> (w_table w) of
                  (tbl, Inl e) \<Rightarrow> (w\<lparr>w_table := tbl\<rparr>, CDone (writeError 500 ''could not persist submission''))
                | (tbl, Inr sub) \<Rightarrow> (w\<lparr>w_table := tbl\<rparr>, CStored (ac_uuid c) sub))))"
| "create_step cd cfg c (CStored i sub) w =
     (case NewExecuteTask (cd_marshal_exec cd) i (taskTimeout cfg) of
        Inl e \<Rightarrow> (w, CDone (writeError 500 ''could not enqueue submission''))
      | Inr t \<Rightarrow>
          (case EnqueueContext (ac_enqueue c) t w of
             (w2, Some e) \<Rightarrow> (w2, CUnqueued i)
           | (w2, None) \<Rightarrow>
               let url = ''/v1/submissions/'' @ cd_uuid_String cd i in
               (w2, CDone ((writeJSON 202 (createSubmissionResponse (sub_ID sub) (sub_Status sub)
                       (sub_CreatedAt sub) url))\<lparr>rp_location := Some url\<rparr>))))"
| "create_step cd cfg c (CUnqueued i) w =
     (w\<lparr>w_table := fst (FailSubmission (ac_fail c)
            \<lparr>fs_ID = i, fs_Error = Some ''could not enqueue execution job''\<rparr> (w_table w))\<rparr>,
      CDone (writeError 503 ''execution queue unavailable''))"
| "create_step cd cfg c (CDone rp) w = (w, CDone rp)"

definition then_create :: "codec \<Rightarrow> Config \<Rightarrow> api_call \<Rightarrow> world \<times> create_pc \<Rightarrow> world \<times> create_pc" where
  "then_create cd cfg c s = create_step cd cfg c (snd s) (fst s)"

text \<open>
  Where a worker is within \<^const>\<open>handleExecute\<close>: before the row is loaded, before it is marked, before the
  container is run, before the result or the failure is stored, before the webhook is enqueued, done.
\<close>

datatype pc =
  Begin
| Loaded uuid Submission
| Marked uuid Submission Spec
| Ran uuid Submission "string + Outcome"
| Settled Submission
| Done handler_result

fun exec_step ::
  "codec \<Rightarrow> string \<Rightarrow> Config \<Rightarrow> attempt \<Rightarrow> task \<Rightarrow> pc \<Rightarrow> world \<Rightarrow> world \<times> pc" where
  "exec_step cd script cfg a t Begin w =
     (case cd_unmarshal_exec cd (t_payload t) of
        Inl e \<Rightarrow> (w, Done (SkipRetry (''unmarshal payload: '' @ e)))
      | Inr p \<Rightarrow>
     (let i = ep_SubmissionID p in
      case GetSubmission (at_get a) i (w_table w) of
        Inl e \<Rightarrow>
          (if e = ErrNoRows
           then (w, Done (SkipRetry (''submission '' @ cd_uuid_String cd i @ '' not found'')))
           else (w, Done (Retry (''load submission: '' @ db_message e))))
      | Inr sub \<Rightarrow>
          if sub_Status sub = SubmissionStatusCompleted \<or> sub_Status sub = SubmissionStatusFailed
          then (w, Done Finished) else (w, Loaded i sub)))"
| "exec_step cd script cfg a t (Loaded i sub) w =
     (case Get (sub_Language sub) of
        None \<Rightarrow> (fail (at_fail a) i (''unsupported language '' @ sub_Language sub) w, Done Finished)
      | Some spec \<Rightarrow>
          (case MarkSubmissionRunning (at_mark a) i (w_table w) of
             (tbl, Inl e) \<Rightarrow> (w\<lparr>w_table := tbl\<rparr>, Done (Retry (''mark running: '' @ db_message e)))
           | (tbl, Inr _) \<Rightarrow> (w\<lparr>w_table := tbl\<rparr>, Marked i sub spec)))"
| "exec_step cd script cfg a t (Marked i sub spec) w =
     (case Execute script cfg (at_docker a) spec (sub_Code sub) (sub_Stdin sub) (w_exec w) of
        (ex, calls, res) \<Rightarrow> (w\<lparr>w_exec := ex, w_calls := w_calls w @ calls\<rparr>, Ran i sub res))"
| "exec_step cd script cfg a t (Ran i sub res) w =
     (case res of
        Inl e \<Rightarrow>
          if isFinalAttempt a
          then (fail (at_fail a) i (''execution engine error: '' @ e) w, Settled sub)
          else (w, Done (Retry (''execute: '' @ e)))
      | Inr out \<Rightarrow>
          (case CompleteSubmission (at_complete a) (complete_params i out) (w_table w) of
             (tbl, Inl e) \<Rightarrow> (w\<lparr>w_table := tbl\<rparr>, Done (Retry (''store result: '' @ db_message e)))
           | (tbl, Inr updated) \<Rightarrow> (w\<lparr>w_table := tbl\<rparr>, Settled updated)))"
| "exec_step cd script cfg a t (Settled sub) w =
     (enqueueWebhook cd cfg (at_enqueue a) sub w, Done Finished)"
| "exec_step cd script cfg a t (Done res) w = (w, Done res)"

definition then_step ::
  "codec \<Rightarrow> string \<Rightarrow> Config \<Rightarrow> attempt \<Rightarrow> task \<Rightarrow> world \<times> pc \<Rightarrow> world \<times> pc" where
  "then_step cd script cfg a t s = exec_step cd script cfg a t (snd s) (fst s)"

section \<open>The splits are the handlers\<close>

lemma create_steps:
  "(then_create cd cfg c ^^ 3) (w, CBegin) = (w', CDone rp) \<longleftrightarrow> handleCreateSubmission cd cfg c w = (w', rp)"
proof (cases "ac_decode c (body_limit cfg)")
  case (Decoded req)
  show ?thesis
  proof (cases "ac_then_EOF c (body_limit cfg)")
    case eof: True
    show ?thesis
    proof (cases "check_request cfg c req")
      case (Inl r)
      with Decoded eof show ?thesis
        by (simp add: then_create_def handleCreateSubmission_def numeral_3_eq_3 Let_def)
    next
      case (Inr x)
      with Decoded eof show ?thesis
        by (simp add: then_create_def handleCreateSubmission_def persist_and_enqueue_def numeral_3_eq_3 Let_def
            split: prod.split sum.split option.split)
    qed
  next
    case False
    with Decoded show ?thesis
      by (simp add: then_create_def handleCreateSubmission_def numeral_3_eq_3 Let_def)
  qed
qed (simp_all add: then_create_def handleCreateSubmission_def numeral_3_eq_3 Let_def)

lemma run_and_store_steps:
  "(then_step cd script cfg a t ^^ 3) (w, Marked i sub spec) = (w', Done res) \<longleftrightarrow>
   run_and_store cd script cfg a i spec sub w = (w', res)"
proof -
  obtain ex calls r where
    "Execute script cfg (at_docker a) spec (sub_Code sub) (sub_Stdin sub) (w_exec w) = (ex, calls, r)"
    by (cases "Execute script cfg (at_docker a) spec (sub_Code sub) (sub_Stdin sub) (w_exec w)") auto
  then show ?thesis
    by (simp add: then_step_def run_and_store_def numeral_3_eq_3 Let_def split: sum.split prod.split)
qed

lemma then_step_Done [simp]: "(then_step cd script cfg a t ^^ n) (w, Done res) = (w, Done res)"
  by (induction n) (simp_all add: then_step_def [of _ _ _ _ _ "(w, Done res)"])

lemma handleExecute_steps:
  "(then_step cd script cfg a t ^^ 5) (w, Begin) = (w', Done res) \<longleftrightarrow>
   handleExecute cd script cfg a t w = (w', res)"
proof -
  have five: "(then_step cd script cfg a t ^^ 5) (w, Begin) =
      (then_step cd script cfg a t ^^ 3) (then_step cd script cfg a t (then_step cd script cfg a t (w, Begin)))"
    by (simp add: funpow_swap1 numeral_eq_Suc)
  note step = then_step_def [of _ _ _ _ _ "(v, q)" for v q]
  show ?thesis
  proof (cases "cd_unmarshal_exec cd (t_payload t)")
    case (Inl e)
    then show ?thesis unfolding five by (simp add: step handleExecute_def)
  next
    case p: (Inr p)
    show ?thesis
    proof (cases "GetSubmission (at_get a) (ep_SubmissionID p) (w_table w)")
      case (Inl e)
      with p show ?thesis unfolding five by (simp add: step handleExecute_def Let_def)
    next
      case (Inr sub)
      with p show ?thesis
        unfolding five
        by (simp add: step handleExecute_def run_and_store_steps Let_def split: option.split prod.split sum.split)
    qed
  qed
qed

section \<open>The interleaved system\<close>

text \<open>
  The shared state, a position for every worker and one for every request slot. A call that has ended
  makes room for the next. What the resolver answers may differ from call to call; \<open>rs\<close> says which
  answers can occur. The JSON decoder of package \<^verbatim>\<open>encoding/json\<close> puts the replacement character for bytes that
  are not UTF-8, so the strings it returns are well-formed (\<open>utf8_decoder\<close>). The relation allows more than
  the program does: tasks are not taken from the queue, and a worker may go on with another task of the
  queue at every step; what holds of all its runs holds of the program's.
\<close>

type_synonym resolvers = "(string \<Rightarrow> IP list option) \<Rightarrow> bool"

type_synonym engine = "world \<times> (nat \<Rightarrow> pc) \<times> (nat \<Rightarrow> create_pc)"

definition utf8_decoder :: "(int \<Rightarrow> decode_result) \<Rightarrow> bool" where
  "utf8_decoder decode = (\<forall>limit req. decode limit = Decoded req \<longrightarrow> ValidString (cr_WebhookURL req))"

inductive int_step :: "resolvers \<Rightarrow> codec \<Rightarrow> string \<Rightarrow> Config \<Rightarrow> engine \<Rightarrow> engine \<Rightarrow> bool"
  for rs cd script cfg where
  i_serve: "rs (ac_lookupIP c) \<Longrightarrow> utf8_decoder (ac_decode c) \<Longrightarrow> create_step cd cfg c (reqs k) w = (w', q') \<Longrightarrow>
    int_step rs cd script cfg (w, pcs, reqs) (w', pcs, reqs(k := q'))"
| i_accept: "reqs k = CDone rp \<Longrightarrow> int_step rs cd script cfg (w, pcs, reqs) (w, pcs, reqs(k := CBegin))"
| i_execute: "t \<in> set (w_tasks w) \<Longrightarrow> map_of Mux (t_type t) = Some ExecuteHandler \<Longrightarrow>
    exec_step cd script cfg a t (pcs k) w = (w', pc') \<Longrightarrow>
    int_step rs cd script cfg (w, pcs, reqs) (w', pcs(k := pc'), reqs)"
| i_again: "pcs k = Done res \<Longrightarrow> int_step rs cd script cfg (w, pcs, reqs) (w, pcs(k := Begin), reqs)"
| i_deliver: "t \<in> set (w_tasks w) \<Longrightarrow> map_of Mux (t_type t) = Some WebhookHandler \<Longrightarrow>
    handleWebhook cd cfg send a t w = (w', res) \<Longrightarrow> int_step rs cd script cfg (w, pcs, reqs) (w', pcs, reqs)"

definition int_start :: "engine \<Rightarrow> bool" where
  "int_start s =
     (case s of (w, pcs, reqs) \<Rightarrow>
        w_table w = Map.empty \<and> w_tasks w = [] \<and> w_requests w = [] \<and>
        pcs = (\<lambda>_. Begin) \<and> reqs = (\<lambda>_. CBegin))"

abbreviation "engine_reach rs cd script cfg \<equiv> reach int_start (int_step rs cd script cfg)"

section \<open>How the table evolves\<close>

text \<open>Rows are never lost, their input never changes, and they stay well-formed.\<close>

definition grows :: "table \<Rightarrow> table \<Rightarrow> bool" where
  "grows tbl tbl' =
     (\<forall>k r. tbl k = Some r \<longrightarrow> (\<exists>r'. tbl' k = Some r' \<and> same_input r r' \<and> (row_wf r \<longrightarrow> row_wf r')))"

lemma same_input_trans: "same_input r r' \<Longrightarrow> same_input r' r'' \<Longrightarrow> same_input r r''"
  by (simp add: same_input_def)

lemma grows_refl [simp]: "grows tbl tbl"
  by (simp add: grows_def)

lemma growsE:
  assumes "grows tbl tbl'" and "tbl k = Some r"
  obtains r' where "tbl' k = Some r'" "same_input r r'" "row_wf r \<Longrightarrow> row_wf r'"
  using assms unfolding grows_def by blast

lemma put_seq_grows:
  assumes "list_all full_write cs"
  shows "grows tbl (put_seq db_put cs tbl)"
proof -
  have "\<exists>r'. put_seq db_put cs tbl k = Some r' \<and> same_input r r' \<and> (row_wf r \<longrightarrow> row_wf r')"
    if "tbl k = Some r" for k r
  proof (rule store.put_seq_keeps [where P = "\<lambda>x. \<exists>r'. x = Some r' \<and> same_input r r' \<and> (row_wf r \<longrightarrow> row_wf r')"])
    show "\<exists>r'. tbl k = Some r' \<and> same_input r r' \<and> (row_wf r \<longrightarrow> row_wf r')" using that by simp
  next
    fix c x
    assume "c \<in> set cs" and x: "\<exists>r'. x = Some r' \<and> same_input r r' \<and> (row_wf r \<longrightarrow> row_wf r')"
    then have "full_write c" using assms by (simp add: list_all_iff)
    with x show "\<exists>r'. db_change c x = Some r' \<and> same_input r r' \<and> (row_wf r \<longrightarrow> row_wf r')"
      by (cases c) auto
  qed
  then show ?thesis by (simp add: grows_def)
qed

lemma row_writes_grows: "row_writes i cs \<Longrightarrow> grows tbl (put_seq db_put cs tbl)"
  by (rule put_seq_grows) (auto simp: row_writes_def list_all_iff)

lemma row_writes_None:
  assumes "row_writes i cs" and "tbl k = None"
  shows "put_seq db_put cs tbl k = None"
proof (rule store.put_seq_keeps [where P = "\<lambda>x. x = None"])
  fix c x
  assume "c \<in> set cs" and "x = (None :: Submission option)"
  with assms(1) show "db_change c x = None"
    by (cases c) (auto simp: row_writes_def list_all_iff)
qed (rule assms(2))

section \<open>Rows, tasks and deliveries\<close>

text \<open>
  A row is well-formed, stored under its id, for a registered language, within the size limits, and its
  webhook address passed validation, with what the resolver said at that time.
\<close>

definition row_ok :: "resolvers \<Rightarrow> Config \<Rightarrow> uuid \<Rightarrow> Submission \<Rightarrow> bool" where
  "row_ok rs cfg k r =
     (row_wf r \<and> sub_ID r = k \<and> Get (sub_Language r) \<noteq> None \<and>
      int (length (sub_Code r)) \<le> MaxCodeBytes cfg \<and> int (length (sub_Stdin r)) \<le> MaxStdinBytes cfg \<and>
      (\<forall>u. sub_WebhookUrl r = Some u \<longrightarrow> (\<exists>look. rs look \<and> Validate look u (WebhookAllowPrivate cfg) = None)))"

definition table_ok :: "resolvers \<Rightarrow> Config \<Rightarrow> table \<Rightarrow> bool" where
  "table_ok rs cfg tbl = (\<forall>k r. tbl k = Some r \<longrightarrow> row_ok rs cfg k r)"

definition urls_utf8 :: "table \<Rightarrow> bool" where
  "urls_utf8 tbl = (\<forall>k r u. tbl k = Some r \<longrightarrow> sub_WebhookUrl r = Some u \<longrightarrow> ValidString u)"

text \<open>
  A task is in the queue of its kind and can be read: an execution task names an existing row, a webhook
  task an existing row and its address.
\<close>

definition task_ok :: "codec \<Rightarrow> table \<Rightarrow> task \<Rightarrow> bool" where
  "task_ok cd tbl t =
     ((t_type t = TypeExecute \<and> t_queue t = QueueDefault \<and>
        (\<exists>p r. cd_unmarshal_exec cd (t_payload t) = Inr p \<and> tbl (ep_SubmissionID p) = Some r)) \<or>
      (t_type t = TypeWebhook \<and> t_queue t = QueueWebhooks \<and>
        (\<exists>p r. cd_unmarshal_hook cd (t_payload t) = Inr p \<and> tbl (wp_SubmissionID p) = Some r \<and>
           sub_WebhookUrl r = Some (wp_URL p))))"

text \<open>A delivery goes to the address of a submission.\<close>

definition request_ok :: "table \<Rightarrow> request \<Rightarrow> bool" where
  "request_ok tbl rq = (\<exists>k r. tbl k = Some r \<and> sub_WebhookUrl r = Some (rq_URL rq))"

definition world_ok :: "resolvers \<Rightarrow> codec \<Rightarrow> Config \<Rightarrow> world \<Rightarrow> bool" where
  "world_ok rs cd cfg w =
     (table_ok rs cfg (w_table w) \<and> urls_utf8 (w_table w) \<and> (\<forall>t\<in>set (w_tasks w). task_ok cd (w_table w) t) \<and>
      (\<forall>rq\<in>set (w_requests w). request_ok (w_table w) rq))"

text \<open>
  What was marshalled is read back: an id always, an address if it is well-formed UTF-8 (other bytes are
  replaced by package \<^verbatim>\<open>encoding/json\<close>).
\<close>

definition codecs_ok :: "codec \<Rightarrow> bool" where
  "codecs_ok cd =
     (codec_ok (cd_marshal_exec cd) (cd_unmarshal_exec cd) \<and>
      (\<forall>p. ValidString (wp_URL p) \<longrightarrow> (\<exists>b. cd_marshal_hook cd p = Inr b \<and> cd_unmarshal_hook cd b = Inr p)))"

lemma same_input_url: "same_input r r' \<Longrightarrow> sub_WebhookUrl r' = sub_WebhookUrl r"
  by (simp add: same_input_def)

lemma grows_url:
  assumes "grows tbl tbl'" and "tbl k = Some r" and "sub_WebhookUrl r = u"
  shows "\<exists>r'. tbl' k = Some r' \<and> sub_WebhookUrl r' = u"
  using assms by (auto elim!: growsE simp: same_input_url)

lemma task_ok_grows: "task_ok cd tbl t \<Longrightarrow> grows tbl tbl' \<Longrightarrow> task_ok cd tbl' t"
  unfolding task_ok_def using grows_url by (elim disjE conjE exE) blast+

lemma request_ok_grows: "request_ok tbl rq \<Longrightarrow> grows tbl tbl' \<Longrightarrow> request_ok tbl' rq"
  unfolding request_ok_def using grows_url by blast

lemma execute_task_ok:
  assumes "codecs_ok cd" and "NewExecuteTask (cd_marshal_exec cd) i timeout = Inr t" and "tbl i = Some r"
  shows "task_ok cd tbl t"
proof -
  obtain b where "cd_marshal_exec cd \<lparr>ep_SubmissionID = i\<rparr> = Inr b" "cd_unmarshal_exec cd b = Inr \<lparr>ep_SubmissionID = i\<rparr>"
    using assms(1) unfolding codecs_ok_def by (blast elim: codec_okE)
  with assms(2,3) show ?thesis by (auto simp: NewExecuteTask_def task_ok_def)
qed

lemma webhook_task_ok:
  assumes "codecs_ok cd" and "NewWebhookTask (cd_marshal_hook cd) i url n = Inr t"
    and "tbl i = Some r" "sub_WebhookUrl r = Some url" and "ValidString url"
  shows "task_ok cd tbl t"
proof -
  let ?p = "\<lparr>wp_SubmissionID = i, wp_URL = url\<rparr>"
  obtain b where "cd_marshal_hook cd ?p = Inr b" "cd_unmarshal_hook cd b = Inr ?p"
    using assms(1,5) unfolding codecs_ok_def by (elim conjE) (drule spec [of _ ?p], auto)
  with assms(2-4) show ?thesis by (auto simp: NewWebhookTask_def task_ok_def)
qed

text \<open>
  The shared part of every preservation proof: rows are only added or changed within their input, and
  every new task and request is in order.
\<close>

lemma world_ok_step:
  assumes "world_ok rs cd cfg w" and "grows (w_table w) (w_table w')" and "table_ok rs cfg (w_table w')"
    and "urls_utf8 (w_table w')"
    and "\<And>t. t \<in> set (w_tasks w') \<Longrightarrow> t \<in> set (w_tasks w) \<or> task_ok cd (w_table w') t"
    and "\<And>rq. rq \<in> set (w_requests w') \<Longrightarrow> rq \<in> set (w_requests w) \<or> request_ok (w_table w') rq"
  shows "world_ok rs cd cfg w'"
  using assms task_ok_grows [OF _ assms(2)] request_ok_grows [OF _ assms(2)]
  unfolding world_ok_def by blast

lemma world_ok_table:
  "world_ok rs cd cfg w \<Longrightarrow> grows (w_table w) (w_table w') \<Longrightarrow> table_ok rs cfg (w_table w') \<Longrightarrow>
   urls_utf8 (w_table w') \<Longrightarrow> w_tasks w' = w_tasks w \<Longrightarrow> w_requests w' = w_requests w \<Longrightarrow> world_ok rs cd cfg w'"
  by (rule world_ok_step) auto

lemma row_ok_same_input:
  "row_ok rs cfg k r \<Longrightarrow> same_input r r' \<Longrightarrow> (row_wf r \<Longrightarrow> row_wf r') \<Longrightarrow> row_ok rs cfg k r'"
  by (simp add: row_ok_def same_input_def)

lemma table_ok_put_seq:
  assumes "table_ok rs cfg tbl" and "row_writes i cs"
  shows "table_ok rs cfg (put_seq db_put cs tbl)"
  unfolding table_ok_def
proof (intro allI impI)
  fix k r'
  assume r': "put_seq db_put cs tbl k = Some r'"
  then obtain r where r: "tbl k = Some r"
    using row_writes_None [OF assms(2), of tbl k] by (cases "tbl k") auto
  with row_writes_grows [OF assms(2), of tbl] r' have "same_input r r'" "row_wf r \<Longrightarrow> row_wf r'"
    by (auto elim!: growsE)
  moreover have "row_ok rs cfg k r" using assms(1) r by (simp add: table_ok_def)
  ultimately show "row_ok rs cfg k r'" by (blast intro: row_ok_same_input)
qed

lemma urls_utf8_put_seq:
  assumes "urls_utf8 tbl" and "row_writes i cs"
  shows "urls_utf8 (put_seq db_put cs tbl)"
  unfolding urls_utf8_def
proof (intro allI impI)
  fix k r' u
  assume r': "put_seq db_put cs tbl k = Some r'" and u: "sub_WebhookUrl r' = Some u"
  then obtain r where r: "tbl k = Some r"
    using row_writes_None [OF assms(2), of tbl k] by (cases "tbl k") auto
  with row_writes_grows [OF assms(2), of tbl] r' have "same_input r r'" by (auto elim!: growsE)
  with r u assms(1) show "ValidString u" by (auto simp: urls_utf8_def same_input_def)
qed

lemma grows_new: "tbl k = None \<Longrightarrow> grows tbl (tbl(k \<mapsto> r))"
  by (auto simp: grows_def)

section \<open>Submissions\<close>

lemma CreateSubmission_table:
  "fst (CreateSubmission de a tbl) = tbl \<or>
   tbl (cp_ID a) = None \<and> fst (CreateSubmission de a tbl) = tbl(cp_ID a \<mapsto> new_row de a)"
  by (auto simp: CreateSubmission_def statement_def split: db_reply.splits)

lemma request_row_ok:
  "check_request cfg c req = Inr (spec, url) \<Longrightarrow> rs (ac_lookupIP c) \<Longrightarrow>
   row_ok rs cfg (ac_uuid c) (new_row (ac_create c) (request_params c req spec url))"
  using check_request_Inr [of cfg c req spec url] by (auto simp: row_ok_def request_params_def split: option.splits)

lemma request_url_utf8:
  assumes "check_request cfg c req = Inr (spec, url)" and "utf8_decoder (ac_decode c)" and "ac_decode c n = Decoded req"
    and "urls_utf8 tbl"
  shows "urls_utf8 (fst (CreateSubmission (ac_create c) (request_params c req spec url) tbl))"
proof -
  have "ValidString (cr_WebhookURL req)" using assms(2,3) by (simp add: utf8_decoder_def)
  then have "ValidString u" if "url = Some u" for u
    using check_request_Inr(7) [OF assms(1)] that by (simp add: ValidString_TrimSpace)
  with assms(4) CreateSubmission_table [of "ac_create c" "request_params c req spec url" tbl] show ?thesis
    by (auto simp: urls_utf8_def request_params_def split: if_split_asm)
qed

section \<open>What a statement keeps\<close>

text \<open>What a worker holds of a submission is what the table holds, as far as the input goes.\<close>

definition holds_row :: "table \<Rightarrow> uuid \<Rightarrow> Submission \<Rightarrow> bool" where
  "holds_row tbl i sub = (\<exists>r. tbl i = Some r \<and> same_input r sub)"

fun pc_ok :: "table \<Rightarrow> pc \<Rightarrow> bool" where
  "pc_ok tbl Begin = True"
| "pc_ok tbl (Loaded i sub) = holds_row tbl i sub"
| "pc_ok tbl (Marked i sub spec) = (holds_row tbl i sub \<and> Get (sub_Language sub) = Some spec)"
| "pc_ok tbl (Ran i sub res) = holds_row tbl i sub"
| "pc_ok tbl (Settled sub) = holds_row tbl (sub_ID sub) sub"
| "pc_ok tbl (Done res) = True"

fun create_pc_ok :: "table \<Rightarrow> create_pc \<Rightarrow> bool" where
  "create_pc_ok tbl (CStored i sub) = (tbl i \<noteq> None)"
| "create_pc_ok tbl (CUnqueued i) = (tbl i \<noteq> None)"
| "create_pc_ok tbl _ = True"

lemma holds_row_grows:
  assumes "holds_row tbl i sub" and "grows tbl tbl'"
  shows "holds_row tbl' i sub"
proof -
  from assms(1) obtain r where r: "tbl i = Some r" "same_input r sub" unfolding holds_row_def by blast
  from assms(2) r(1) obtain r' where "tbl' i = Some r'" "same_input r r'" by (blast elim: growsE)
  with r(2) show ?thesis by (auto simp: holds_row_def same_input_def)
qed

lemma pc_ok_grows: "pc_ok tbl pc \<Longrightarrow> grows tbl tbl' \<Longrightarrow> pc_ok tbl' pc"
  by (cases pc) (auto intro: holds_row_grows)

lemma grows_dom: "grows tbl tbl' \<Longrightarrow> tbl k \<noteq> None \<Longrightarrow> tbl' k \<noteq> None"
  by (auto elim: growsE)

lemma create_pc_ok_grows: "create_pc_ok tbl q \<Longrightarrow> grows tbl tbl' \<Longrightarrow> create_pc_ok tbl' q"
  by (cases q) (auto dest: grows_dom)

subsection \<open>A request\<close>

lemma CreateSubmission_grows: "grows tbl (fst (CreateSubmission de a tbl))"
  using CreateSubmission_table [of de a tbl] by (auto intro: grows_new)

text \<open>The first statement inserts a row that is in order, or nothing.\<close>

lemma create_begin:
  assumes "create_step cd cfg c CBegin w = (w', q')"
  obtains (refused) rp where "w' = w" "q' = CDone rp"
  | (tried) req spec url where "check_request cfg c req = Inr (spec, url)" "ac_decode c (body_limit cfg) = Decoded req"
      "w' = w\<lparr>w_table := fst (CreateSubmission (ac_create c) (request_params c req spec url) (w_table w))\<rparr>"
      "create_pc_ok (w_table w') q'"
proof (cases "ac_decode c (body_limit cfg)")
  case (Decoded req)
  show thesis
  proof (cases "ac_then_EOF c (body_limit cfg)")
    case eof: True
    show thesis
    proof (cases "check_request cfg c req")
      case (Inl r)
      with Decoded eof assms refused show thesis by (auto simp: Let_def)
    next
      case (Inr x)
      then obtain spec url where x: "check_request cfg c req = Inr (spec, url)" by (cases x) auto
      show thesis
        by (rule tried [OF x Decoded])
          (use Decoded eof assms x in
            \<open>auto simp: request_params_def Let_def dest: CreateSubmission_Inr(3) split: prod.splits sum.splits\<close>)
    qed
  next
    case False
    with Decoded assms refused show thesis by (auto simp: Let_def)
  qed
qed (use assms refused in \<open>auto simp: Let_def\<close>)

lemma table_ok_create:
  assumes "table_ok rs cfg tbl" and "check_request cfg c req = Inr (spec, url)" and "rs (ac_lookupIP c)"
  shows "table_ok rs cfg (fst (CreateSubmission (ac_create c) (request_params c req spec url) tbl))"
  using assms(1,3) request_row_ok [OF assms(2), of rs]
    CreateSubmission_table [of "ac_create c" "request_params c req spec url" tbl]
  by (auto simp: table_ok_def request_params_def split: if_splits)

lemma EnqueueContext_frame:
  "EnqueueContext rp t w = (w', e) \<Longrightarrow> w_table w' = w_table w \<and> w_requests w' = w_requests w \<and>
     (w_tasks w' = w_tasks w \<or> w_tasks w' = w_tasks w @ [t])"
  by (auto simp: EnqueueContext_def split: db_reply.splits)

lemma create_step_keeps:
  assumes "create_step cd cfg c q w = (w', q')" and "codecs_ok cd" and "world_ok rs cd cfg w"
    and "create_pc_ok (w_table w) q" and "rs (ac_lookupIP c)" and "utf8_decoder (ac_decode c)"
  shows "world_ok rs cd cfg w' \<and> grows (w_table w) (w_table w') \<and> create_pc_ok (w_table w') q'"
proof (cases q)
  case CBegin
  from assms(1) [unfolded CBegin] show ?thesis
  proof (cases rule: create_begin)
    case (refused rp)
    with assms(3) show ?thesis by simp
  next
    case (tried req spec url)
    have "grows (w_table w) (w_table w')" unfolding tried(3) by (simp add: CreateSubmission_grows)
    moreover have "table_ok rs cfg (w_table w')"
      using assms(3,5) table_ok_create [OF _ tried(1), of rs] unfolding tried(3) by (simp add: world_ok_def)
    moreover have "urls_utf8 (w_table w')"
      using assms(3) request_url_utf8 [OF tried(1) assms(6) tried(2)] unfolding tried(3) by (simp add: world_ok_def)
    moreover have "w_tasks w' = w_tasks w" "w_requests w' = w_requests w" unfolding tried(3) by simp_all
    ultimately show ?thesis using tried(4) world_ok_table [OF assms(3)] by simp
  qed
next
  case (CStored i sub)
  from assms(4) CStored obtain r where r: "w_table w i = Some r" by auto
  show ?thesis
  proof (cases "NewExecuteTask (cd_marshal_exec cd) i (taskTimeout cfg)")
    case (Inl e)
    with assms CStored show ?thesis by auto
  next
    case (Inr t)
    obtain w2 e where w2: "EnqueueContext (ac_enqueue c) t w = (w2, e)" by fastforce
    note fr = EnqueueContext_frame [OF w2]
    have w': "w' = w2" "create_pc_ok (w_table w2) q'"
      using assms(1) CStored Inr w2 fr r by (auto simp: Let_def split: option.splits)
    have "task_ok cd (w_table w2) t" using assms(2) Inr r fr by (intro execute_task_ok) auto
    moreover have "table_ok rs cfg (w_table w2)" "urls_utf8 (w_table w2)" using assms(3) fr by (simp_all add: world_ok_def)
    ultimately have "world_ok rs cd cfg w2" using fr by (intro world_ok_step [OF assms(3)]) auto
    with w' fr show ?thesis by simp
  qed
next
  case (CUnqueued i)
  let ?f = "Fail (ac_fail c) \<lparr>fs_ID = i, fs_Error = Some ''could not enqueue execution job''\<rparr>"
  have w': "w' = w\<lparr>w_table := put_seq db_put [?f] (w_table w)\<rparr>" "create_pc_ok (w_table w') q'"
    using assms(1) CUnqueued by auto
  have rw: "row_writes i [?f]" by simp
  have gr: "grows (w_table w) (w_table w')" unfolding w' using row_writes_grows [OF rw] by simp
  moreover have "table_ok rs cfg (w_table w')"
    unfolding w' using table_ok_put_seq [OF _ rw] assms(3) by (simp add: world_ok_def del: put_seq.simps)
  moreover have "urls_utf8 (w_table w')"
    unfolding w' using urls_utf8_put_seq [OF _ rw] assms(3) by (simp add: world_ok_def del: put_seq.simps)
  moreover have "w_tasks w' = w_tasks w" "w_requests w' = w_requests w" unfolding w' by simp_all
  ultimately show ?thesis using w'(2) world_ok_table [OF assms(3)] by simp
next
  case (CDone rp)
  with assms show ?thesis by simp
qed

subsection \<open>A worker\<close>

text \<open>One step of a worker writes rows that exist.\<close>

lemma exec_step_writes:
  assumes "exec_step cd script cfg a t pc w = (w', pc')"
  shows "\<exists>i cs. row_writes i cs \<and> w_table w' = put_seq db_put cs (w_table w)"
proof (cases pc)
  case Begin
  with assms have "w' = w"
    by (auto simp: Let_def split: sum.splits if_splits)
  then show ?thesis by (intro exI [of _ undefined] exI [of _ "[]"]) simp
next
  case (Loaded i sub)
  show ?thesis
  proof (cases "Get (sub_Language sub)")
    case None
    let ?f = "Fail (at_fail a) \<lparr>fs_ID = i, fs_Error = Some (''unsupported language '' @ sub_Language sub)\<rparr>"
    from assms Loaded None show ?thesis
      by (intro exI [of _ i] exI [of _ "[?f]"]) (auto simp: fail_table)
  next
    case (Some spec)
    with assms Loaded show ?thesis
      by (intro exI [of _ i] exI [of _ "[Mark (at_mark a) i]"]) (auto split: prod.splits sum.splits)
  qed
next
  case (Marked i sub spec)
  with assms show ?thesis by (intro exI [of _ i] exI [of _ "[]"]) (auto split: prod.splits)
next
  case (Ran i sub res)
  show ?thesis
  proof (cases res)
    case (Inl e)
    let ?f = "Fail (at_fail a) \<lparr>fs_ID = i, fs_Error = Some (''execution engine error: '' @ e)\<rparr>"
    from assms Ran Inl show ?thesis
      by (intro exI [of _ i] exI [of _ "if isFinalAttempt a then [?f] else []"])
        (auto simp: fail_table split: if_splits)
  next
    case (Inr out)
    with assms Ran show ?thesis
      by (intro exI [of _ i] exI [of _ "[Complete (at_complete a) (complete_params i out)]"])
        (auto split: prod.splits sum.splits)
  qed
next
  case (Settled sub)
  with assms show ?thesis by (intro exI [of _ undefined] exI [of _ "[]"]) auto
next
  case (Done res)
  with assms show ?thesis by (intro exI [of _ undefined] exI [of _ "[]"]) simp
qed

lemma exec_step_grows: "exec_step cd script cfg a t pc w = (w', pc') \<Longrightarrow> grows (w_table w) (w_table w')"
  using exec_step_writes row_writes_grows by metis

text \<open>A webhook task that is enqueued is for the submission and its address.\<close>

lemma enqueueWebhook_tasks:
  assumes "t \<in> set (w_tasks (enqueueWebhook cd cfg rp sub w))" and "codecs_ok cd"
    and "tbl (sub_ID sub) = Some r" and "sub_WebhookUrl r = sub_WebhookUrl sub" and "urls_utf8 tbl"
  shows "t \<in> set (w_tasks w) \<or> task_ok cd tbl t"
proof (cases "t \<in> set (w_tasks w)")
  case False
  with assms(1) obtain url where url: "sub_WebhookUrl sub = Some url"
      "NewWebhookTask (cd_marshal_hook cd) (sub_ID sub) url (WebhookMaxRetries cfg) = Inr t"
    by (auto simp: enqueueWebhook_def EnqueueContext_def
        split: option.splits sum.splits db_reply.splits if_splits)
  with assms(3-5) have "ValidString url" by (auto simp: urls_utf8_def)
  with url assms(2-4) have "task_ok cd tbl t" by (intro webhook_task_ok [OF _ url(2), of tbl r]) auto
  then show ?thesis ..
qed simp

lemma exec_step_requests: "exec_step cd script cfg a t pc w = (w', pc') \<Longrightarrow> w_requests w' = w_requests w"
  by (cases pc) (auto simp: Let_def split: prod.splits sum.splits option.splits if_splits)

lemma exec_step_tasks:
  assumes "exec_step cd script cfg a t' pc w = (w', pc')" and "t \<in> set (w_tasks w')"
    and "codecs_ok cd" and "pc_ok (w_table w) pc" and "urls_utf8 (w_table w)"
  shows "t \<in> set (w_tasks w) \<or> task_ok cd (w_table w') t"
proof (cases pc)
  case (Settled sub)
  with assms(4) obtain r where "w_table w (sub_ID sub) = Some r" "sub_WebhookUrl r = sub_WebhookUrl sub"
    by (auto simp: holds_row_def same_input_def)
  with Settled assms(1-3,5) show ?thesis by (auto dest: enqueueWebhook_tasks)
qed (use assms in \<open>auto simp: Let_def split: prod.splits sum.splits option.splits if_splits\<close>)

text \<open>The row a statement returns is the row that is stored, under its id.\<close>

lemma completed_row:
  assumes "CompleteSubmission de (complete_params i out) tbl = (tbl', Inr r)" and "table_ok rs cfg tbl"
  shows "holds_row tbl' (sub_ID r) r"
proof -
  have "tbl' i = Some r"
    using db_put_answer [of "Complete de (complete_params i out)" tbl r] assms(1) by simp
  moreover have "table_ok rs cfg tbl'"
    using table_ok_put_seq [OF assms(2), of i "[Complete de (complete_params i out)]"] assms(1) by simp
  ultimately show ?thesis by (auto simp: table_ok_def row_ok_def holds_row_def)
qed

lemma exec_step_pc:
  assumes "exec_step cd script cfg a t pc w = (w', pc')" and "pc_ok (w_table w) pc"
    and "table_ok rs cfg (w_table w)"
  shows "pc_ok (w_table w') pc'"
proof (cases pc)
  case Begin
  with assms(1) show ?thesis
    by (auto simp: Let_def holds_row_def GetSubmission_def statement_def
        split: sum.splits if_splits db_reply.splits option.splits)
next
  case (Loaded i sub)
  show ?thesis
  proof (cases pc')
    case (Marked j sub' spec)
    with Loaded assms(1) have "j = i" "sub' = sub" "Get (sub_Language sub) = Some spec"
      by (auto split: option.splits prod.splits sum.splits)
    with assms Loaded Marked exec_step_grows [OF assms(1)] show ?thesis
      by (simp add: holds_row_grows del: exec_step.simps)
  qed (use Loaded assms(1) in \<open>auto split: option.splits prod.splits sum.splits\<close>)
next
  case (Marked i sub spec)
  with assms show ?thesis by (auto split: prod.splits)
next
  case (Ran i sub res)
  show ?thesis
  proof (cases res)
    case (Inl e)
    from assms(2) Ran have held: "holds_row (w_table w) i sub" by simp
    with assms(3) have "sub_ID sub = i" by (auto simp: holds_row_def table_ok_def row_ok_def same_input_def)
    with held holds_row_grows [OF held exec_step_grows [OF assms(1)]] assms(1) Ran Inl show ?thesis
      by (auto split: if_splits)
  next
    case (Inr out)
    with assms Ran show ?thesis by (auto split: prod.splits sum.splits dest: completed_row)
  qed
qed (use assms(1) in auto)

lemma exec_step_keeps:
  assumes "exec_step cd script cfg a t pc w = (w', pc')" and "codecs_ok cd" and "world_ok rs cd cfg w"
    and "pc_ok (w_table w) pc"
  shows "world_ok rs cd cfg w' \<and> grows (w_table w) (w_table w') \<and> pc_ok (w_table w') pc'"
proof -
  note gr = exec_step_grows [OF assms(1)]
  have tbl: "table_ok rs cfg (w_table w)" and urls: "urls_utf8 (w_table w)" using assms(3) by (simp_all add: world_ok_def)
  obtain i cs where cs: "row_writes i cs" "w_table w' = put_seq db_put cs (w_table w)"
    using exec_step_writes [OF assms(1)] by blast
  have "world_ok rs cd cfg w'"
  proof (rule world_ok_step [OF assms(3) gr])
    show "table_ok rs cfg (w_table w')" unfolding cs(2) using tbl cs(1) by (rule table_ok_put_seq)
    show "urls_utf8 (w_table w')" unfolding cs(2) using urls cs(1) by (rule urls_utf8_put_seq)
    show "t \<in> set (w_tasks w) \<or> task_ok cd (w_table w') t" if "t \<in> set (w_tasks w')" for t
      using exec_step_tasks [OF assms(1) that assms(2,4) urls] .
    show "rq \<in> set (w_requests w) \<or> request_ok (w_table w') rq" if "rq \<in> set (w_requests w')" for rq
      using exec_step_requests [OF assms(1)] that by simp
  qed
  with gr exec_step_pc [OF assms(1,4) tbl] show ?thesis by blast
qed

subsection \<open>A delivery\<close>

lemma handleWebhook_frame:
  "handleWebhook cd cfg send a t w = (w', res) \<Longrightarrow> w_table w' = w_table w \<and> w_tasks w' = w_tasks w"
  by (auto simp: handleWebhook_def Let_def split: sum.splits if_splits prod.splits)

text \<open>The address of a delivery is the one in its task.\<close>

lemma handleWebhook_requests:
  assumes "handleWebhook cd cfg send a t w = (w', res)" and "rq \<in> set (w_requests w')"
  shows "rq \<in> set (w_requests w) \<or> (\<exists>p. cd_unmarshal_hook cd (t_payload t) = Inr p \<and> rq_URL rq = wp_URL p)"
  using assms
  by (auto simp: handleWebhook_def Let_def split: sum.splits if_splits prod.splits dest!: Deliver_spec(2))

lemma deliver_keeps:
  assumes "handleWebhook cd cfg send a t w = (w', res)" and "t \<in> set (w_tasks w)"
    and "map_of Mux (t_type t) = Some WebhookHandler" and "world_ok rs cd cfg w"
  shows "world_ok rs cd cfg w'"
proof -
  note fr = handleWebhook_frame [OF assms(1)]
  have "task_ok cd (w_table w) t" using assms(2,4) by (simp add: world_ok_def)
  moreover have "t_type t \<noteq> TypeExecute" using assms(3) by (auto simp: Mux_def)
  ultimately obtain p r where p: "cd_unmarshal_hook cd (t_payload t) = Inr p"
    "w_table w (wp_SubmissionID p) = Some r" "sub_WebhookUrl r = Some (wp_URL p)"
    by (auto simp: task_ok_def)
  then have new: "request_ok (w_table w') rq" if "rq_URL rq = wp_URL p" for rq
    using that fr unfolding request_ok_def by metis
  show ?thesis
  proof (rule world_ok_step [OF assms(4)])
    show "rq \<in> set (w_requests w) \<or> request_ok (w_table w') rq" if "rq \<in> set (w_requests w')" for rq
      using handleWebhook_requests [OF assms(1) that] p(1) new by auto
  qed (use fr assms(4) in \<open>simp_all add: world_ok_def\<close>)
qed

section \<open>The invariant\<close>

fun engine_ok :: "resolvers \<Rightarrow> codec \<Rightarrow> Config \<Rightarrow> engine \<Rightarrow> bool" where
  "engine_ok rs cd cfg (w, pcs, reqs) =
     (world_ok rs cd cfg w \<and> (\<forall>k. pc_ok (w_table w) (pcs k)) \<and> (\<forall>k. create_pc_ok (w_table w) (reqs k)))"

lemma engine_ok_step:
  assumes "engine_ok rs cd cfg s" and "int_step rs cd script cfg s s'" and "codecs_ok cd"
  shows "engine_ok rs cd cfg s'"
  using assms(2,1)
proof cases
  case (i_serve c reqs k w w' q' pcs)
  with assms(1,3) have "world_ok rs cd cfg w'" "grows (w_table w) (w_table w')" "create_pc_ok (w_table w') q'"
    using create_step_keeps [OF i_serve(5)] by auto
  with i_serve assms(1) show ?thesis by (auto intro: pc_ok_grows create_pc_ok_grows)
next
  case (i_execute t w a pcs k w' pc' reqs)
  with assms(1,3) have "world_ok rs cd cfg w'" "grows (w_table w) (w_table w')" "pc_ok (w_table w') pc'"
    using exec_step_keeps [OF i_execute(5)] by auto
  with i_execute assms(1) show ?thesis by (auto intro: pc_ok_grows create_pc_ok_grows)
next
  case (i_deliver t w send a w' res pcs reqs)
  with assms(1) show ?thesis
    using deliver_keeps [OF i_deliver(5,3,4)] handleWebhook_frame [OF i_deliver(5)] by simp
qed (use assms(1) in auto)

interpretation engine: inductive_invariant int_start "int_step rs cd script cfg"
    "\<lambda>s. codecs_ok cd \<longrightarrow> engine_ok rs cd cfg s" for rs cd script cfg
proof unfold_locales
  fix s
  assume "int_start s"
  then show "codecs_ok cd \<longrightarrow> engine_ok rs cd cfg s"
    by (cases s) (auto simp: int_start_def world_ok_def table_ok_def urls_utf8_def)
qed (blast intro: engine_ok_step)

section \<open>Two runs\<close>

text \<open>
  A submission is stored and its task is enqueued; the queue's answer reaches the server or is lost. The
  task is delivered twice; both workers load the row before either of them marks it; the first one
  completes it.
\<close>

lemma sample_codecs_ok [simp]: "codecs_ok sample_codec"
  by (simp add: codecs_ok_def codec_ok_def sample_codec_def)

definition demo_start :: world where
  "demo_start = empty_world\<lparr>w_exec := warm_executor\<rparr>"

definition demo_url :: string where
  "demo_url = ''https://example.com/hook''"

definition demo_request :: createSubmissionRequest where
  "demo_request = sample_request\<lparr>cr_WebhookURL := demo_url\<rparr>"

definition demo_row :: Submission where
  "demo_row = new_row (ok_db 1) (request_params sample_call demo_request python_spec (Some demo_url))"

definition demo_task :: task where
  "demo_task = \<lparr>t_type = TypeExecute, t_payload = ''xxxxxxx'', t_queue = QueueDefault, t_max_retry = 2,
     t_timeout = taskTimeout default_config, t_retention = 3600 * second\<rparr>"

definition demo_hook :: task where
  "demo_hook = \<lparr>t_type = TypeWebhook, t_payload = ''xxxxxxx:'' @ demo_url, t_queue = QueueWebhooks,
     t_max_retry = WebhookMaxRetries default_config, t_timeout = 30 * second, t_retention = 3600 * second\<rparr>"

definition demo_world :: "Submission \<Rightarrow> world" where
  "demo_world r = demo_start\<lparr>w_table := [7 \<mapsto> r], w_tasks := [demo_task]\<rparr>"

definition demo_attempt :: attempt where
  "demo_attempt = sample_attempt (docker_of (''6'', [])) 0"

lemma demo_simps [simp]:
  "w_table (demo_world r) = [7 \<mapsto> r]" "w_tasks (demo_world r) = [demo_task]" "w_exec (demo_world r) = warm_executor"
  "sub_Language demo_row = ''python''" "sub_WebhookUrl demo_row = Some demo_url" "\<not> terminal demo_row" "sub_ID demo_row = 7"
  "cd_unmarshal_exec sample_codec (t_payload demo_task) = Inr \<lparr>ep_SubmissionID = 7\<rparr>"
  "cd_unmarshal_hook sample_codec (t_payload demo_hook) = Inr \<lparr>wp_SubmissionID = 7, wp_URL = demo_url\<rparr>"
  "map_of Mux (t_type demo_task) = Some ExecuteHandler" "map_of Mux (t_type demo_hook) = Some WebhookHandler"
  "db_reply (at_get demo_attempt) = Answered" "db_reply (at_mark demo_attempt) = Answered"
  "at_docker demo_attempt = docker_of (''6'', [])" "at_complete demo_attempt = ok_db 4"
  "at_mark demo_attempt = ok_db 3" "at_enqueue demo_attempt = Answered"
  by (simp_all add: demo_world_def demo_start_def demo_row_def demo_task_def demo_hook_def demo_attempt_def Mux_def
      TypeExecute_def TypeWebhook_def
      sample_codec_def request_params_def python_spec_def)

text \<open>A resolver, and a host it never resolves to a public address.\<close>

definition demo_lookup :: "string \<Rightarrow> IP list option" where
  "demo_lookup h = (if h = ''db.internal'' then Some [[10, 0, 0, 5]] else Some [[93, 184, 216, 34]])"

definition demo_rs :: resolvers where
  "demo_rs look = (look ''db.internal'' = Some [[10, 0, 0, 5]])"

definition demo_call :: "db_reply \<Rightarrow> api_call" where
  "demo_call rp = sample_call\<lparr>ac_decode := (\<lambda>_. Decoded demo_request), ac_enqueue := rp,
     ac_lookupIP := demo_lookup\<rparr>"

lemma demo_checked: "check_request default_config (demo_call rp) demo_request = Inr (python_spec, Some demo_url)"
proof -
  have "TrimSpace ''Python '' = ''Python''" "TrimSpace ''print(6)'' = ''print(6)''" "TrimSpace demo_url = demo_url"
    "ValidString ''print(6)''" "ValidString []" "demo_url \<noteq> []"
    "Validate demo_lookup demo_url (WebhookAllowPrivate default_config) = None"
    by code_simp+
  moreover have "ac_lower (demo_call rp) = (\<lambda>s. s)" by (simp add: demo_call_def sample_call_def)
  moreover have "ToLower (\<lambda>s. s) ''Python'' = ''python''" by code_simp
  ultimately show ?thesis
    by (simp add: check_request_def demo_request_def sample_request_def demo_call_def)
qed

lemma demo_call_simps [simp]:
  "ac_decode (demo_call rp) n = Decoded demo_request" "ac_then_EOF (demo_call rp) n" "ac_uuid (demo_call rp) = 7"
  "ac_create (demo_call rp) = ok_db 1" "ac_fail (demo_call rp) = ok_db 2" "ac_enqueue (demo_call rp) = rp"
  "demo_rs (ac_lookupIP (demo_call rp))" "utf8_decoder (ac_decode (demo_call rp))"
proof -
  have "ValidString demo_url" by code_simp
  then show "utf8_decoder (ac_decode (demo_call rp))" by (simp add: utf8_decoder_def demo_call_def demo_request_def)
qed (simp_all add: demo_call_def demo_rs_def demo_lookup_def)

lemma demo_insert:
  "create_step sample_codec default_config (demo_call rp) CBegin demo_start =
     (demo_start\<lparr>w_table := [7 \<mapsto> demo_row]\<rparr>, CStored 7 demo_row)"
proof -
  let ?p = "request_params sample_call demo_request python_spec (Some demo_url)"
  have "CreateSubmission (ok_db 1) ?p Map.empty = ([7 \<mapsto> demo_row], Inr demo_row)"
    by (simp add: CreateSubmission_def statement_def demo_row_def request_params_def opt_text_ok_def)
      (simp add: demo_request_def sample_request_def python_spec_def demo_url_def)
  then show ?thesis by (simp add: demo_start_def demo_checked request_params_def Let_def)
qed

lemma seven_x: "replicate (unat (7 :: uuid)) (CHR ''x'') = ''xxxxxxx''"
proof -
  have u: "unat (7 :: uuid) = 7" by simp
  show ?thesis unfolding u by (simp add: eval_nat_numeral)
qed

lemma demo_enqueue:
  "fst (create_step sample_codec default_config (demo_call Answered) (CStored 7 demo_row)
      (demo_start\<lparr>w_table := [7 \<mapsto> demo_row]\<rparr>)) = demo_world demo_row"
  "create_step sample_codec default_config (demo_call (ReplyLost e)) (CStored 7 demo_row)
      (demo_start\<lparr>w_table := [7 \<mapsto> demo_row]\<rparr>) = (demo_world demo_row, CUnqueued 7)"
proof -
  have "NewExecuteTask (cd_marshal_exec sample_codec) 7 (taskTimeout default_config) = Inr demo_task"
    using seven_x by (simp add: NewExecuteTask_def sample_codec_def demo_task_def)
  then show "fst (create_step sample_codec default_config (demo_call Answered) (CStored 7 demo_row)
      (demo_start\<lparr>w_table := [7 \<mapsto> demo_row]\<rparr>)) = demo_world demo_row"
    "create_step sample_codec default_config (demo_call (ReplyLost e)) (CStored 7 demo_row)
      (demo_start\<lparr>w_table := [7 \<mapsto> demo_row]\<rparr>) = (demo_world demo_row, CUnqueued 7)"
    by (simp_all add: EnqueueContext_def demo_world_def demo_start_def Let_def)
qed

lemma demo_load:
  "\<not> terminal r \<Longrightarrow>
   exec_step sample_codec ''s'' default_config demo_attempt demo_task Begin (demo_world r) = (demo_world r, Loaded 7 r)"
  by (simp add: GetSubmission_Answered terminal_def)

lemma demo_mark:
  "exec_step sample_codec ''s'' default_config demo_attempt demo_task (Loaded 7 demo_row) (demo_world r) =
     (demo_world (set_running (ok_db 3) r), Marked 7 demo_row python_spec)"
proof -
  have "(demo_world r)\<lparr>w_table := [7 \<mapsto> r']\<rparr> = demo_world r'" for r' by (simp add: demo_world_def)
  then show ?thesis by (simp add: MarkSubmissionRunning_def statement_def update_row_def)
qed

lemma demo_hook_task: "sub_ID r = 7 \<Longrightarrow> sub_WebhookUrl r = Some demo_url \<Longrightarrow> hook_tasks sample_codec default_config r = [demo_hook]"
  using seven_x
  by (simp add: hook_tasks_def NewWebhookTask_def sample_codec_def demo_hook_def) (simp add: demo_url_def)

lemma demo_run:
  "\<exists>ex calls. exec_step sample_codec ''s'' default_config demo_attempt demo_task (Marked 7 demo_row python_spec) (demo_world r) =
     ((demo_world r)\<lparr>w_exec := ex, w_calls := calls\<rparr>, Ran 7 demo_row (Inr (plain_outcome ''6'')))"
proof (rule plain_run [of "''6''" "sub_Code demo_row" "sub_Stdin demo_row"])
  fix ex calls
  assume "Execute ''s'' default_config (docker_of (''6'', [])) python_spec (sub_Code demo_row)
      (sub_Stdin demo_row) warm_executor = (ex, calls, Inr (plain_outcome ''6''))"
  then show ?thesis by auto
qed simp

lemma demo_store:
  assumes "w_table w = [7 \<mapsto> r]"
  shows "exec_step sample_codec ''s'' default_config demo_attempt demo_task (Ran 7 demo_row (Inr (plain_outcome ''6''))) w =
    (w\<lparr>w_table := [7 \<mapsto> set_completed (ok_db 4) (complete_params 7 (plain_outcome ''6'')) r]\<rparr>,
     Settled (set_completed (ok_db 4) (complete_params 7 (plain_outcome ''6'')) r))"
  using assms by (simp add: CompleteSubmission_run storable_def)

abbreviation "demo_reach \<equiv> engine_reach demo_rs sample_codec ''s'' default_config"

text \<open>A reachable state is still reachable after a step of a request, or of a worker on the only task.\<close>

lemma demo_serve:
  assumes "demo_reach (w, pcs, reqs)" and "create_step sample_codec default_config c (reqs k) w = (w', q')"
    and "demo_rs (ac_lookupIP c)" and "utf8_decoder (ac_decode c)"
  shows "demo_reach (w', pcs, reqs(k := q'))"
  using assms by (blast intro: reach_step i_serve)

lemma demo_step:
  assumes "demo_reach (w, pcs, reqs)" and "demo_task \<in> set (w_tasks w)"
    and "exec_step sample_codec ''s'' default_config demo_attempt demo_task (pcs k) w = (w', pc')"
  shows "demo_reach (w', pcs(k := pc'), reqs)"
proof (rule reach_step [OF assms(1)])
  show "int_step demo_rs sample_codec ''s'' default_config (w, pcs, reqs) (w', pcs(k := pc'), reqs)"
    using assms(2,3) by (intro i_execute [where t = demo_task and a = demo_attempt and pcs = pcs and k = k]) simp_all
qed

lemma demo_submitted:
  assumes "create_step sample_codec default_config (demo_call rp) (CStored 7 demo_row)
      (demo_start\<lparr>w_table := [7 \<mapsto> demo_row]\<rparr>) = (demo_world demo_row, q)"
  shows "demo_reach (demo_world demo_row, \<lambda>_. Begin, (\<lambda>_. CBegin)(0 := q))"
proof -
  have "demo_reach (demo_start, \<lambda>_. Begin, \<lambda>_. CBegin)"
    by (rule reach_start) (simp add: int_start_def demo_start_def empty_world_def)
  then have "demo_reach (demo_start\<lparr>w_table := [7 \<mapsto> demo_row]\<rparr>, \<lambda>_. Begin, (\<lambda>_. CBegin)(0 := CStored 7 demo_row))"
    using demo_insert by (rule demo_serve [where reqs = "\<lambda>_. CBegin"]) simp_all
  from demo_serve [OF this, of "demo_call rp" 0] assms show ?thesis by (simp del: create_step.simps)
qed

lemma demo_accepted: "\<exists>reqs. demo_reach (demo_world demo_row, \<lambda>_. Begin, reqs)"
proof -
  let ?s = "create_step sample_codec default_config (demo_call Answered) (CStored 7 demo_row)
      (demo_start\<lparr>w_table := [7 \<mapsto> demo_row]\<rparr>)"
  have "?s = (demo_world demo_row, snd ?s)" unfolding demo_enqueue(1) [symmetric] by (rule surjective_pairing)
  then show ?thesis using demo_submitted by blast
qed

definition demo_pcs :: "nat \<Rightarrow> pc" where
  "demo_pcs = (\<lambda>_. Begin)(0 := Loaded 7 demo_row, 2 := Loaded 7 demo_row)"

lemma demo_pcs_simps [simp]: "demo_pcs 0 = Loaded 7 demo_row" "demo_pcs 2 = Loaded 7 demo_row"
  by (simp_all add: demo_pcs_def)

lemma demo_marked:
  assumes "demo_reach (demo_world demo_row, \<lambda>_. Begin, reqs)"
  shows "demo_reach (demo_world (set_running (ok_db 3) demo_row), demo_pcs(0 := Marked 7 demo_row python_spec), reqs)"
proof -
  have "demo_reach (demo_world demo_row, (\<lambda>_. Begin)(0 := Loaded 7 demo_row), reqs)"
    by (rule demo_step [OF assms]) (simp_all add: demo_load del: exec_step.simps)
  then have "demo_reach (demo_world demo_row, demo_pcs, reqs)"
    unfolding demo_pcs_def by (rule demo_step) (simp_all add: demo_load del: exec_step.simps)
  then show ?thesis by (rule demo_step) (simp_all add: demo_mark del: exec_step.simps)
qed

lemma sub_Status_set [simp]:
  "sub_Status (set_running de r) = SubmissionStatusRunning"
  "sub_Status (set_completed de c r) = SubmissionStatusCompleted"
  "sub_Status (set_failed de f r) = SubmissionStatusFailed"
  by (simp_all add: set_running_def set_completed_def set_failed_def)

lemma demo_completed:
  assumes "demo_reach (demo_world demo_row, \<lambda>_. Begin, reqs)"
  obtains w pcs r where "demo_reach (w, pcs, reqs)" "pcs 2 = Loaded 7 demo_row" "w_table w = [7 \<mapsto> r]"
    "sub_Status r = SubmissionStatusCompleted" "w_tasks w = [demo_task, demo_hook]"
proof -
  let ?w0 = "demo_world (set_running (ok_db 3) demo_row)"
  let ?p0 = "demo_pcs(0 := Marked 7 demo_row python_spec)"
  let ?p1 = "?p0(0 := Ran 7 demo_row (Inr (plain_outcome ''6'')))"
  let ?r = "set_completed (ok_db 4) (complete_params 7 (plain_outcome ''6'')) (set_running (ok_db 3) demo_row)"
  obtain ex calls where run: "exec_step sample_codec ''s'' default_config demo_attempt demo_task
      (Marked 7 demo_row python_spec) ?w0 =
      (?w0\<lparr>w_exec := ex, w_calls := calls\<rparr>, Ran 7 demo_row (Inr (plain_outcome ''6'')))"
    using demo_run by blast
  let ?w1 = "?w0\<lparr>w_exec := ex, w_calls := calls\<rparr>"
  let ?w2 = "?w1\<lparr>w_table := [7 \<mapsto> ?r]\<rparr>"
  let ?w3 = "?w2\<lparr>w_tasks := [demo_task, demo_hook]\<rparr>"
  have "demo_reach (?w1, ?p1, reqs)"
    by (rule demo_step [OF demo_marked [OF assms]]) (simp_all add: run del: exec_step.simps)
  then have "demo_reach (?w2, ?p1(0 := Settled ?r), reqs)"
    by (rule demo_step) (simp_all add: demo_store del: exec_step.simps)
  moreover have "sub_WebhookUrl ?r = Some demo_url" by (simp add: set_completed_def set_running_def)
  then have "hook_tasks sample_codec default_config ?r = [demo_hook]" by (intro demo_hook_task) simp_all
  then have "exec_step sample_codec ''s'' default_config demo_attempt demo_task (Settled ?r) ?w2 = (?w3, Done Finished)"
    by (simp add: enqueueWebhook_Answered)
  ultimately have "demo_reach (?w3, ?p1(0 := Settled ?r, 0 := Done Finished), reqs)"
    by (intro demo_step [of ?w2 "?p1(0 := Settled ?r)" reqs 0]) (simp_all del: exec_step.simps)
  then show thesis
    by (rule that [where r = ?r]) (simp_all add: demo_pcs_def)
qed

lemma demo_delivered:
  assumes "demo_reach (w, pcs, reqs)" and "pcs 2 = Loaded 7 demo_row" and "w_table w = [7 \<mapsto> r]"
    and "sub_Status r = SubmissionStatusCompleted" and "w_tasks w = [demo_task, demo_hook]"
  obtains w' rq where "demo_reach (w', pcs, reqs)" "rq \<in> set (w_requests w')" "rq_URL rq = demo_url"
proof -
  let ?send = "\<lambda>_. Inr \<lparr>rs_StatusCode = 204, rs_Status = ''204 No Content'', rs_Location = None\<rparr>"
  obtain rqs err where d: "Deliver (New (WebhookTimeout default_config)) ?send demo_url
      (cd_json sample_codec (buildWebhookBody r)) = (rqs, err)" by fastforce
  have "Parse demo_url \<noteq> None" by code_simp
  then have "rqs \<noteq> []"
    using d by (auto simp: Deliver_def Do_no_redirect [of 9, simplified] sample_codec_def Let_def split: if_splits)
  then obtain rq where rq: "rq \<in> set rqs" by (cases rqs) auto
  let ?w = "w\<lparr>w_requests := w_requests w @ rqs\<rparr>"
  have "handleWebhook sample_codec default_config ?send demo_attempt demo_hook w =
      (?w, case err of Some e \<Rightarrow> Retry e | None \<Rightarrow> Finished)"
    using d assms(3) by (simp add: handleWebhook_def GetSubmission_Answered)
  then have "int_step demo_rs sample_codec ''s'' default_config (w, pcs, reqs) (?w, pcs, reqs)"
    by (rule i_deliver [rotated 2]) (simp_all add: assms(5))
  with assms(1) have "demo_reach (?w, pcs, reqs)" by (rule reach_step)
  with rq Deliver_spec(2) [OF d] show thesis by (intro that) auto
qed

section \<open>Properties\<close>

text \<open>
  C3. In every reachable state, with any number of requests and workers interleaved and any faults: every
  row is well-formed, stored under its own id, for a registered language and within the size limits;
  every task in the queue can be read, is of one of the two kinds and in the queue of its kind, and names
  an existing row, and a webhook task carries that row's address.
\<close>

theorem reachable_states_sound:
  assumes "engine_reach rs cd script cfg (w, pcs, reqs)" and "codecs_ok cd"
  shows "(\<forall>k r. w_table w k = Some r \<longrightarrow> row_ok rs cfg k r) \<and> (\<forall>t\<in>set (w_tasks w). task_ok cd (w_table w) t)"
  using engine.reach_inv [OF assms(1)] assms(2) by (simp add: world_ok_def table_ok_def)

theorem reachable_states_sound_witness:
  "row_ok demo_rs default_config 7 demo_row \<and> task_ok sample_codec [7 \<mapsto> demo_row] demo_task"
proof -
  obtain reqs where "demo_reach (demo_world demo_row, \<lambda>_. Begin, reqs)" using demo_accepted by blast
  from reachable_states_sound [OF this] show ?thesis by simp
qed

text \<open>
  C4. What a worker runs is what was submitted: whenever a worker is about to start a container in a
  reachable state, the code and the input it holds are those of the stored submission, the language is
  the submission's, and the code fits into one environment entry, from which the container decodes it.
\<close>

theorem worker_runs_submitted_code:
  assumes "engine_reach rs cd script cfg (w, pcs, reqs)" and "codecs_ok cd"
    and "pcs k = Marked i sub spec" and "Load pf e = Inr cfg"
  shows "\<exists>r. w_table w i = Some r \<and> sub_Code sub = sub_Code r \<and> sub_Stdin sub = sub_Stdin r \<and>
    Get (sub_Language r) = Some spec \<and>
    (\<exists>v. ''OCEE_CODE_B64='' @ v \<in> set (container_env cfg spec (sub_Code sub) nonce) \<and>
       length (''OCEE_CODE_B64='' @ v) < 128 * 1024 \<and> DecodeString v = Some (sub_Code r))"
proof -
  have inv: "engine_ok rs cd cfg (w, pcs, reqs)" using engine.reach_inv [OF assms(1)] assms(2) by blast
  then have "pc_ok (w_table w) (pcs k)" by simp
  with assms(3) obtain r where r: "w_table w i = Some r" "same_input r sub" "Get (sub_Language sub) = Some spec"
    by (auto simp: holds_row_def)
  from inv r(1) have "row_ok rs cfg i r" by (simp add: world_ok_def table_ok_def)
  then have "int (length (sub_Code r)) \<le> MaxCodeBytes cfg" by (simp add: row_ok_def)
  with code_entry [OF assms(4)] r show ?thesis by (simp add: same_input_def)
qed

theorem worker_runs_submitted_code_witness:
  "\<exists>v. ''OCEE_CODE_B64='' @ v \<in> set (container_env default_config python_spec (sub_Code demo_row) ''n'') \<and>
     DecodeString v = Some (sub_Code demo_row)"
proof -
  obtain reqs where "demo_reach (demo_world demo_row, \<lambda>_. Begin, reqs)" using demo_accepted by blast
  from worker_runs_submitted_code [of demo_rs sample_codec "''s''" default_config _ _ reqs 0 7 demo_row python_spec,
      OF demo_marked [OF this] _ _ Load_default, of "''n''"]
  show ?thesis by (auto simp: set_running_def)
qed

lemma Validate_None:
  assumes "Validate look url private = None"
  obtains u where "Parse url = Some u" "u_Scheme u \<in> {''http'', ''https''}" "Hostname u \<noteq> []"
    "private \<or> (case look (Hostname u) of None \<Rightarrow> True | Some ips \<Rightarrow> \<not> list_ex isInternal ips)"
  using assms by (auto simp: Validate_def Let_def split: option.splits if_splits)

text \<open>
  C6. Every delivery the engine ever makes goes to the webhook address of a stored submission, over http
  or https; and unless private addresses are allowed, it never goes to a host that the resolver always
  gives an internal address for.
\<close>

theorem no_delivery_to_internal_host:
  assumes "engine_reach rs cd script cfg (w, pcs, reqs)" and "codecs_ok cd" and "rq \<in> set (w_requests w)"
    and "\<And>look. rs look \<Longrightarrow> \<exists>ips. look host = Some ips \<and> list_ex isInternal ips"
  shows "(\<exists>k r. w_table w k = Some r \<and> sub_WebhookUrl r = Some (rq_URL rq)) \<and>
    (\<exists>u. Parse (rq_URL rq) = Some u \<and> u_Scheme u \<in> {''http'', ''https''} \<and>
       (WebhookAllowPrivate cfg \<or> Hostname u \<noteq> host))"
proof -
  have inv: "world_ok rs cd cfg w" using engine.reach_inv [OF assms(1)] assms(2) by simp
  with assms(3) obtain k r where r: "w_table w k = Some r" "sub_WebhookUrl r = Some (rq_URL rq)"
    unfolding world_ok_def request_ok_def by blast
  with inv have "row_ok rs cfg k r" by (simp add: world_ok_def table_ok_def)
  with r(2) obtain look where look: "rs look" "Validate look (rq_URL rq) (WebhookAllowPrivate cfg) = None"
    unfolding row_ok_def by blast
  from look(2) obtain u where u: "Parse (rq_URL rq) = Some u" "u_Scheme u \<in> {''http'', ''https''}"
    "WebhookAllowPrivate cfg \<or> (case look (Hostname u) of None \<Rightarrow> True | Some ips \<Rightarrow> \<not> list_ex isInternal ips)"
    by (rule Validate_None)
  have "WebhookAllowPrivate cfg \<or> Hostname u \<noteq> host"
    using u(3) assms(4) [OF look(1)] by auto
  with r u(1,2) show ?thesis by blast
qed

theorem no_delivery_to_internal_host_witness:
  "\<exists>u. Parse demo_url = Some u \<and> u_Scheme u \<in> {''http'', ''https''} \<and> Hostname u \<noteq> ''db.internal''"
proof -
  obtain reqs where "demo_reach (demo_world demo_row, \<lambda>_. Begin, reqs)" using demo_accepted by blast
  then obtain w pcs r where w: "demo_reach (w, pcs, reqs)" "pcs 2 = Loaded 7 demo_row" "w_table w = [7 \<mapsto> r]"
    "sub_Status r = SubmissionStatusCompleted" "w_tasks w = [demo_task, demo_hook]" by (rule demo_completed)
  then obtain w' rq where rq: "demo_reach (w', pcs, reqs)" "rq \<in> set (w_requests w')" "rq_URL rq = demo_url"
    by (rule demo_delivered)
  have "list_ex isInternal [[10, 0, 0, 5]]" by code_simp
  then have host: "demo_rs look \<Longrightarrow> \<exists>ips. look ''db.internal'' = Some ips \<and> list_ex isInternal ips" for look
    by (simp add: demo_rs_def)
  show ?thesis
    using no_delivery_to_internal_host [OF rq(1) _ rq(2), of "''db.internal''"] host rq(3) by simp
qed

text \<open>
  C23. When workers are interleaved, a finished submission is not final: two workers that got the same
  task can reach a state in which the submission is completed and from which a single further step
  makes it running again.
\<close>

theorem interleaving_reopens_finished_row:
  "\<exists>rs cd script cfg s w k r s' w' r'. codecs_ok cd \<and> engine_reach rs cd script cfg s \<and> w = fst s \<and>
     w_table w k = Some r \<and> sub_Status r = SubmissionStatusCompleted \<and>
     int_step rs cd script cfg s s' \<and> w' = fst s' \<and> w_table w' k = Some r' \<and>
     sub_Status r' = SubmissionStatusRunning"
proof -
  obtain reqs where "demo_reach (demo_world demo_row, \<lambda>_. Begin, reqs)" using demo_accepted by blast
  then obtain w pcs r where w: "demo_reach (w, pcs, reqs)" "pcs 2 = Loaded 7 demo_row" "w_table w = [7 \<mapsto> r]"
    "sub_Status r = SubmissionStatusCompleted" "w_tasks w = [demo_task, demo_hook]" by (rule demo_completed)
  let ?w = "w\<lparr>w_table := [7 \<mapsto> set_running (ok_db 3) r]\<rparr>"
  let ?pcs = "pcs(2 := Marked 7 demo_row python_spec)"
  have "exec_step sample_codec ''s'' default_config demo_attempt demo_task (pcs 2) w =
      (?w, Marked 7 demo_row python_spec)"
    by (simp add: MarkSubmissionRunning_def statement_def update_row_def w)
  then have "int_step demo_rs sample_codec ''s'' default_config (w, pcs, reqs) (?w, ?pcs, reqs)"
    by (rule i_execute [rotated 2]) (simp_all add: w)
  moreover have "sub_Status (set_running (ok_db 3) r) = SubmissionStatusRunning" by (simp add: set_running_def)
  ultimately show ?thesis
    using w by (intro exI [of _ demo_rs] exI [of _ sample_codec] exI [of _ "''s''"] exI [of _ default_config]
        exI [of _ "(w, pcs, reqs)"] exI [of _ w] exI [of _ 7] exI [of _ r] exI [of _ "(?w, ?pcs, reqs)"]
        exI [of _ ?w] exI [of _ "set_running (ok_db 3) r"]) simp
qed

text \<open>
  C24. When the queue stored a task but its answer was lost, the submission can run to completion before
  the server records the failed enqueueing: the completed row then becomes failed, and the client is
  told that the queue is unavailable.
\<close>

theorem lost_enqueue_reply_overwrites_result:
  "\<exists>rs cd script cfg s w k r s' w' r' rp. codecs_ok cd \<and> engine_reach rs cd script cfg s \<and> w = fst s \<and>
     w_table w k = Some r \<and> sub_Status r = SubmissionStatusCompleted \<and>
     int_step rs cd script cfg s s' \<and> w' = fst s' \<and> w_table w' k = Some r' \<and>
     sub_Status r' = SubmissionStatusFailed \<and> snd (snd s') 0 = CDone rp \<and> rp_status rp = 503"
proof -
  obtain w pcs r where w: "demo_reach (w, pcs, (\<lambda>_. CBegin)(0 := CUnqueued 7))" "pcs 2 = Loaded 7 demo_row"
    "w_table w = [7 \<mapsto> r]" "sub_Status r = SubmissionStatusCompleted" "w_tasks w = [demo_task, demo_hook]"
    using demo_completed [OF demo_submitted [OF demo_enqueue(2) [of "''timeout''"]]] by blast
  let ?r = "set_failed (ok_db 2) \<lparr>fs_ID = 7, fs_Error = Some ''could not enqueue execution job''\<rparr> r"
  let ?w = "w\<lparr>w_table := [7 \<mapsto> ?r]\<rparr>"
  let ?q = "CDone (writeError 503 ''execution queue unavailable'')"
  let ?s = "(w, pcs, (\<lambda>_. CBegin)(0 := CUnqueued 7))"
  let ?s' = "(?w, pcs, ((\<lambda>_. CBegin)(0 := CUnqueued 7))(0 := ?q))"
  have "create_step sample_codec default_config (demo_call (ReplyLost ''timeout''))
      (((\<lambda>_. CBegin)(0 := CUnqueued 7)) 0) w = (?w, ?q)"
    by (simp add: FailSubmission_def statement_def update_row_def opt_text_ok_def w)
  then have "int_step demo_rs sample_codec ''s'' default_config ?s ?s'" by (rule i_serve [rotated 2]) simp_all
  moreover have "sub_Status ?r = SubmissionStatusFailed" by (simp add: set_failed_def)
  moreover have "rp_status (writeError 503 ''execution queue unavailable'') = 503" by (rule create_status)
  ultimately show ?thesis
    using w by (intro exI [of _ demo_rs] exI [of _ sample_codec] exI [of _ "''s''"] exI [of _ default_config]
        exI [of _ ?s] exI [of _ w] exI [of _ 7] exI [of _ r] exI [of _ ?s'] exI [of _ ?w] exI [of _ ?r]
        exI [of _ "writeError 503 ''execution queue unavailable''"]) simp
qed

end
