(* ===== verification/Ocee_System.thy ===== *)
theory Ocee_System
  imports Ocee_Interleave
begin

text \<open>
  The engine with a call of a handler as one step: clients submit, the queue hands tasks to workers, any
  number of times and in any order, and database, daemon and queue may fail in every call, but no two
  calls overlap. Shown: these runs refine an abstract life
  cycle of submissions, in which a submission is queued once, runs, and ends once; and a finished row
  is never changed again.
\<close>

section \<open>Steps\<close>

inductive sys_step :: "resolvers \<Rightarrow> codec \<Rightarrow> string \<Rightarrow> Config \<Rightarrow> world \<Rightarrow> world \<Rightarrow> bool" for rs cd script cfg where
  submit: "rs (ac_lookupIP c) \<Longrightarrow> handleCreateSubmission cd cfg c w = (w', rp) \<Longrightarrow> sys_step rs cd script cfg w w'"
| execute: "t \<in> set (w_tasks w) \<Longrightarrow> map_of Mux (t_type t) = Some ExecuteHandler \<Longrightarrow>
    handleExecute cd script cfg a t w = (w', res) \<Longrightarrow> sys_step rs cd script cfg w w'"
| deliver: "t \<in> set (w_tasks w) \<Longrightarrow> map_of Mux (t_type t) = Some WebhookHandler \<Longrightarrow>
    handleWebhook cd cfg send a t w = (w', res) \<Longrightarrow> sys_step rs cd script cfg w w'"

inductive_cases sys_stepE: "sys_step rs cd script cfg w w'"

definition sys_start :: "world \<Rightarrow> bool" where
  "sys_start w = (w_table w = Map.empty \<and> w_tasks w = [] \<and> w_requests w = [])"

section \<open>The abstract life cycle\<close>

text \<open>
  A submission as its submitted data and its status. It is queued once; it may run, also again after a
  failed attempt; it is completed only while it runs; and it fails only before it has ended.
\<close>

record submitted =
  in_Language :: string
  in_Code :: string
  in_Stdin :: string
  in_WebhookUrl :: "string option"

type_synonym life_cycle = "uuid \<rightharpoonup> submitted \<times> SubmissionStatus"

inductive cycle_step :: "life_cycle \<Rightarrow> life_cycle \<Rightarrow> bool" where
  cycle_submit: "m k = None \<Longrightarrow> cycle_step m (m(k \<mapsto> (x, SubmissionStatusQueued)))"
| cycle_run: "m k = Some (x, st) \<Longrightarrow> st \<in> {SubmissionStatusQueued, SubmissionStatusRunning} \<Longrightarrow>
    cycle_step m (m(k \<mapsto> (x, SubmissionStatusRunning)))"
| cycle_complete: "m k = Some (x, SubmissionStatusRunning) \<Longrightarrow>
    cycle_step m (m(k \<mapsto> (x, SubmissionStatusCompleted)))"
| cycle_fail: "m k = Some (x, st) \<Longrightarrow> st \<in> {SubmissionStatusQueued, SubmissionStatusRunning} \<Longrightarrow>
    cycle_step m (m(k \<mapsto> (x, SubmissionStatusFailed)))"

definition submitted_of :: "Submission \<Rightarrow> submitted" where
  "submitted_of r = \<lparr>in_Language = sub_Language r, in_Code = sub_Code r, in_Stdin = sub_Stdin r,
     in_WebhookUrl = sub_WebhookUrl r\<rparr>"

definition cycle_of :: "table \<Rightarrow> life_cycle" where
  "cycle_of tbl = (\<lambda>k. map_option (\<lambda>r. (submitted_of r, sub_Status r)) (tbl k))"

lemma cycle_of_upd [simp]: "cycle_of (tbl(k \<mapsto> r)) = (cycle_of tbl)(k \<mapsto> (submitted_of r, sub_Status r))"
  by (auto simp: cycle_of_def)

lemma cycle_of_Some [simp]: "tbl k = Some r \<Longrightarrow> cycle_of tbl k = Some (submitted_of r, sub_Status r)"
  by (simp add: cycle_of_def)

lemma submitted_of_set [simp]:
  "submitted_of (set_running de r) = submitted_of r" "submitted_of (set_completed de c r) = submitted_of r"
  "submitted_of (set_failed de f r) = submitted_of r"
  by (simp_all add: submitted_of_def set_running_def set_completed_def set_failed_def)

definition open_row :: "Submission \<Rightarrow> bool" where
  "open_row r = (sub_Status r \<in> {SubmissionStatusQueued, SubmissionStatusRunning})"

text \<open>What each statement does to the life cycle, whether it takes effect or not.\<close>

lemma Mark_life:
  assumes "tbl i = Some r" and "open_row r"
  shows "cycle_step\<^sup>*\<^sup>* (cycle_of tbl) (cycle_of (fst (MarkSubmissionRunning de i tbl)))"
  using assms cycle_run [of "cycle_of tbl" i "submitted_of r" "sub_Status r"]
  by (auto simp: db_defs open_row_def split: db_reply.splits)

lemma Complete_life:
  assumes "tbl (cs_ID a) = Some r" and "sub_Status r = SubmissionStatusRunning"
  shows "cycle_step\<^sup>*\<^sup>* (cycle_of tbl) (cycle_of (fst (CompleteSubmission de a tbl)))"
  using assms cycle_complete [of "cycle_of tbl" "cs_ID a" "submitted_of r"]
  by (auto simp: db_defs split: db_reply.splits)

lemma Fail_life:
  assumes "tbl (fs_ID a) = Some r" and "open_row r"
  shows "cycle_step\<^sup>*\<^sup>* (cycle_of tbl) (cycle_of (fst (FailSubmission de a tbl)))"
  using assms cycle_fail [of "cycle_of tbl" "fs_ID a" "submitted_of r" "sub_Status r"]
  by (auto simp: db_defs open_row_def split: db_reply.splits)

lemma fail_life:
  assumes "w_table w i = Some r" and "open_row r"
  shows "cycle_step\<^sup>*\<^sup>* (cycle_of (w_table w)) (cycle_of (w_table (fail de i msg w)))"
  using assms Fail_life [of "w_table w" "\<lparr>fs_ID = i, fs_Error = Some msg\<rparr>"] by (simp add: fail_def)

lemma run_and_store_life:
  assumes "run_and_store cd script cfg a i spec sub w = (w', res)" and "w_table w i = Some r"
    and "sub_Status r = SubmissionStatusRunning"
  shows "cycle_step\<^sup>*\<^sup>* (cycle_of (w_table w)) (cycle_of (w_table w'))"
proof -
  obtain ex calls x where ex:
    "Execute script cfg (at_docker a) spec (sub_Code sub) (sub_Stdin sub) (w_exec w) = (ex, calls, x)"
    by (cases "Execute script cfg (at_docker a) spec (sub_Code sub) (sub_Stdin sub) (w_exec w)") auto
  let ?w1 = "w\<lparr>w_exec := ex, w_calls := w_calls w @ calls\<rparr>"
  show ?thesis
  proof (cases x)
    case (Inl e)
    have "open_row r" using assms(3) by (simp add: open_row_def)
    then have "cycle_step\<^sup>*\<^sup>* (cycle_of (w_table w)) (cycle_of (w_table (fail de i msg ?w1)))" for de msg
      using fail_life [of ?w1 i r] assms(2) by simp
    with ex Inl assms(1) show ?thesis by (auto simp: run_and_store_def Let_def split: if_splits)
  next
    case (Inr out)
    have "w_table w' = fst (CompleteSubmission (at_complete a) (complete_params i out) (w_table w))"
      using ex Inr assms(1) by (auto simp: run_and_store_def Let_def split: prod.splits sum.splits)
    with Complete_life assms(2,3) show ?thesis by simp
  qed
qed

lemma handleExecute_life:
  assumes "handleExecute cd script cfg a t w = (w', res)" and "table_ok rs cfg (w_table w)"
  shows "cycle_step\<^sup>*\<^sup>* (cycle_of (w_table w)) (cycle_of (w_table w'))"
proof (cases "cd_unmarshal_exec cd (t_payload t)")
  case (Inl e)
  with assms(1) show ?thesis by (simp add: handleExecute_def)
next
  case p: (Inr p)
  let ?i = "ep_SubmissionID p"
  show ?thesis
  proof (cases "GetSubmission (at_get a) ?i (w_table w)")
    case (Inl e)
    with p assms(1) show ?thesis by (auto simp: handleExecute_def Let_def split: if_splits)
  next
    case get: (Inr sub)
    then have row: "w_table w ?i = Some sub"
      by (auto simp: GetSubmission_def statement_def split: db_reply.splits option.splits)
    with assms(2) have wf: "row_wf sub" by (auto simp: table_ok_def row_ok_def)
    show ?thesis
    proof (cases "open_row sub")
      case False
      with p get wf assms(1) show ?thesis by (auto simp: handleExecute_def row_wf_def open_row_def Let_def)
    next
      case op: True
      then have st: "\<not> (sub_Status sub = SubmissionStatusCompleted \<or> sub_Status sub = SubmissionStatusFailed)"
        by (auto simp: open_row_def)
      obtain tbl x where mark: "MarkSubmissionRunning (at_mark a) ?i (w_table w) = (tbl, x)" by fastforce
      have m: "cycle_step\<^sup>*\<^sup>* (cycle_of (w_table w)) (cycle_of tbl)"
        using Mark_life [of "w_table w" ?i sub "at_mark a"] row op mark by simp
      show ?thesis
      proof (cases "Get (sub_Language sub)")
        case None
        with p get st assms(1) fail_life [of w ?i sub] row op show ?thesis by (auto simp: handleExecute_def Let_def)
      next
        case (Some spec)
        show ?thesis
        proof (cases x)
          case (Inl e)
          with p get st Some mark m assms(1) show ?thesis by (auto simp: handleExecute_def Let_def)
        next
          case (Inr r)
          then have "tbl ?i = Some (set_running (at_mark a) sub)"
            using mark row by (auto simp: db_defs split: db_reply.splits)
          moreover have "run_and_store cd script cfg a ?i spec sub (w\<lparr>w_table := tbl\<rparr>) = (w', res)"
            using p get st Some mark Inr assms(1) by (simp add: handleExecute_def Let_def)
          ultimately have "cycle_step\<^sup>*\<^sup>* (cycle_of tbl) (cycle_of (w_table w'))"
            using run_and_store_life [of cd script cfg a ?i spec sub "w\<lparr>w_table := tbl\<rparr>"] by simp
          with m show ?thesis by (rule rtranclp_trans)
        qed
      qed
    qed
  qed
qed

text \<open>What a submission does to the table: nothing, or one new row, possibly failed at once.\<close>

lemma handleCreate_effect:
  assumes "handleCreateSubmission cd cfg c w = (w', rp)" and "rs (ac_lookupIP c)"
  obtains (unchanged) "w_table w' = w_table w"
  | (stored) r where "w_table w (ac_uuid c) = None" "w_table w' = (w_table w)(ac_uuid c \<mapsto> r)"
      "row_ok rs cfg (ac_uuid c) r" "sub_Status r \<in> {SubmissionStatusQueued, SubmissionStatusFailed}"
proof (cases rule: handleCreate_cases [of cd cfg c w])
  case (refused rp')
  with assms unchanged show thesis by simp
next
  case (checked req spec url)
  let ?a = "request_params c req spec url"
  let ?r = "new_row (ac_create c) ?a"
  have i: "cp_ID ?a = ac_uuid c" by (simp add: request_params_def)
  have ok: "row_ok rs cfg (ac_uuid c) ?r" using checked(2) assms(2) by (rule request_row_ok)
  from assms(1) checked(3) have "persist_and_enqueue cd cfg c req spec url w = (w', rp)" by simp
  then show thesis
  proof (cases rule: persist_cases)
    case (not_stored e)
    with CreateSubmission_table [of "ac_create c" ?a "w_table w"] unchanged stored [of ?r] ok i
    show thesis by auto
  next
    case (no_task e)
    with CreateSubmission_Inr(1,3) [OF no_task(1)] stored [of ?r] ok i show thesis by auto
  next
    case (not_enqueued tbl t)
    let ?f = "set_failed (ac_fail c) \<lparr>fs_ID = ac_uuid c, fs_Error = Some ''could not enqueue execution job''\<rparr> ?r"
    have "w_table w' = (w_table w)(ac_uuid c \<mapsto> ?r) \<or> w_table w' = (w_table w)(ac_uuid c \<mapsto> ?f)"
      using CreateSubmission_Inr(3) [OF not_enqueued(1)] not_enqueued(3) i
      by (simp add: FailSubmission_def statement_def update_row_def split: db_reply.splits)
    moreover have "row_ok rs cfg (ac_uuid c) ?f" using ok by (rule row_ok_same_input) simp_all
    ultimately show thesis
      using CreateSubmission_Inr(1) [OF not_enqueued(1)] i ok stored [of ?r] stored [of ?f] by auto
  next
    case (accepted t)
    with CreateSubmission_Inr(1,3) [OF accepted(1)] stored [of ?r] ok i show thesis by auto
  qed
qed

lemma handleCreate_life:
  assumes "handleCreateSubmission cd cfg c w = (w', rp)"
  shows "cycle_step\<^sup>*\<^sup>* (cycle_of (w_table w)) (cycle_of (w_table w'))"
  using assms TrueI
proof (cases rule: handleCreate_effect [where rs = "\<lambda>_. True"])
  case (stored r)
  let ?m = "cycle_of (w_table w)" and ?x = "submitted_of r"
  let ?q = "?m(ac_uuid c \<mapsto> (?x, SubmissionStatusQueued))"
  have q: "cycle_step ?m ?q" using stored(1) by (intro cycle_submit) (simp add: cycle_of_def)
  moreover have "cycle_step ?q (?q(ac_uuid c \<mapsto> (?x, SubmissionStatusFailed)))"
    by (rule cycle_fail [where x = ?x and st = SubmissionStatusQueued]) simp_all
  ultimately have "cycle_step\<^sup>*\<^sup>* ?m (?m(ac_uuid c \<mapsto> (?x, SubmissionStatusFailed)))" by simp
  with q stored show ?thesis by auto
qed simp

lemma sys_step_table_ok:
  assumes "table_ok rs cfg (w_table w)" and "sys_step rs cd script cfg w w'"
  shows "table_ok rs cfg (w_table w')"
  using assms(2)
proof cases
  case (submit c rp)
  from submit(2,1) show ?thesis
    by (cases rule: handleCreate_effect) (use assms(1) in \<open>auto simp: table_ok_def\<close>)
next
  case (execute t a res)
  show ?thesis
  proof (cases "cd_unmarshal_exec cd (t_payload t)")
    case (Inl e)
    with execute assms(1) show ?thesis by (simp add: handleExecute_def)
  next
    case (Inr p)
    from handleExecute_writes [where w = w and script = script and cfg = cfg and a = a, OF Inr] execute assms(1)
    show ?thesis by (auto intro: table_ok_put_seq)
  qed
next
  case (deliver t send a res)
  with handleWebhook_frame assms(1) show ?thesis by metis
qed

interpretation calls: refinement_map sys_start "sys_step rs cd script cfg" "\<lambda>w. table_ok rs cfg (w_table w)"
    "\<lambda>w. cycle_of (w_table w)" "\<lambda>m. m = Map.empty" cycle_step for rs cd script cfg
proof unfold_locales
  show "sys_start w \<Longrightarrow> table_ok rs cfg (w_table w)" for w by (simp add: sys_start_def table_ok_def)
  show "table_ok rs cfg (w_table w) \<Longrightarrow> sys_step rs cd script cfg w w' \<Longrightarrow> table_ok rs cfg (w_table w')" for w w'
    by (rule sys_step_table_ok)
  show "sys_start w \<Longrightarrow> cycle_of (w_table w) = Map.empty" for w by (auto simp: sys_start_def cycle_of_def)
  show "table_ok rs cfg (w_table w) \<Longrightarrow> sys_step rs cd script cfg w w' \<Longrightarrow>
      cycle_step\<^sup>*\<^sup>* (cycle_of (w_table w)) (cycle_of (w_table w'))" for w w'
    by (erule sys_stepE) (auto dest: handleCreate_life handleExecute_life handleWebhook_frame)
qed

section \<open>Properties\<close>

text \<open>
  C5. Between whole handler calls the engine implements the life cycle of submissions: every reachable
  state is a reachable state of the abstract life cycle, and every further run of handler calls, with
  whatever faults and redeliveries, is a run of it. In particular a result is stored only for a
  submission that was marked as running, and no submission ends twice.
\<close>

theorem engine_refines_life_cycle:
  assumes "reach sys_start (sys_step rs cd script cfg) w" and "(sys_step rs cd script cfg)\<^sup>*\<^sup>* w w'"
  shows "reach (\<lambda>m. m = Map.empty) cycle_step (cycle_of (w_table w)) \<and>
    cycle_step\<^sup>*\<^sup>* (cycle_of (w_table w)) (cycle_of (w_table w'))"
  using calls.reach_refines [OF assms(1)] calls.run_refines [OF assms(2) calls.reach_inv [OF assms(1)]] by simp

lemma sample_sys_start: "reach sys_start (sys_step (\<lambda>_. True) sample_codec ''s'' default_config) empty_world"
  by (rule reach_start) (simp add: sys_start_def empty_world_def)

lemma sample_sys_step:
  "sys_step (\<lambda>_. True) sample_codec ''s'' default_config w
     (fst (handleCreateSubmission sample_codec default_config sample_call w))"
  by (rule submit [OF TrueI surjective_pairing])

theorem engine_refines_life_cycle_witness:
  "cycle_step\<^sup>*\<^sup>* Map.empty
     (cycle_of (w_table (fst (handleCreateSubmission sample_codec default_config sample_call empty_world))))"
proof -
  let ?step = "sys_step (\<lambda>_. True) sample_codec ''s'' default_config"
  have "?step\<^sup>*\<^sup>* empty_world (fst (handleCreateSubmission sample_codec default_config sample_call empty_world))"
    using sample_sys_step by (rule r_into_rtranclp)
  from engine_refines_life_cycle [OF sample_sys_start this] show ?thesis by (simp add: cycle_of_def)
qed

text \<open>
  C12. Between whole handler calls a finished submission is final: no sequence of submissions, executions
  and deliveries, with whatever faults, changes a completed or failed row.
\<close>

theorem finished_rows_final:
  assumes "(sys_step rs cd script cfg)\<^sup>*\<^sup>* w w'" and "w_table w k = Some r" and "terminal r"
  shows "w_table w' k = Some r"
  using assms(1)
proof (induction rule: rtranclp_induct)
  case base
  show ?case by (rule assms(2))
next
  case (step w1 w2)
  show ?case
  proof (rule sys_stepE [OF step(2)])
    fix c rp
    assume "rs (ac_lookupIP c)" "handleCreateSubmission cd cfg c w1 = (w2, rp)"
    from this(2,1) show ?thesis by (cases rule: handleCreate_effect) (use step(3) in auto)
  next
    fix t a res
    assume h: "handleExecute cd script cfg a t w1 = (w2, res)"
    show ?thesis
    proof (cases "cd_unmarshal_exec cd (t_payload t)")
      case (Inl e)
      with h step(3) show ?thesis by (simp add: handleExecute_def)
    next
      case (Inr p)
      show ?thesis
        using h handleExecute_terminal(1) [OF Inr, of w1 r script cfg a] step(3) assms(3)
          handleExecute_row [where w = w1 and script = script and cfg = cfg and a = a, OF Inr, THEN spec [of _ k]]
        by (cases "k = ep_SubmissionID p") auto
    qed
  next
    fix t send a res
    assume "handleWebhook cd cfg send a t w1 = (w2, res)"
    with handleWebhook_frame step(3) show ?thesis by metis
  qed
qed

theorem finished_rows_final_witness:
  "w_table (fst (handleCreateSubmission sample_codec default_config (sample_call\<lparr>ac_uuid := 8\<rparr>)
      (sample_world (set_completed (ok_db 4) sample_result sample_row)))) 7 =
    Some (set_completed (ok_db 4) sample_result sample_row)"
proof -
  let ?w = "sample_world (set_completed (ok_db 4) sample_result sample_row)"
  let ?s = "handleCreateSubmission sample_codec default_config (sample_call\<lparr>ac_uuid := 8\<rparr>) ?w"
  have "sys_step (\<lambda>_. True) sample_codec ''s'' default_config ?w (fst ?s)"
    by (rule submit [OF TrueI surjective_pairing])
  then have "(sys_step (\<lambda>_. True) sample_codec ''s'' default_config)\<^sup>*\<^sup>* ?w (fst ?s)" by (rule r_into_rtranclp)
  from finished_rows_final [OF this, of 7 "set_completed (ok_db 4) sample_result sample_row"]
  show ?thesis by simp
qed

end
