(* ===== verification/Ocee_Pull.thy ===== *)
theory Ocee_Pull
  imports Ocee_Executor Ocee_Transition
begin

text \<open>
  \<open>ensureImage\<close> of package \<^verbatim>\<open>executor\<close> (\<^verbatim>\<open>src/internal/executor/executor.go\<close>) under concurrency: the worker
  runs many executions at once, and all of them share the two \<^verbatim>\<open>sync.Map\<close>s of the executor and the \<^verbatim>\<open>sync.Once\<close>
  objects in one of them. The function is split at every operation on shared state and at every
  daemon call; any number of goroutines is interleaved. Shown: without interruption the steps are
  \<^const>\<open>ensureImage\<close>; an image is never pulled by two goroutines at a time and never pulled again after a
  successful pull; and callers that wait for another's pull never wait for ever.
\<close>

section \<open>Shared state and steps\<close>

text \<open>
  A \<^verbatim>\<open>sync.Once\<close> has not been used, is being used by a goroutine, for which every other caller of \<open>Do\<close>
  waits, or has been used.
\<close>

datatype once = OnceFresh | OnceBusy nat | OnceDone

text \<open>
  \<open>im_once\<close> is the map \<open>pullOnce\<close>, from references to \<open>Once\<close> objects, which are numbered in the order they
  are allocated; \<open>im_pulled\<close> is a history of the successful pulls, with the goroutine that made them.
\<close>

record images =
  im_ready :: "string set"
  im_once :: "string \<rightharpoonup> nat"
  im_state :: "nat \<Rightarrow> once"
  im_next :: nat
  im_pulled :: "(nat \<times> string) list"

text \<open>Where a goroutine is in \<open>ensureImage\<close>: what it does next.\<close>

datatype image_pc =
  Lookup string
| Inspect string
| LoadOrStore string
| OnceDo string nat
| Pulling string nat
| Draining string nat
| Forget string nat string
| LeaveOnce string nat "string option"
| Confirm string
| MarkReady string
| Returned "string option"

text \<open>\<^const>\<open>None\<close>: the goroutine cannot move, because it has returned or waits in \<open>once.Do\<close>.\<close>

fun image_step ::
  "Config \<Rightarrow> docker \<Rightarrow> nat \<Rightarrow> image_pc \<Rightarrow> images \<Rightarrow> (images \<times> docker_call list \<times> image_pc) option" where
  "image_step cfg dk g (Lookup ref) sh =
     Some (sh, [], if ref \<in> im_ready sh then Returned None else Inspect ref)"
| "image_step cfg dk g (Inspect ref) sh =
     Some (sh, [ImageInspect ref],
       if dk_image dk = None then MarkReady ref
       else if \<not> PullImages cfg
       then Returned (Some (''image '' @ ref @ '' not present locally and PULL_IMAGES is disabled''))
       else LoadOrStore ref)"
| "image_step cfg dk g (LoadOrStore ref) sh =
     (case im_once sh ref of
        Some o' \<Rightarrow> Some (sh, [], OnceDo ref o')
      | None \<Rightarrow> Some (sh\<lparr>im_once := (im_once sh)(ref \<mapsto> im_next sh), im_next := Suc (im_next sh)\<rparr>, [],
                    OnceDo ref (im_next sh)))"
| "image_step cfg dk g (OnceDo ref o') sh =
     (case im_state sh o' of
        OnceFresh \<Rightarrow> Some (sh\<lparr>im_state := (im_state sh)(o' := OnceBusy g)\<rparr>, [], Pulling ref o')
      | OnceBusy _ \<Rightarrow> None
      | OnceDone \<Rightarrow> Some (sh, [], Confirm ref))"
| "image_step cfg dk g (Pulling ref o') sh =
     Some (sh, [ImagePull ref],
       case dk_pull dk of
         Some e \<Rightarrow> Forget ref o' (''pull '' @ ref @ '': '' @ e)
       | None \<Rightarrow> Draining ref o')"
| "image_step cfg dk g (Draining ref o') sh =
     (case dk_drain dk of
        Some e \<Rightarrow> Some (sh, [], Forget ref o' (''pull '' @ ref @ '': '' @ e))
      | None \<Rightarrow> Some (sh\<lparr>im_pulled := im_pulled sh @ [(g, ref)]\<rparr>, [], LeaveOnce ref o' None))"
| "image_step cfg dk g (Forget ref o' e) sh =
     Some (sh\<lparr>im_once := (im_once sh)(ref := None)\<rparr>, [], LeaveOnce ref o' (Some e))"
| "image_step cfg dk g (LeaveOnce ref o' err) sh =
     Some (sh\<lparr>im_state := (im_state sh)(o' := OnceDone)\<rparr>, [],
       case err of Some e \<Rightarrow> Returned (Some e) | None \<Rightarrow> Confirm ref)"
| "image_step cfg dk g (Confirm ref) sh =
     Some (sh, [ImageInspect ref],
       case dk_image_after dk of
         Some e \<Rightarrow> Returned (Some (''image '' @ ref @ '' unavailable after pull: '' @ e))
       | None \<Rightarrow> MarkReady ref)"
| "image_step cfg dk g (MarkReady ref) sh =
     Some (sh\<lparr>im_ready := insert ref (im_ready sh)\<rparr>, [], Returned None)"
| "image_step cfg dk g (Returned r) sh = None"

text \<open>The steps of one goroutine without interruption, at most the given number of them.\<close>

fun image_run ::
  "Config \<Rightarrow> docker \<Rightarrow> nat \<Rightarrow> nat \<Rightarrow> images \<times> docker_call list \<times> image_pc \<Rightarrow>
   images \<times> docker_call list \<times> image_pc" where
  "image_run cfg dk g 0 s = s"
| "image_run cfg dk g (Suc n) (sh, calls, pc) =
     (case image_step cfg dk g pc sh of
        None \<Rightarrow> (sh, calls, pc)
      | Some (sh', cs, pc') \<Rightarrow> image_run cfg dk g n (sh', calls @ cs, pc'))"

text \<open>What the sequential model keeps of the shared state.\<close>

definition seen :: "images \<Rightarrow> Executor" where
  "seen sh = \<lparr>imageReady = im_ready sh, pullOnce = {ref. im_once sh ref \<noteq> None}\<rparr>"

section \<open>Interleaving\<close>

type_synonym img_state = "images \<times> (nat \<Rightarrow> image_pc)"

inductive img_move :: "Config \<Rightarrow> img_state \<Rightarrow> img_state \<Rightarrow> bool" for cfg where
  move: "image_step cfg dk g (pcs g) sh = Some (sh', calls, pc') \<Longrightarrow>
    img_move cfg (sh, pcs) (sh', pcs(g := pc'))"

text \<open>A goroutine that has returned may call \<open>ensureImage\<close> again, for any image.\<close>

inductive img_step :: "Config \<Rightarrow> img_state \<Rightarrow> img_state \<Rightarrow> bool" for cfg where
  moves: "img_move cfg s s' \<Longrightarrow> img_step cfg s s'"
| calls: "pcs g = Returned r \<Longrightarrow> img_step cfg (sh, pcs) (sh, pcs(g := Lookup ref))"

inductive_cases img_moveE: "img_move cfg (sh, pcs) s'"
inductive_cases img_stepE: "img_step cfg (sh, pcs) s'"

definition no_images :: images where
  "no_images = \<lparr>im_ready = {}, im_once = Map.empty, im_state = (\<lambda>_. OnceFresh), im_next = 0, im_pulled = []\<rparr>"

definition img_start :: "img_state \<Rightarrow> bool" where
  "img_start s = (s = (no_images, \<lambda>_. Returned None))"

section \<open>The invariant\<close>

text \<open>The goroutine is inside \<open>once.Do\<close> of the object, and whether its pull may still fail.\<close>

fun inside :: "image_pc \<Rightarrow> nat option" where
  "inside (Pulling ref o') = Some o'"
| "inside (Draining ref o') = Some o'"
| "inside (Forget ref o' e) = Some o'"
| "inside (LeaveOnce ref o' err) = Some o'"
| "inside _ = None"

fun owns :: "image_pc \<Rightarrow> (string \<times> nat) option" where
  "owns (Pulling ref o') = Some (ref, o')"
| "owns (Draining ref o') = Some (ref, o')"
| "owns (Forget ref o' e) = Some (ref, o')"
| "owns (LeaveOnce ref o' None) = Some (ref, o')"
| "owns _ = None"

fun pulls :: "string \<Rightarrow> image_pc \<Rightarrow> bool" where
  "pulls ref (Pulling ref' o') = (ref' = ref)"
| "pulls ref (Draining ref' o') = (ref' = ref)"
| "pulls ref _ = False"

fun returned :: "image_pc \<Rightarrow> bool" where
  "returned (Returned r) = True"
| "returned _ = False"

text \<open>A goroutine is inside an object exactly if the object says so.\<close>

definition busy_ok :: "img_state \<Rightarrow> bool" where
  "busy_ok s =
     (case s of (sh, pcs) \<Rightarrow> \<forall>g o'. inside (pcs g) = Some o' \<longleftrightarrow> im_state sh o' = OnceBusy g)"

text \<open>While nobody has begun a pull, and while a pull may still fail, the map holds the object for that image.\<close>

definition owner_ok :: "img_state \<Rightarrow> bool" where
  "owner_ok s =
     (case s of (sh, pcs) \<Rightarrow>
        (\<forall>g ref o'. owns (pcs g) = Some (ref, o') \<longrightarrow> im_once sh ref = Some o') \<and>
        (\<forall>g ref o'. pcs g = OnceDo ref o' \<and> im_state sh o' = OnceFresh \<longrightarrow> im_once sh ref = Some o'))"

text \<open>Objects that are not allocated yet have not been used.\<close>

definition next_ok :: "img_state \<Rightarrow> bool" where
  "next_ok s =
     (case s of (sh, pcs) \<Rightarrow>
        (\<forall>g ref o'. pcs g = OnceDo ref o' \<longrightarrow> o' < im_next sh) \<and>
        (\<forall>ref o'. im_once sh ref = Some o' \<longrightarrow> o' < im_next sh) \<and>
        (\<forall>o'. im_next sh \<le> o' \<longrightarrow> im_state sh o' = OnceFresh))"

text \<open>An image that was pulled stays in the map with an object that nobody will use for a pull again.\<close>

definition pulled_ok :: "img_state \<Rightarrow> bool" where
  "pulled_ok s =
     (case s of (sh, pcs) \<Rightarrow>
        (\<forall>ref\<in>snd ` set (im_pulled sh). \<exists>o'. im_once sh ref = Some o' \<and>
           (im_state sh o' = OnceDone \<or> (\<exists>g. pcs g = LeaveOnce ref o' None))) \<and>
        distinct (map snd (im_pulled sh)))"

definition img_inv :: "img_state \<Rightarrow> bool" where
  "img_inv s =
     (busy_ok s \<and> owner_ok s \<and> next_ok s \<and> pulled_ok s \<and> finite {g. \<not> returned (snd s g)})"

lemmas img_inv_defs = img_inv_def busy_ok_def owner_ok_def next_ok_def pulled_ok_def

text \<open>The kinds of steps, by what they do to the objects.\<close>

lemma image_step_cases:
  assumes "image_step cfg dk g pc sh = Some (sh', calls, pc')"
  obtains (quiet) "inside pc = None" "inside pc' = None" "owns pc' = None" "\<And>r o'. pc' \<noteq> OnceDo r o'"
      "im_once sh' = im_once sh" "im_state sh' = im_state sh" "im_next sh' = im_next sh" "im_pulled sh' = im_pulled sh"
  | (found) ref o' where "pc = LoadOrStore ref" "im_once sh ref = Some o'" "pc' = OnceDo ref o'" "sh' = sh"
  | (alloc) ref where "pc = LoadOrStore ref" "im_once sh ref = None" "pc' = OnceDo ref (im_next sh)"
      "sh' = sh\<lparr>im_once := (im_once sh)(ref \<mapsto> im_next sh), im_next := Suc (im_next sh)\<rparr>"
  | (enter) ref o' where "pc = OnceDo ref o'" "im_state sh o' = OnceFresh" "pc' = Pulling ref o'"
      "sh' = sh\<lparr>im_state := (im_state sh)(o' := OnceBusy g)\<rparr>"
  | (goes) ref o' where "owns pc = Some (ref, o')" "inside pc = Some o'" "owns pc' = Some (ref, o')"
      "inside pc' = Some o'" "\<And>r. pc \<noteq> LeaveOnce r o' None" "sh' = sh"
  | (succeeds) ref o' where "pc = Draining ref o'" "pc' = LeaveOnce ref o' None"
      "sh' = sh\<lparr>im_pulled := im_pulled sh @ [(g, ref)]\<rparr>"
  | (forgets) ref o' e where "pc = Forget ref o' e" "pc' = LeaveOnce ref o' (Some e)"
      "sh' = sh\<lparr>im_once := (im_once sh)(ref := None)\<rparr>"
  | (leaves) ref o' err where "pc = LeaveOnce ref o' err" "inside pc' = None" "owns pc' = None"
      "\<And>r o'. pc' \<noteq> OnceDo r o'" "sh' = sh\<lparr>im_state := (im_state sh)(o' := OnceDone)\<rparr>"
proof (cases pc)
  case (Lookup ref)
  with assms show thesis by (intro quiet) (auto split: if_splits)
next
  case (Inspect ref)
  with assms show thesis by (intro quiet) (auto split: if_splits)
next
  case (LoadOrStore ref)
  with assms show thesis by (auto split: option.splits intro: found alloc)
next
  case (OnceDo ref o')
  with assms show thesis by (auto split: once.splits intro: enter quiet)
next
  case (Pulling ref o')
  with assms show thesis by (intro goes [of ref o']) (auto split: option.splits)
next
  case (Draining ref o')
  with assms show thesis
    by (cases "dk_drain dk") (auto intro: succeeds goes [of ref o'])
next
  case (Forget ref o' e)
  with assms show thesis by (auto intro: forgets)
next
  case (LeaveOnce ref o' err)
  with assms show thesis by (intro leaves [of ref o' err]) (auto split: option.splits)
next
  case (Confirm ref)
  with assms show thesis by (intro quiet) (auto split: option.splits)
next
  case (MarkReady ref)
  with assms show thesis by (intro quiet) auto
next
  case (Returned r)
  with assms show thesis by simp
qed

lemma busy_okD: "busy_ok (sh, pcs) \<Longrightarrow> inside (pcs g) = Some o' \<longleftrightarrow> im_state sh o' = OnceBusy g"
  by (simp add: busy_ok_def)

lemma owner_okD: "owner_ok (sh, pcs) \<Longrightarrow> owns (pcs g) = Some (ref, o') \<Longrightarrow> im_once sh ref = Some o'"
  by (simp add: owner_ok_def)

lemma next_okD:
  "next_ok (sh, pcs) \<Longrightarrow> pcs g = OnceDo ref o' \<Longrightarrow> o' < im_next sh"
  "next_ok (sh, pcs) \<Longrightarrow> im_once sh ref = Some o' \<Longrightarrow> o' < im_next sh"
  "next_ok (sh, pcs) \<Longrightarrow> im_next sh \<le> o' \<Longrightarrow> im_state sh o' = OnceFresh"
  by (simp_all add: next_ok_def)

lemma owns_inside: "owns pc = Some (ref, o') \<Longrightarrow> inside pc = Some o'"
  by (induction pc rule: owns.induct) auto

lemma one_owner:
  assumes "busy_ok (sh, pcs)" "owner_ok (sh, pcs)"
    and "owns (pcs g) = Some (ref, o')" "owns (pcs g') = Some (ref, p')"
  shows "g = g' \<and> o' = p'"
proof -
  have "o' = p'" using owner_okD [OF assms(2,3)] owner_okD [OF assms(2,4)] by simp
  with assms(3,4) busy_okD [OF assms(1), of g o'] busy_okD [OF assms(1), of g' o'] show ?thesis
    by (auto dest: owns_inside)
qed

lemma busy_step:
  assumes "image_step cfg dk g (pcs g) sh = Some (sh', calls, pc')" and "busy_ok (sh, pcs)"
  shows "busy_ok (sh', pcs(g := pc'))"
proof -
  note here = busy_okD [OF assms(2), of g]
  have "inside ((pcs(g := pc')) k) = Some o' \<longleftrightarrow> im_state sh' o' = OnceBusy k" for k o'
    using assms(1)
    by (cases rule: image_step_cases)
      (use here [of o'] busy_okD [OF assms(2), of k] in \<open>auto split: if_splits\<close>)
  then show ?thesis by (simp add: busy_ok_def)
qed

lemma next_step:
  assumes "image_step cfg dk g (pcs g) sh = Some (sh', calls, pc')"
    and "busy_ok (sh, pcs)" "next_ok (sh, pcs)"
  shows "next_ok (sh', pcs(g := pc'))"
  using assms(1)
proof (cases rule: image_step_cases)
  case (leaves ref o' err)
  then have "im_state sh o' = OnceBusy g" using busy_okD [OF assms(2), of g o'] by simp
  then have "o' < im_next sh" using next_okD(3) [OF assms(3), of o'] by (cases "o' < im_next sh") auto
  with leaves assms(3) show ?thesis by (auto simp: next_ok_def)
next
  case (enter ref o')
  have "\<not> im_next sh \<le> o'" using next_okD(1) [OF assms(3) enter(1)] by simp
  with enter assms(3) show ?thesis by (auto simp: next_ok_def)
qed (use assms(3) next_okD(2) [OF assms(3)] in \<open>auto simp: next_ok_def intro: less_SucI\<close>)

lemma owner_step:
  assumes "image_step cfg dk g (pcs g) sh = Some (sh', calls, pc')"
    and "busy_ok (sh, pcs)" "owner_ok (sh, pcs)" "next_ok (sh, pcs)"
  shows "owner_ok (sh', pcs(g := pc'))"
  using assms(1)
proof (cases rule: image_step_cases)
  case (forgets ref o' e)
  then have own: "owns (pcs g) = Some (ref, o')" and busy: "im_state sh o' = OnceBusy g"
    using busy_okD [OF assms(2), of g o'] by simp_all
  have "owns (pcs k) \<noteq> Some (ref, p)" if "k \<noteq> g" for k p
    using one_owner [OF assms(2,3) own, of k p] that by blast
  moreover have "im_state sh p \<noteq> OnceFresh" if "pcs k = OnceDo ref p" for k p
    using that assms(3) owner_okD [OF assms(3) own] busy by (auto simp: owner_ok_def)
  ultimately show ?thesis using forgets assms(3) by (auto simp: owner_ok_def)
next
  case (alloc ref)
  with assms(3) show ?thesis by (auto simp: owner_ok_def)
next
  case (enter ref o')
  with assms(3) show ?thesis by (auto simp: owner_ok_def)
next
  case (leaves ref o' err)
  with assms(3) show ?thesis by (auto simp: owner_ok_def)
qed (use assms(3) owner_okD [OF assms(3), of g] in \<open>auto simp: owner_ok_def\<close>)

lemma pulled_okD:
  assumes "pulled_ok (sh, pcs)" and "ref \<in> snd ` set (im_pulled sh)" and "im_once sh ref = Some o'"
  shows "im_state sh o' = OnceDone \<or> (\<exists>g. pcs g = LeaveOnce ref o' None)"
  using assms by (fastforce simp: pulled_ok_def)

text \<open>Who can still fail for an image, and is not about to leave after a success, has not pulled it before.\<close>

lemma owner_not_pulled:
  assumes "busy_ok (sh, pcs)" "owner_ok (sh, pcs)" "pulled_ok (sh, pcs)"
    and "owns (pcs g) = Some (ref, o')" and "pcs g \<noteq> LeaveOnce ref o' None"
  shows "ref \<notin> snd ` set (im_pulled sh)"
proof
  assume "ref \<in> snd ` set (im_pulled sh)"
  then consider "im_state sh o' = OnceDone" | k where "pcs k = LeaveOnce ref o' None"
    using pulled_okD [OF assms(3)] owner_okD [OF assms(2,4)] by blast
  then show False
  proof cases
    case 1
    with busy_okD [OF assms(1), of g o'] owns_inside [OF assms(4)] show False by simp
  next
    case 2
    with one_owner [OF assms(1,2,4), of k o'] assms(5) show False by auto
  qed
qed

lemma pulled_step:
  assumes "image_step cfg dk g (pcs g) sh = Some (sh', calls, pc')"
    and "busy_ok (sh, pcs)" "owner_ok (sh, pcs)" "pulled_ok (sh, pcs)"
  shows "pulled_ok (sh', pcs(g := pc'))"
proof -
  let ?P = "\<lambda>sh pcs ref. \<exists>o'. im_once sh ref = Some o' \<and> (im_state sh o' = OnceDone \<or> (\<exists>k. pcs k = LeaveOnce ref o' None))"
  note new = owner_not_pulled [OF assms(2-4), of g]
  have P: "?P sh pcs ref" if "ref \<in> snd ` set (im_pulled sh)" for ref
    using assms(4) that by (auto simp: pulled_ok_def)
  have keep: "?P sh' (pcs(g := pc')) ref" if ref: "ref \<in> snd ` set (im_pulled sh)" for ref
  proof -
    obtain o' where o': "im_once sh ref = Some o'" "im_state sh o' = OnceDone \<or> (\<exists>k. pcs k = LeaveOnce ref o' None)"
      using P [OF ref] by blast
    have once: "im_once sh' ref = Some o'"
      using assms(1) by (cases rule: image_step_cases) (use o'(1) new ref in auto)
    have "im_state sh' o' = OnceDone" if "im_state sh o' = OnceDone"
      using assms(1) by (cases rule: image_step_cases) (use that in auto)
    moreover have "im_state sh' o' = OnceDone \<or> (pcs(g := pc')) k = LeaveOnce ref o' None"
      if "pcs k = LeaveOnce ref o' None" for k
      using assms(1) that by (cases "k = g") auto
    ultimately show ?thesis using o'(2) once by blast
  qed
  from assms(1) show ?thesis
  proof (cases rule: image_step_cases)
    case (succeeds r p)
    then have own: "owns (pcs g) = Some (r, p)" by simp
    have "?P sh' (pcs(g := pc')) r" using succeeds owner_okD [OF assms(3) own] by auto
    with succeeds keep new [OF own] assms(4) show ?thesis by (auto simp: pulled_ok_def)
  qed (use keep assms(4) in \<open>auto simp: pulled_ok_def\<close>)
qed

lemma call_keeps:
  assumes "pcs g = Returned r"
  shows "busy_ok (sh, pcs) \<Longrightarrow> busy_ok (sh, pcs(g := Lookup ref))"
    and "owner_ok (sh, pcs) \<Longrightarrow> owner_ok (sh, pcs(g := Lookup ref))"
    and "next_ok (sh, pcs) \<Longrightarrow> next_ok (sh, pcs(g := Lookup ref))"
    and "pulled_ok (sh, pcs) \<Longrightarrow> pulled_ok (sh, pcs(g := Lookup ref))"
proof -
  show "busy_ok (sh, pcs) \<Longrightarrow> busy_ok (sh, pcs(g := Lookup ref))"
    using assms busy_okD [of sh pcs g] by (auto simp: busy_ok_def)
  have "pcs k = LeaveOnce ref' o' None \<Longrightarrow> (pcs(g := Lookup ref)) k = LeaveOnce ref' o' None" for k ref' o'
    using assms by auto
  then show "pulled_ok (sh, pcs) \<Longrightarrow> pulled_ok (sh, pcs(g := Lookup ref))"
    unfolding pulled_ok_def prod.case by blast
qed (use assms in \<open>auto simp: owner_ok_def next_ok_def\<close>)

lemma img_step_inv:
  assumes "img_inv s" and "img_step cfg s s'"
  shows "img_inv s'"
  using assms(2)
proof (cases rule: img_step.cases)
  case moves
  then show ?thesis
  proof (cases rule: img_move.cases)
    case (move dk g pcs sh sh' calls pc')
    have "finite {k. \<not> returned ((pcs(g := pc')) k)}"
      by (rule finite_subset [of _ "insert g {k. \<not> returned (pcs k)}"]) (use assms(1) move in \<open>auto simp: img_inv_def\<close>)
    with assms(1) move show ?thesis
      using busy_step owner_step next_step pulled_step by (auto simp: img_inv_def)
  qed
next
  case (calls pcs g r sh ref)
  have "finite {k. \<not> returned ((pcs(g := Lookup ref)) k)}"
    by (rule finite_subset [of _ "insert g {k. \<not> returned (pcs k)}"]) (use assms(1) calls in \<open>auto simp: img_inv_def\<close>)
  with assms(1) calls(1,2) call_keeps [of pcs g r, OF calls(3)] show ?thesis by (simp add: img_inv_def)
qed

interpretation img: inductive_invariant img_start "img_step cfg" img_inv for cfg
proof
  show "img_inv s" if "img_start s" for s
    using that by (simp add: img_inv_defs img_start_def no_images_def)
  show "img_inv s'" if "img_inv s" "img_step cfg s s'" for s s'
    using that by (rule img_step_inv)
qed

section \<open>No deadlock\<close>

fun rank :: "image_pc \<Rightarrow> nat" where
  "rank (Lookup ref) = 10"
| "rank (Inspect ref) = 9"
| "rank (LoadOrStore ref) = 8"
| "rank (OnceDo ref o') = 7"
| "rank (Pulling ref o') = 6"
| "rank (Draining ref o') = 5"
| "rank (Forget ref o' e) = 4"
| "rank (LeaveOnce ref o' err) = 3"
| "rank (Confirm ref) = 2"
| "rank (MarkReady ref) = 1"
| "rank (Returned r) = 0"

lemma rank_step: "image_step cfg dk g pc sh = Some (sh', calls, pc') \<Longrightarrow> rank pc' < rank pc"
  by (cases pc) (auto split: option.splits once.splits if_splits)

lemma rank_0: "rank pc = 0 \<longleftrightarrow> returned pc"
  by (cases pc) simp_all

definition img_remaining :: "img_state \<Rightarrow> nat" where
  "img_remaining s = (\<Sum>g | \<not> returned (snd s g). rank (snd s g))"

definition all_returned :: "img_state \<Rightarrow> bool" where
  "all_returned s = (\<forall>g. returned (snd s g))"

lemma img_remaining_step:
  assumes "finite {k. \<not> returned (pcs k)}" and "rank pc' < rank (pcs g)"
  shows "img_remaining (sh', pcs(g := pc')) < img_remaining (sh, pcs)"
proof -
  let ?A = "{k. \<not> returned (pcs k)}"
  have g: "g \<in> ?A" using assms(2) rank_0 [of "pcs g"] by auto
  have "img_remaining (sh', pcs(g := pc')) = (\<Sum>k\<in>?A. rank ((pcs(g := pc')) k))"
    unfolding img_remaining_def snd_conv using assms(1) g by (intro sum.mono_neutral_left) (auto simp: rank_0)
  also have "\<dots> < (\<Sum>k\<in>?A. rank (pcs k))"
    using assms g by (intro sum_strict_mono_ex1) auto
  finally show ?thesis by (simp add: img_remaining_def)
qed

lemma image_step_enabled:
  "\<not> returned pc \<Longrightarrow> (\<And>ref o' k. pc = OnceDo ref o' \<Longrightarrow> im_state sh o' \<noteq> OnceBusy k) \<Longrightarrow>
   \<exists>r. image_step cfg dk g pc sh = Some r"
  by (cases pc) (auto split: option.splits once.splits)

lemma img_not_stuck:
  assumes "img_inv s" and "\<not> all_returned s"
  shows "\<exists>s'. img_move cfg s s'"
proof -
  obtain sh pcs where s: "s = (sh, pcs)" by fastforce
  from assms(2) s obtain g where g: "\<not> returned (pcs g)" by (auto simp: all_returned_def)
  have "\<exists>k r. image_step cfg dk k (pcs k) sh = Some r" for dk
  proof (cases "\<exists>ref o' k. pcs g = OnceDo ref o' \<and> im_state sh o' = OnceBusy k")
    case True
    then obtain o' k where "im_state sh o' = OnceBusy k" by blast
    then have "inside (pcs k) = Some o'"
      using assms(1) s busy_okD [of sh pcs k o'] by (simp add: img_inv_def)
    then have "\<exists>r. image_step cfg dk k (pcs k) sh = Some r"
      by (cases "pcs k") (auto split: option.splits)
    then show ?thesis by blast
  next
    case False
    with image_step_enabled [OF g, of sh cfg dk g] show ?thesis by blast
  qed
  then show ?thesis unfolding s by (metis img_move.intros prod_cases3)
qed

interpretation img_end: ending_system "reach img_start (img_step cfg)" "img_move cfg" img_inv all_returned img_remaining
  for cfg
proof
  show "img_inv s" if "reach img_start (img_step cfg) s" for s
    using that by (rule img.reach_inv)
  show "img_inv s'" if "img_inv s" "img_move cfg s s'" for s s'
    using that by (blast intro: img_step_inv moves)
  show "img_remaining s' < img_remaining s" if "img_inv s" "img_move cfg s s'" for s s'
    using that(2)
  proof (cases rule: img_move.cases)
    case (move dk g pcs sh sh' calls pc')
    with that(1) show ?thesis
      by (auto simp: img_inv_def intro: img_remaining_step rank_step)
  qed
  show "\<exists>s'. img_move cfg s s'" if "img_inv s" "\<not> all_returned s" for s
    using that by (rule img_not_stuck)
qed

section \<open>One goroutine alone\<close>

lemma run_moves:
  assumes "image_run cfg dk g n (sh, cs, pcs g) = (sh', cs', pc')"
  shows "(img_move cfg)\<^sup>*\<^sup>* (sh, pcs) (sh', pcs(g := pc'))"
  using assms
proof (induction n arbitrary: sh cs pcs)
  case (Suc n)
  show ?case
  proof (cases "image_step cfg dk g (pcs g) sh")
    case None
    with Suc.prems have "(sh', pcs(g := pc')) = (sh, pcs)" by auto
    then show ?thesis by simp
  next
    case (Some r)
    obtain sh1 cs1 pc1 where r: "r = (sh1, cs1, pc1)" by (cases r) auto
    have "image_run cfg dk g n (sh1, cs @ cs1, (pcs(g := pc1)) g) = (sh', cs', pc')"
      using Suc.prems Some r by simp
    from Suc.IH [of _ _ "pcs(g := pc1)", OF this] have "(img_move cfg)\<^sup>*\<^sup>* (sh1, pcs(g := pc1)) (sh', pcs(g := pc'))"
      by (simp only: fun_upd_upd)
    moreover have "img_move cfg (sh, pcs) (sh1, pcs(g := pc1))" using Some r by (intro move) simp
    ultimately show ?thesis by (rule converse_rtranclp_into_rtranclp [rotated])
  qed
qed auto

lemma run_reach:
  assumes "reach img_start (img_step cfg) (sh, pcs)"
    and "image_run cfg dk g n (sh, cs, pcs g) = (sh', cs', pc')"
  shows "reach img_start (img_step cfg) (sh', pcs(g := pc'))"
proof (rule reach_steps [OF _ assms(1)])
  show "(img_step cfg)\<^sup>*\<^sup>* (sh, pcs) (sh', pcs(g := pc'))"
    by (rule rtranclp_mono [THEN predicate2D, OF _ run_moves [of cfg dk g n sh cs pcs, OF assms(2)]]) (auto intro: moves)
qed

text \<open>Nobody is inside an object, as between the calls of a single goroutine.\<close>

definition idle :: "images \<Rightarrow> bool" where
  "idle sh = ((\<forall>ref o'. im_once sh ref = Some o' \<longrightarrow> im_state sh o' = OnceDone) \<and> (\<forall>o'\<ge>im_next sh. im_state sh o' = OnceFresh))"

text \<open>Two callers of the same image: the first is pulling it, the second waits for it.\<close>

definition demo_images :: images where
  "demo_images = no_images\<lparr>im_once := [''gcc:14'' \<mapsto> 0], im_state := (\<lambda>_. OnceFresh)(0 := OnceBusy 0), im_next := 1\<rparr>"

definition demo_callers :: "nat \<Rightarrow> image_pc" where
  "demo_callers = (\<lambda>_. Returned None)(0 := Pulling ''gcc:14'' 0, 1 := OnceDo ''gcc:14'' 0)"

lemma demo_reach: "reach img_start (img_step default_config) (demo_images, demo_callers)"
proof -
  let ?p0 = "(\<lambda>_. Returned None)(0 := Lookup ''gcc:14'')"
  let ?p1 = "?p0(0 := Pulling ''gcc:14'' 0)"
  have "reach img_start (img_step default_config) (no_images, \<lambda>_. Returned None)"
    by (simp add: reach_start img_start_def)
  then have "reach img_start (img_step default_config) (no_images, ?p0)"
    by (rule reach_step) (rule calls, simp)
  then have "reach img_start (img_step default_config) (demo_images, ?p1)"
    by (rule run_reach [where dk = sample_docker and n = 4 and cs = "[]" and cs' = "[ImageInspect ''gcc:14'']"])
      (simp add: numeral_eq_Suc no_images_def demo_images_def)
  then have "reach img_start (img_step default_config) (demo_images, ?p1(1 := Lookup ''gcc:14''))"
    by (rule reach_step) (rule calls, simp)
  then have "reach img_start (img_step default_config)
      (demo_images, ?p1(1 := Lookup ''gcc:14'', 1 := OnceDo ''gcc:14'' 0))"
    by (rule run_reach [where dk = sample_docker and n = 3 and cs = "[]" and cs' = "[ImageInspect ''gcc:14'']"])
      (simp add: numeral_eq_Suc no_images_def demo_images_def)
  then show ?thesis by (simp add: demo_callers_def)
qed

section \<open>Without interruption\<close>

text \<open>
  The two descriptions of the function agree: the steps of one goroutine, uninterrupted and with nobody else
  inside, end with the calls, the result and the state of \<^const>\<open>ensureImage\<close>.
\<close>

lemma ensureImage_steps:
  assumes "idle sh"
  shows "case image_run cfg dk g 10 (sh, [], Lookup ref) of (sh', cs, pc) \<Rightarrow>
    \<exists>err. pc = Returned err \<and> ensureImage cfg dk ref (seen sh) = (seen sh', cs, err) \<and> idle sh'"
  using assms
  by (cases "im_once sh ref"; cases "dk_image dk"; cases "dk_pull dk"; cases "dk_drain dk"; cases "dk_image_after dk")
    (auto simp: numeral_eq_Suc ensureImage_def seen_def idle_def Let_def)

section \<open>Properties\<close>

text \<open>
  C14. With any number of goroutines interleaved at every operation, and whatever the daemon answers, no two
  of them pull the same image at the same time, and an image is pulled successfully at most once in the
  life of the process.
\<close>

theorem pulls_exclusive:
  assumes "reach img_start (img_step cfg) (sh, pcs)"
  shows "(\<forall>g g' ref. pulls ref (pcs g) \<and> pulls ref (pcs g') \<longrightarrow> g = g') \<and> distinct (map snd (im_pulled sh)) \<and>
    (\<forall>g ref. pulls ref (pcs g) \<longrightarrow> ref \<notin> snd ` set (im_pulled sh))"
proof -
  have inv: "busy_ok (sh, pcs)" "owner_ok (sh, pcs)" "pulled_ok (sh, pcs)"
    using img.reach_inv [OF assms] by (simp_all add: img_inv_def)
  have own: "\<exists>o'. owns (pcs g) = Some (ref, o') \<and> pcs g \<noteq> LeaveOnce ref o' None" if "pulls ref (pcs g)" for g ref
    using that by (cases "pcs g") auto
  have "g = g'" if "pulls ref (pcs g)" "pulls ref (pcs g')" for g g' ref
    using own [OF that(1)] own [OF that(2)] one_owner [OF inv(1,2)] by blast
  moreover have "ref \<notin> snd ` set (im_pulled sh)" if "pulls ref (pcs g)" for g ref
    using own [OF that] owner_not_pulled [OF inv] by blast
  ultimately show ?thesis using inv(3) by (auto simp: pulled_ok_def)
qed

theorem pulls_exclusive_witness:
  "\<not> pulls ''gcc:14'' (demo_callers 1) \<and> ''gcc:14'' \<notin> snd ` set (im_pulled demo_images)"
proof -
  note ex = pulls_exclusive [OF demo_reach]
  have p: "pulls ''gcc:14'' (demo_callers 0)" by (simp add: demo_callers_def)
  have "pulls ''gcc:14'' (demo_callers 1) \<Longrightarrow> (0 :: nat) = 1" using ex p by blast
  moreover have "''gcc:14'' \<notin> snd ` set (im_pulled demo_images)" using ex p by blast
  ultimately show ?thesis by auto
qed

text \<open>
  C15. No caller waits for ever: from every reachable state, if no new calls come, every way of scheduling the
  goroutines ends after a bounded number of steps, and when nobody can move, every call has returned.
\<close>

theorem ensureImage_returns:
  assumes "reach img_start (img_step cfg) s"
  shows "(\<forall>n s'. (img_move cfg ^^ n) s s' \<longrightarrow> n \<le> img_remaining s) \<and>
    (\<forall>s'. (img_move cfg)\<^sup>*\<^sup>* s s' \<and> \<not> (\<exists>t. img_move cfg s' t) \<longrightarrow> all_returned s')"
proof (intro conjI allI impI)
  have inv: "img_inv s" using assms by (rule img.reach_inv)
  show "n \<le> img_remaining s" if "(img_move cfg ^^ n) s s'" for n s'
    using img_end.run_bounded [OF that inv] by simp
  show "all_returned s'" if "(img_move cfg)\<^sup>*\<^sup>* s s' \<and> \<not> (\<exists>t. img_move cfg s' t)" for s'
    using img_end.stops_final [OF inv] that by blast
qed

theorem ensureImage_returns_witness:
  "\<exists>s'. (img_move default_config)\<^sup>*\<^sup>* (demo_images, demo_callers) s' \<and> \<not> (\<exists>t. img_move default_config s' t) \<and>
    all_returned s'"
proof -
  have "img_inv (demo_images, demo_callers)" using demo_reach by (rule img.reach_inv)
  then obtain s' where s': "(img_move default_config)\<^sup>*\<^sup>* (demo_images, demo_callers) s'" "all_returned s'"
    using img_end.ends by blast
  have "\<not> (\<exists>t. img_move default_config s' t)"
  proof
    assume "\<exists>t. img_move default_config s' t"
    then obtain t where "img_move default_config s' t" ..
    then show False
    proof cases
      case (move dk g pcs sh sh' calls pc')
      with s'(2) have "returned (pcs g)" by (simp add: all_returned_def)
      with move(3) show False by (cases "pcs g") simp_all
    qed
  qed
  with s'(1) ensureImage_returns [OF demo_reach] show ?thesis by blast
qed

end
