(* ===== verification/Ocee_Loadtest.thy ===== *)
theory Ocee_Loadtest
  imports Ocee_Lang Ocee_Float
begin

text \<open>
  The load generator \<^verbatim>\<open>src/scripts/loadtest/main.go\<close>: submitting and polling one job (\<open>runOne\<close>), the
  percentiles, the report and the built-in programs. The answers of the server are arguments. \<open>runOne\<close> is
  given by its two parts, the submission and one turn of the poll loop, which \<open>Ocee_Loadmain\<close> interleaves.
  Shown: the poll loop ends with the deadline and reports only what it saw, the report counts every
  result once, the latencies it prints lie between the smallest and the largest, and the built-in programs
  cover exactly the supported languages.
\<close>

section \<open>One job\<close>

record job_result =
  jr_latency :: duration
  jr_status :: string
  jr_err :: "string option"

definition job_error :: "string \<Rightarrow> job_result" where
  "job_error e = \<lparr>jr_latency = 0, jr_status = [], jr_err = Some e\<rparr>"

text \<open>What happens in one turn of the poll loop, in the order of the code.\<close>

datatype poll =
  DeadlinePassed
| RequestError string
| PollFailed string
| BadBody string
| Seen string

text \<open>One turn: the result it returns, or \<^const>\<open>None\<close> if the loop goes on.\<close>

fun poll_turn :: "string \<Rightarrow> poll \<Rightarrow> job_result option" where
  "poll_turn i DeadlinePassed = Some (job_error (''timed out waiting for '' @ i))"
| "poll_turn i (RequestError e) = Some (job_error e)"
| "poll_turn i (PollFailed e) = Some (job_error e)"
| "poll_turn i (BadBody e) = Some (job_error e)"
| "poll_turn i (Seen st) =
     (if st = ''completed'' \<or> st = ''failed'' then Some \<lparr>jr_latency = 0, jr_status = st, jr_err = None\<rparr> else None)"

text \<open>The loop over the turns that happened; \<^const>\<open>None\<close> while it is still waiting.\<close>

fun poll_loop :: "string \<Rightarrow> poll list \<Rightarrow> job_result option" where
  "poll_loop i [] = None"
| "poll_loop i (p # ps) = (case poll_turn i p of Some r \<Rightarrow> Some r | None \<Rightarrow> poll_loop i ps)"

text \<open>The answer to the submission: its status code and line, the body, and the id in it.\<close>

datatype submitted = NotSent string | Answer int string string "string + string"

text \<open>
  How \<open>runOne\<close> ends: it returns, or \<^verbatim>\<open>time.NewTicker\<close> panics on an interval that is not positive. The first part
  is the code up to the loop; on the right, the id to poll for.
\<close>

datatype job_outcome = Returns job_result | Panics string

definition submit_job :: "duration \<Rightarrow> submitted \<Rightarrow> job_outcome + string" where
  "submit_job interval sub =
     (case sub of
        NotSent e \<Rightarrow> Inl (Returns (job_error e))
      | Answer code status raw decoded \<Rightarrow>
          if code \<noteq> 202 then Inl (Returns (job_error (''submit returned '' @ status @ '': '' @ raw)))
          else (case decoded of
              Inl e \<Rightarrow> Inl (Returns (job_error e))
            | Inr i \<Rightarrow>
                if interval \<le> 0 then Inl (Panics ''non-positive interval for NewTicker'') else Inr i))"

definition runOne :: "duration \<Rightarrow> submitted \<Rightarrow> poll list \<Rightarrow> job_outcome option" where
  "runOne interval sub polls =
     (case submit_job interval sub of
        Inl out \<Rightarrow> Some out
      | Inr i \<Rightarrow> map_option Returns (poll_loop i polls))"

section \<open>The report\<close>

text \<open>The fraction is one of three constants between 0 and 1, so the index is never negative.\<close>

definition percentile :: "duration list \<Rightarrow> rat \<Rightarrow> duration" where
  "percentile ds p =
     (if ds = [] then 0
      else
        let idx = trunc (fl64 (p * of_nat (length ds)));
            idx' = (if idx \<ge> int (length ds) then int (length ds) - 1 else idx)
        in ds ! nat idx')"

definition succeeded :: "job_result \<Rightarrow> bool" where
  "succeeded r = (jr_err r = None \<and> jr_status r = ''completed'')"

definition failure_key :: "job_result \<Rightarrow> string" where
  "failure_key r = (case jr_err r of Some e \<Rightarrow> e | None \<Rightarrow> ''status='' @ jr_status r)"

record summary =
  su_total :: nat
  su_succeeded :: nat
  su_failed :: nat
  su_failures :: "string \<Rightarrow> nat"
  su_latency :: "(duration \<times> duration \<times> duration \<times> duration \<times> duration \<times> duration) option"
  su_exit :: int

text \<open>
  The six latencies are the minimum, the mean, the percentiles 50, 95 and 99, and the maximum; they are
  printed only if a job succeeded. \<open>float64\<close> constants are rounded.
\<close>

definition report :: "job_result list \<Rightarrow> summary" where
  "report results =
     (let ok = sort (map jr_latency (filter succeeded results));
          bad = filter (\<lambda>r. \<not> succeeded r) results
      in \<lparr>su_total = length results, su_succeeded = length ok, su_failed = length results - length ok,
          su_failures = (\<lambda>k. length (filter (\<lambda>r. failure_key r = k) bad)),
          su_latency =
            (if ok = [] then None
             else Some (hd ok, quot (wrap64 (sum_list ok)) (int (length ok)), percentile ok (fl64 (1 / 2)),
                    percentile ok (fl64 (95 / 100)), percentile ok (fl64 (99 / 100)), last ok)),
          su_exit = (if bad = [] then 0 else 1)\<rparr>)"

definition defaultCode :: "string \<Rightarrow> string" where
  "defaultCode language =
     (if language = ''python'' then ''print(sum(i*i for i in range(200000)))''
      else if language = ''node'' then ''let s=0; for(let i=0;i<200000;i++) s+=i*i; console.log(s);''
      else if language = ''c'' then
        ''#include <stdio.h>'' @ [nl] @
        ''int main(void){long long s=0;for(long i=0;i<200000;i++)s+=(long long)i*i;printf('' @ [CHR 0x22] @
        ''%lld'' @ [CHR 0x5C] @ ''n'' @ [CHR 0x22] @ '',s);return 0;}''
      else if language = ''cpp'' then
        ''#include <iostream>'' @ [nl] @
        ''int main(){long long s=0;for(long i=0;i<200000;i++)s+=(long long)i*i;std::cout<<s<<std::endl;}''
      else if language = ''java'' then
        ''public class Main{public static void main(String[] a){long s=0;for(int i=0;i<200000;i++)s+=(long)i*i;System.out.println(s);}}''
      else [])"

section \<open>Facts\<close>

lemma fl64_nonneg:
  assumes "0 \<le> x"
  shows "0 \<le> fl64 x"
proof -
  have "\<bar>fl64 x - x\<bar> \<le> x / 9007199254740992" using fl64_error [of x] assms by simp
  then have "x - fl64 x \<le> x / 9007199254740992" unfolding abs_le_iff by simp
  with assms show ?thesis by (simp add: field_simps)
qed

lemma percentile_mem:
  assumes "ds \<noteq> []" and "0 \<le> p"
  shows "percentile ds p \<in> set ds"
proof -
  have "0 \<le> fl64 (p * of_nat (length ds))" using assms(2) by (intro fl64_nonneg) simp
  then have "0 \<le> trunc (fl64 (p * of_nat (length ds)))" by (simp add: trunc_def)
  with assms(1) show ?thesis
    by (auto simp: percentile_def Let_def intro!: nth_mem) (simp_all add: nat_less_iff)
qed

lemma sorted_between:
  "sorted ds \<Longrightarrow> x \<in> set ds \<Longrightarrow> hd ds \<le> x \<and> x \<le> last ds"
  by (induction ds) (auto dest: last_in_set)

section \<open>Properties\<close>

text \<open>
  The report counts every result once, exits with 0 exactly if all jobs completed, and every
  percentile it prints lies between the smallest and the largest latency.
\<close>

theorem report_sound:
  "su_succeeded (report rs) + su_failed (report rs) = length rs \<and>
   (su_exit (report rs) = 0 \<longleftrightarrow> list_all succeeded rs) \<and>
   (case su_latency (report rs) of
      None \<Rightarrow> su_succeeded (report rs) = 0
    | Some (lo, mean, p50, p95, p99, hi) \<Rightarrow> \<forall>p\<in>{p50, p95, p99}. lo \<le> p \<and> p \<le> hi)"
proof -
  let ?ok = "sort (map jr_latency (filter succeeded rs))"
  have "length (filter succeeded rs) \<le> length rs" by (rule length_filter_le)
  moreover have "hd ?ok \<le> percentile ?ok (fl64 q) \<and> percentile ?ok (fl64 q) \<le> last ?ok"
    if "?ok \<noteq> []" "0 \<le> q" for q
    using percentile_mem [OF that(1) fl64_nonneg [OF that(2)]] by (intro sorted_between) simp_all
  moreover have "filter (\<lambda>r. \<not> succeeded r) rs = [] \<longleftrightarrow> list_all succeeded rs"
    by (auto simp: filter_empty_conv list_all_iff)
  ultimately show ?thesis
    by (simp add: report_def Let_def)
qed

text \<open>
  The poll loop reports a status only if it saw it and the status is final, and it ends when the
  deadline passes, if not before.
\<close>

theorem runOne_reports_seen:
  "(\<forall>r. runOne interval sub polls = Some (Returns r) \<and> jr_err r = None \<longrightarrow>
      Seen (jr_status r) \<in> set polls \<and> jr_status r \<in> {''completed'', ''failed''}) \<and>
   (DeadlinePassed \<in> set polls \<longrightarrow> (\<exists>out. runOne interval sub polls = Some out))"
proof -
  have turn: "poll_turn i p = Some r \<Longrightarrow> jr_err r = None \<Longrightarrow>
      p = Seen (jr_status r) \<and> jr_status r \<in> {''completed'', ''failed''}" for i p r
    by (cases p) (auto simp: job_error_def split: if_splits)
  have "poll_loop i polls = Some r \<Longrightarrow> jr_err r = None \<Longrightarrow>
      Seen (jr_status r) \<in> set polls \<and> jr_status r \<in> {''completed'', ''failed''}" for i r
    by (induction polls) (auto split: option.splits dest: turn)
  moreover have "DeadlinePassed \<in> set polls \<Longrightarrow> \<exists>r. poll_loop i polls = Some r" for i
    by (induction polls) (auto split: option.splits)
  ultimately show ?thesis
    by (auto simp: runOne_def submit_job_def job_error_def split: submitted.splits sum.splits if_splits)
qed

text \<open>There is a built-in program exactly for the supported languages.\<close>

theorem defaultCode_covers_languages: "defaultCode k \<noteq> [] \<longleftrightarrow> Get k \<noteq> None"
  by (simp add: defaultCode_def Get_def registry_def)

text \<open>
  The percentile is not the nearest-rank one: for the median of an even number of latencies the
  nearest rank is the lower of the two middle ones, the code takes the upper one.
\<close>

theorem median_not_nearest_rank:
  assumes "length ds = 2 * m" and "0 < m" and "m < 2 ^ 52"
  shows "percentile ds (1 / 2) = ds ! m \<and> nat (\<lceil>(1 / 2 :: rat) * of_nat (length ds)\<rceil> - 1) = m - 1"
proof -
  have "fl64 (of_int (int m)) = of_int (int m)" using assms(3) by (intro fl64_int) simp
  then have "trunc (fl64 (1 / 2 * of_nat (length ds))) = int m"
    using assms(1) by (simp add: trunc_def)
  with assms show ?thesis by (auto simp: percentile_def Let_def)
qed

end
