(* ===== verification/Ocee_Loadmain.thy ===== *)
theory Ocee_Loadmain
  imports Ocee_Loadtest Ocee_Transition
begin

text \<open>
  The load generator's \<^verbatim>\<open>main\<close> (\<^verbatim>\<open>src/scripts/loadtest/main.go\<close>): one goroutine per job, a buffered channel as a
  semaphore for the jobs in flight, a wait group before the report. Every step is one action of the main
  goroutine or of one job, in any order; a job submits and then polls turn by turn. What the server answers
  to a job and when is a function of the job's number.
  Shown: at most the given number of jobs are in flight; when the report is made every job has stored
  the outcome of its own \<open>runOne\<close> in its own place; every run ends with the report, whatever the order of the
  steps, if the concurrency and the poll interval are positive; with concurrency 0 it is stuck at once; and
  with an interval that is not positive it never reports once a job was accepted.
\<close>

section \<open>States\<close>

text \<open>
  Where the main goroutine is: at the head of the loop, at the send to the semaphore, at \<open>wg.Wait\<close>, at the
  report.
\<close>

datatype main_pc = MLoop | MAcquire | MWait | MReport

text \<open>
  Where the goroutine of a job is: not started, submitting, before a turn of the poll loop (with the id
  and the number of turns before), after the store to \<open>results[i]\<close>, after
  \<open>completed.Add\<close>, after the receive from the semaphore, after \<open>wg.Done\<close>.
\<close>

datatype job_pc = JIdle | JSubmitting | JPolling string nat | JStored | JCounted | JReleased | JEnded

text \<open>A panic in a goroutine ends the whole program (\<open>lg_panic\<close>).\<close>

record load_state =
  lg_pc :: main_pc
  lg_next :: nat
  lg_wg :: nat
  lg_sem :: nat
  lg_jobs :: "nat \<Rightarrow> job_pc"
  lg_results :: "job_result list"
  lg_completed :: nat
  lg_panic :: "string option"

definition zero_result :: job_result where
  "zero_result = \<lparr>jr_latency = 0, jr_status = [], jr_err = None\<rparr>"

definition load_begin :: "nat \<Rightarrow> load_state" where
  "load_begin jobs_total =
     \<lparr>lg_pc = MLoop, lg_next = 0, lg_wg = 0, lg_sem = 0, lg_jobs = (\<lambda>_. JIdle),
      lg_results = replicate jobs_total zero_result, lg_completed = 0, lg_panic = None\<rparr>"

text \<open>
  Up to the loop: the exit for a language without a program, and the panics of \<^verbatim>\<open>make\<close> for a negative
  length or capacity.
\<close>

datatype load_outcome = LoadExit int | LoadPanic string | LoadBegins load_state

definition load_main :: "string \<Rightarrow> int \<Rightarrow> int \<Rightarrow> load_outcome" where
  "load_main language jobs_total concurrency =
     (if defaultCode language = [] then LoadExit 1
      else if jobs_total < 0 then LoadPanic ''makeslice: len out of range''
      else if concurrency < 0 then LoadPanic ''makechan: size out of range''
      else LoadBegins (load_begin (nat jobs_total)))"

section \<open>Steps\<close>

text \<open>
  The surroundings of one job: the answer to its submission, what happens in each turn of its poll loop,
  when the turn begins (counted from the start of its deadline), and how long the job took.
\<close>

record job_env =
  je_sub :: submitted
  je_turn :: "nat \<Rightarrow> poll"
  je_at :: "nat \<Rightarrow> duration"
  je_latency :: duration

text \<open>What a goroutine within \<open>runOne\<close> does next: go on, return to store its result, or panic.\<close>

datatype job_next = Goes job_pc | Stores job_result | Crashes string

fun job_turn :: "duration \<Rightarrow> job_env \<Rightarrow> job_pc \<Rightarrow> job_next option" where
  "job_turn interval je JSubmitting =
     Some (case submit_job interval (je_sub je) of
        Inl (Returns r) \<Rightarrow> Stores r
      | Inl (Panics msg) \<Rightarrow> Crashes msg
      | Inr i \<Rightarrow> Goes (JPolling i 0))"
| "job_turn interval je (JPolling i k) =
     Some (case poll_turn i (je_turn je k) of Some r \<Rightarrow> Stores r | None \<Rightarrow> Goes (JPolling i (Suc k)))"
| "job_turn interval je _ = None"

text \<open>
  A send to the semaphore waits while the buffer is full. With capacity 0 it would need a receiver that is
  already waiting; the receivers are the goroutines of the jobs, which are started only after a send.
\<close>

inductive load_step :: "nat \<Rightarrow> nat \<Rightarrow> duration \<Rightarrow> (nat \<Rightarrow> job_env) \<Rightarrow> load_state \<Rightarrow> load_state \<Rightarrow> bool"
  for jobs_total concurrency interval env where
  wg_Add: "lg_panic s = None \<Longrightarrow> lg_pc s = MLoop \<Longrightarrow> lg_next s < jobs_total \<Longrightarrow>
    load_step jobs_total concurrency interval env s (s\<lparr>lg_pc := MAcquire, lg_wg := lg_wg s + 1\<rparr>)"
| acquire: "lg_panic s = None \<Longrightarrow> lg_pc s = MAcquire \<Longrightarrow> lg_sem s < concurrency \<Longrightarrow>
    load_step jobs_total concurrency interval env s
      (s\<lparr>lg_pc := MLoop, lg_sem := lg_sem s + 1, lg_jobs := (lg_jobs s)(lg_next s := JSubmitting),
         lg_next := lg_next s + 1\<rparr>)"
| loop_ends: "lg_panic s = None \<Longrightarrow> lg_pc s = MLoop \<Longrightarrow> \<not> lg_next s < jobs_total \<Longrightarrow>
    load_step jobs_total concurrency interval env s (s\<lparr>lg_pc := MWait\<rparr>)"
| wg_Wait: "lg_panic s = None \<Longrightarrow> lg_pc s = MWait \<Longrightarrow> lg_wg s = 0 \<Longrightarrow>
    load_step jobs_total concurrency interval env s (s\<lparr>lg_pc := MReport\<rparr>)"
| go_on: "lg_panic s = None \<Longrightarrow> job_turn interval (env i) (lg_jobs s i) = Some (Goes q) \<Longrightarrow>
    load_step jobs_total concurrency interval env s (s\<lparr>lg_jobs := (lg_jobs s)(i := q)\<rparr>)"
| store_result: "lg_panic s = None \<Longrightarrow> job_turn interval (env i) (lg_jobs s i) = Some (Stores r) \<Longrightarrow>
    load_step jobs_total concurrency interval env s
      (s\<lparr>lg_jobs := (lg_jobs s)(i := JStored),
         lg_results := (lg_results s)[i := r\<lparr>jr_latency := je_latency (env i)\<rparr>]\<rparr>)"
| crash: "lg_panic s = None \<Longrightarrow> job_turn interval (env i) (lg_jobs s i) = Some (Crashes msg) \<Longrightarrow>
    load_step jobs_total concurrency interval env s (s\<lparr>lg_panic := Some msg\<rparr>)"
| completed_Add: "lg_panic s = None \<Longrightarrow> lg_jobs s i = JStored \<Longrightarrow>
    load_step jobs_total concurrency interval env s
      (s\<lparr>lg_jobs := (lg_jobs s)(i := JCounted), lg_completed := lg_completed s + 1\<rparr>)"
| release: "lg_panic s = None \<Longrightarrow> lg_jobs s i = JCounted \<Longrightarrow> 0 < lg_sem s \<Longrightarrow>
    load_step jobs_total concurrency interval env s
      (s\<lparr>lg_jobs := (lg_jobs s)(i := JReleased), lg_sem := lg_sem s - 1\<rparr>)"
| wg_Done: "lg_panic s = None \<Longrightarrow> lg_jobs s i = JReleased \<Longrightarrow>
    load_step jobs_total concurrency interval env s
      (s\<lparr>lg_jobs := (lg_jobs s)(i := JEnded), lg_wg := lg_wg s - 1\<rparr>)"

inductive_cases load_stepE: "load_step jobs_total concurrency interval env s s'"

text \<open>
  What the program relies on of package \<^verbatim>\<open>time\<close> and of contexts: the \<open>k\<close>-th tick does not come before \<open>k\<close> intervals have
  passed, and in a turn that begins after the deadline the loop is left or the request fails.
\<close>

fun cut_off :: "poll \<Rightarrow> bool" where
  "cut_off DeadlinePassed = True"
| "cut_off (RequestError _) = True"
| "cut_off (PollFailed _) = True"
| "cut_off (BadBody _) = False"
| "cut_off (Seen _) = False"

definition keeps_time :: "duration \<Rightarrow> duration \<Rightarrow> job_env \<Rightarrow> bool" where
  "keeps_time interval timeout je =
     ((\<forall>k. int (Suc k) * interval \<le> je_at je k) \<and> (\<forall>k. timeout \<le> je_at je k \<longrightarrow> cut_off (je_turn je k)))"

definition turns_max :: "duration \<Rightarrow> duration \<Rightarrow> nat" where
  "turns_max interval timeout = nat (timeout div interval)"

lemma turn_cut_off:
  assumes "keeps_time interval timeout je" and "0 < interval"
  shows "cut_off (je_turn je (turns_max interval timeout))"
proof -
  let ?k = "turns_max interval timeout"
  have "interval * (timeout div interval) + timeout mod interval = timeout" by (rule mult_div_mod_eq)
  moreover have "timeout mod interval < interval" using assms(2) by simp
  moreover have "interval * (timeout div interval) \<le> interval * int ?k"
    using assms(2) by (intro mult_left_mono) (simp_all add: turns_max_def)
  ultimately have "timeout \<le> interval + interval * int ?k" by linarith
  then have "timeout \<le> int (Suc ?k) * interval" by (simp add: algebra_simps)
  with assms(1) show ?thesis unfolding keeps_time_def by (meson order_trans)
qed

lemma cut_off_ends: "cut_off p \<Longrightarrow> \<exists>r. poll_turn i p = Some r"
  by (cases p) auto

section \<open>Counting jobs\<close>

text \<open>The sum of a weight over the first \<open>n\<close> jobs.\<close>

definition weigh :: "(job_pc \<Rightarrow> nat) \<Rightarrow> nat \<Rightarrow> (nat \<Rightarrow> job_pc) \<Rightarrow> nat" where
  "weigh f n jobs = (\<Sum>k<n. f (jobs k))"

lemma weigh_upd:
  assumes "i < n"
  shows "weigh f n (jobs(i := q)) + f (jobs i) = weigh f n jobs + f q"
proof -
  have "(\<Sum>k\<in>{..<n} - {i}. f ((jobs(i := q)) k)) = (\<Sum>k\<in>{..<n} - {i}. f (jobs k))"
    by (rule sum.cong) auto
  then show ?thesis
    using assms unfolding weigh_def by (simp add: sum.remove [of "{..<n}" i])
qed

lemma weigh_beyond: "n \<le> i \<Longrightarrow> weigh f n (jobs(i := q)) = weigh f n jobs"
  unfolding weigh_def by (rule sum.cong) auto

lemma weigh_Suc [simp]: "weigh f (Suc n) jobs = weigh f n jobs + f (jobs n)"
  by (simp add: weigh_def)

lemma weigh_0 [simp]: "weigh f 0 jobs = 0"
  by (simp add: weigh_def)

lemma weigh_pos: "0 < weigh f n jobs \<Longrightarrow> \<exists>k<n. 0 < f (jobs k)"
  unfolding weigh_def by (metis lessThan_iff not_gr_zero sum.neutral)

lemma weigh_zero: "weigh f n jobs = 0 \<Longrightarrow> k < n \<Longrightarrow> f (jobs k) = 0"
  unfolding weigh_def by simp

text \<open>The jobs that hold a place in the semaphore, that have not ended, and that were counted.\<close>

definition in_flight :: "job_pc \<Rightarrow> nat" where
  "in_flight q = of_bool (q \<notin> {JIdle, JReleased, JEnded})"

definition not_ended :: "job_pc \<Rightarrow> nat" where
  "not_ended q = of_bool (q \<noteq> JEnded)"

definition was_counted :: "job_pc \<Rightarrow> nat" where
  "was_counted q = of_bool (q \<in> {JCounted, JReleased, JEnded})"

lemmas weights = in_flight_def not_ended_def was_counted_def

section \<open>The invariant\<close>

text \<open>
  The result a job has to store: that of \<^const>\<open>runOne\<close> on its own submission and the turns of its own poll
  loop. Before that, the turns of the loop so far have all gone on.
\<close>

definition own_result :: "duration \<Rightarrow> job_env \<Rightarrow> job_result \<Rightarrow> bool" where
  "own_result interval je x =
     (\<exists>n r. runOne interval (je_sub je) (map (je_turn je) [0..<n]) = Some (Returns r) \<and>
        x = r\<lparr>jr_latency := je_latency je\<rparr>)"

fun job_ok :: "duration \<Rightarrow> job_env \<Rightarrow> job_pc \<Rightarrow> job_result \<Rightarrow> bool" where
  "job_ok interval je JIdle x = True"
| "job_ok interval je JSubmitting x = True"
| "job_ok interval je (JPolling i k) x =
     (submit_job interval (je_sub je) = Inr i \<and> (\<forall>j<k. poll_turn i (je_turn je j) = None))"
| "job_ok interval je _ x = own_result interval je x"

lemma poll_loop_first:
  "\<forall>j<k. poll_turn i (f j) = None \<Longrightarrow> poll_turn i (f k) = Some r \<Longrightarrow> poll_loop i (map f [0..<Suc k]) = Some r"
proof (induction k arbitrary: f)
  case (Suc k)
  have "poll_loop i (map (\<lambda>j. f (Suc j)) [0..<Suc k]) = Some r"
    using Suc.prems by (intro Suc.IH) auto
  moreover have "map f [0..<Suc (Suc k)] = f 0 # map (\<lambda>j. f (Suc j)) [0..<Suc k]"
    by (simp add: upt_conv_Cons map_Suc_upt [symmetric] del: upt_Suc)
  ultimately show ?case using Suc.prems(1) by (simp del: upt_Suc)
qed simp

lemma stored_own_result:
  assumes "job_turn interval je q = Some (Stores r)" and "job_ok interval je q x"
  shows "own_result interval je (r\<lparr>jr_latency := je_latency je\<rparr>)"
proof (cases q)
  case JSubmitting
  with assms(1) have "runOne interval (je_sub je) (map (je_turn je) [0..<0]) = Some (Returns r)"
    by (auto simp: runOne_def split: sum.splits job_outcome.splits)
  then show ?thesis unfolding own_result_def by blast
next
  case (JPolling i k)
  with assms have "poll_loop i (map (je_turn je) [0..<Suc k]) = Some r"
    by (intro poll_loop_first) (auto split: option.splits)
  with JPolling assms(2) have "runOne interval (je_sub je) (map (je_turn je) [0..<Suc k]) = Some (Returns r)"
    by (simp add: runOne_def del: upt_Suc)
  then show ?thesis unfolding own_result_def by blast
qed (use assms in auto)

lemma going_on_ok:
  assumes "job_turn interval je q = Some (Goes q')" and "job_ok interval je q x"
  shows "job_ok interval je q' x" and "in_flight q' = in_flight q" and "not_ended q' = not_ended q"
    and "was_counted q' = was_counted q" and "q \<noteq> JIdle" and "q' \<noteq> JIdle"
  using assms
  by (cases q; auto simp: weights less_Suc_eq split: sum.splits job_outcome.splits option.splits)+

lemma job_turn_no_crash: "0 < interval \<Longrightarrow> job_turn interval je q \<noteq> Some (Crashes msg)"
  by (cases q) (auto simp: submit_job_def split: submitted.splits sum.splits if_splits option.splits job_outcome.splits)

definition load_inv :: "nat \<Rightarrow> nat \<Rightarrow> duration \<Rightarrow> (nat \<Rightarrow> job_env) \<Rightarrow> load_state \<Rightarrow> bool" where
  "load_inv jobs_total concurrency interval env s =
     (lg_next s \<le> jobs_total \<and> length (lg_results s) = jobs_total \<and>
      (\<forall>k. lg_jobs s k = JIdle \<longleftrightarrow> lg_next s \<le> k) \<and>
      (lg_pc s = MAcquire \<longrightarrow> lg_next s < jobs_total) \<and> (lg_pc s \<in> {MWait, MReport} \<longrightarrow> lg_next s = jobs_total) \<and>
      (lg_pc s = MReport \<longrightarrow> lg_wg s = 0) \<and>
      lg_wg s = weigh not_ended (lg_next s) (lg_jobs s) + of_bool (lg_pc s = MAcquire) \<and>
      lg_sem s = weigh in_flight (lg_next s) (lg_jobs s) \<and> lg_sem s \<le> concurrency \<and>
      lg_completed s = weigh was_counted (lg_next s) (lg_jobs s) \<and>
      (0 < interval \<longrightarrow> lg_panic s = None) \<and>
      (\<forall>k<jobs_total. job_ok interval (env k) (lg_jobs s k) (lg_results s ! k)))"

lemma load_inv_begin: "load_inv jobs_total concurrency interval env (load_begin jobs_total)"
  by (simp add: load_inv_def load_begin_def)

lemma started: "load_inv jobs_total c interval env s \<Longrightarrow> lg_jobs s i \<noteq> JIdle \<Longrightarrow> i < lg_next s"
  by (auto simp: load_inv_def not_le [symmetric])

lemma job_inv_ok:
  "load_inv jobs_total c interval env s \<Longrightarrow> lg_jobs s i \<noteq> JIdle \<Longrightarrow>
   i < jobs_total \<and> job_ok interval (env i) (lg_jobs s i) (lg_results s ! i)"
  using started [of jobs_total c interval env s i] by (simp add: load_inv_def)

lemma job_turn_started: "job_turn interval je q = Some x \<Longrightarrow> q \<noteq> JIdle"
  by auto

text \<open>The shared part of the steps of a job.\<close>

lemma load_inv_job:
  assumes "load_inv jobs_total c interval env s" and "lg_jobs s i \<noteq> JIdle" and "q \<noteq> JIdle"
    and "wg + not_ended (lg_jobs s i) = lg_wg s + not_ended q" and "wg \<le> lg_wg s"
    and "sem + in_flight (lg_jobs s i) = lg_sem s + in_flight q" and "sem \<le> lg_sem s"
    and "co + was_counted (lg_jobs s i) = lg_completed s + was_counted q"
    and "length rs = length (lg_results s)" and "\<And>k. k \<noteq> i \<Longrightarrow> rs ! k = lg_results s ! k"
    and "job_ok interval (env i) q (rs ! i)"
  shows "load_inv jobs_total c interval env
    (s\<lparr>lg_jobs := (lg_jobs s)(i := q), lg_results := rs, lg_wg := wg, lg_sem := sem, lg_completed := co\<rparr>)"
proof -
  note upd = weigh_upd [OF started [OF assms(1,2)], where jobs = "lg_jobs s" and q = q]
  from assms(1,4) upd [of not_ended] have "wg = weigh not_ended (lg_next s) ((lg_jobs s)(i := q)) + of_bool (lg_pc s = MAcquire)"
    unfolding load_inv_def by linarith
  moreover from assms(1,6) upd [of in_flight] have "sem = weigh in_flight (lg_next s) ((lg_jobs s)(i := q))"
    unfolding load_inv_def by linarith
  moreover from assms(1,8) upd [of was_counted] have "co = weigh was_counted (lg_next s) ((lg_jobs s)(i := q))"
    unfolding load_inv_def by linarith
  ultimately show ?thesis
    using assms(1-3,5,7,9-11) started [OF assms(1,2)] unfolding load_inv_def by auto
qed

lemma job_waited:
  assumes "load_inv jobs_total c interval env s" and "lg_jobs s i \<notin> {JIdle, JEnded}"
  shows "0 < lg_wg s"
proof -
  have "not_ended (lg_jobs s i) \<le> weigh not_ended (lg_next s) (lg_jobs s)"
    unfolding weigh_def using started [OF assms(1)] assms(2) by (intro member_le_sum) auto
  with assms show ?thesis by (simp add: load_inv_def not_ended_def)
qed

lemma load_inv_step:
  assumes inv: "load_inv jobs_total c interval env s" and "load_step jobs_total c interval env s s'"
  shows "load_inv jobs_total c interval env s'"
  using assms(2)
proof cases
  case wg_Add
  with inv show ?thesis by (simp add: load_inv_def)
next
  case acquire
  let ?jobs = "(lg_jobs s)(lg_next s := JSubmitting)"
  have "weigh f (Suc (lg_next s)) ?jobs = weigh f (lg_next s) (lg_jobs s) + f JSubmitting" for f
    using weigh_beyond [of "lg_next s" "lg_next s" f "lg_jobs s"] by simp
  with acquire inv show ?thesis by (auto simp: load_inv_def weights simp del: weigh_Suc)
next
  case loop_ends
  with inv show ?thesis by (auto simp: load_inv_def)
next
  case wg_Wait
  with inv show ?thesis by (auto simp: load_inv_def)
next
  case (go_on i q)
  note ok = job_inv_ok [OF inv job_turn_started [OF go_on(3)]]
  note q = going_on_ok [OF go_on(3) ok [THEN conjunct2]]
  from load_inv_job [OF inv q(5,6), of "lg_wg s" "lg_sem s" "lg_completed s" "lg_results s"] q(1-4) go_on(1)
  show ?thesis by simp
next
  case (store_result i r)
  note ok = job_inv_ok [OF inv job_turn_started [OF store_result(3)]]
  then have "i < length (lg_results s)" using inv by (simp add: load_inv_def)
  moreover have "in_flight (lg_jobs s i) = in_flight JStored \<and> not_ended (lg_jobs s i) = not_ended JStored \<and>
      was_counted (lg_jobs s i) = was_counted JStored"
    using store_result(3) by (cases "lg_jobs s i") (simp_all add: weights)
  ultimately show ?thesis
    using load_inv_job [OF inv job_turn_started [OF store_result(3)], of JStored "lg_wg s" "lg_sem s" "lg_completed s"
        "(lg_results s)[i := r\<lparr>jr_latency := je_latency (env i)\<rparr>]"]
      stored_own_result [OF store_result(3) ok [THEN conjunct2]] store_result(1) by simp
next
  case (crash i msg)
  with inv job_turn_no_crash [of interval "env i" "lg_jobs s i" msg] show ?thesis by (auto simp: load_inv_def)
next
  case (completed_Add i)
  with load_inv_job [OF inv, of i JCounted "lg_wg s" "lg_sem s" "lg_completed s + 1" "lg_results s"]
    job_inv_ok [OF inv, of i]
  show ?thesis by (simp add: weights)
next
  case (release i)
  with load_inv_job [OF inv, of i JReleased "lg_wg s" "lg_sem s - 1" "lg_completed s" "lg_results s"]
    job_inv_ok [OF inv, of i]
  show ?thesis by (simp add: weights)
next
  case (wg_Done i)
  moreover from this have "0 < lg_wg s" using job_waited [OF inv, of i] by simp
  ultimately show ?thesis
    using load_inv_job [OF inv, of i JEnded "lg_wg s - 1" "lg_sem s" "lg_completed s" "lg_results s"]
      job_inv_ok [OF inv, of i] by (simp add: weights)
qed

section \<open>Every run ends\<close>

text \<open>
  What is left of a job, when its loop makes at most \<open>b + 1\<close> turns. The conditions under which a run ends:
  room for a job, a positive interval, and clocks that keep time.
\<close>

fun job_left :: "nat \<Rightarrow> job_pc \<Rightarrow> nat" where
  "job_left b JIdle = 7 + b"
| "job_left b JSubmitting = 5 + b"
| "job_left b (JPolling _ k) = 4 + (b - k)"
| "job_left b JStored = 3"
| "job_left b JCounted = 2"
| "job_left b JReleased = 1"
| "job_left b JEnded = 0"

fun main_left :: "main_pc \<Rightarrow> nat" where
  "main_left MLoop = 3"
| "main_left MAcquire = 2"
| "main_left MWait = 1"
| "main_left MReport = 0"

definition load_left :: "nat \<Rightarrow> nat \<Rightarrow> load_state \<Rightarrow> nat" where
  "load_left jobs_total b s = weigh (job_left b) jobs_total (lg_jobs s) + main_left (lg_pc s)"

definition runnable_load :: "nat \<Rightarrow> duration \<Rightarrow> duration \<Rightarrow> (nat \<Rightarrow> job_env) \<Rightarrow> bool" where
  "runnable_load concurrency interval timeout env =
     (0 < concurrency \<and> 0 < interval \<and> (\<forall>k. keeps_time interval timeout (env k)))"

lemma job_turn_left:
  assumes "keeps_time interval timeout je" and "0 < interval" and "job_ok interval je q x"
  shows "job_turn interval je q = Some (Goes q') \<Longrightarrow>
      job_left (turns_max interval timeout) q' < job_left (turns_max interval timeout) q"
    and "job_turn interval je q = Some (Stores r) \<Longrightarrow> 3 < job_left (turns_max interval timeout) q"
proof -
  let ?b = "turns_max interval timeout"
  have "k < ?b" if "q = JPolling i k" "poll_turn i (je_turn je k) = None" for i k
  proof (rule ccontr)
    assume "\<not> k < ?b"
    then have "poll_turn i (je_turn je ?b) = None"
      using that assms(3) by (cases "?b = k") auto
    with cut_off_ends [OF turn_cut_off [OF assms(1,2)], of i] show False by simp
  qed
  then show "job_turn interval je q = Some (Goes q') \<Longrightarrow> job_left ?b q' < job_left ?b q"
    by (cases q) (auto split: sum.splits job_outcome.splits option.splits)
  show "job_turn interval je q = Some (Stores r) \<Longrightarrow> 3 < job_left ?b q"
    by (cases q) auto
qed

lemma load_left_step:
  assumes inv: "load_inv jobs_total c interval env s" and cond: "runnable_load c interval timeout env"
    and "load_step jobs_total c interval env s s'"
  shows "load_left jobs_total (turns_max interval timeout) s' < load_left jobs_total (turns_max interval timeout) s"
proof -
  let ?b = "turns_max interval timeout"
  note upd = weigh_upd [where n = jobs_total and f = "job_left ?b" and jobs = "lg_jobs s"]
  have time: "keeps_time interval timeout (env i)" "0 < interval" for i using cond by (simp_all add: runnable_load_def)
  from assms(3) show ?thesis
  proof cases
    case acquire
    with inv have "lg_next s < jobs_total" "lg_jobs s (lg_next s) = JIdle" by (simp_all add: load_inv_def)
    with acquire upd [of "lg_next s" JSubmitting] show ?thesis by (simp add: load_left_def)
  next
    case (go_on i q)
    note ok = job_inv_ok [OF inv job_turn_started [OF go_on(3)]]
    from go_on(1) upd [of i q] ok job_turn_left(1) [OF time ok [THEN conjunct2] go_on(3)]
    show ?thesis by (simp add: load_left_def)
  next
    case (store_result i r)
    note ok = job_inv_ok [OF inv job_turn_started [OF store_result(3)]]
    from store_result(1) upd [of i JStored] ok job_turn_left(2) [OF time ok [THEN conjunct2] store_result(3)]
    show ?thesis by (simp add: load_left_def)
  next
    case (crash i msg)
    with job_turn_no_crash [OF time(2)] show ?thesis by blast
  next
    case (completed_Add i)
    with upd [of i JCounted] job_inv_ok [OF inv, of i] show ?thesis by (simp add: load_left_def)
  next
    case (release i)
    with upd [of i JReleased] job_inv_ok [OF inv, of i] show ?thesis by (simp add: load_left_def)
  next
    case (wg_Done i)
    with upd [of i JEnded] job_inv_ok [OF inv, of i] show ?thesis by (simp add: load_left_def)
  qed (simp_all add: load_left_def)
qed

text \<open>A started job that has not ended can go on.\<close>

lemma job_can_step:
  assumes "load_inv jobs_total c interval env s" and "lg_panic s = None"
    and "lg_jobs s i \<noteq> JIdle" and "lg_jobs s i \<noteq> JEnded"
  shows "\<exists>s'. load_step jobs_total c interval env s s'"
proof (cases "job_turn interval (env i) (lg_jobs s i)")
  case (Some x)
  with assms(2) show ?thesis by (cases x) (blast intro: go_on store_result crash)+
next
  case None
  show ?thesis
  proof (cases "lg_jobs s i = JCounted")
    case True
    have "in_flight (lg_jobs s i) \<le> weigh in_flight (lg_next s) (lg_jobs s)"
      unfolding weigh_def using started [OF assms(1,3)] by (intro member_le_sum) simp_all
    with True assms(1) have "0 < lg_sem s" by (simp add: load_inv_def weights)
    with True assms(2) show ?thesis by (blast intro: release)
  next
    case False
    with None assms(3,4) have "lg_jobs s i = JStored \<or> lg_jobs s i = JReleased" by (cases "lg_jobs s i") auto
    with assms(2) show ?thesis by (blast intro: completed_Add wg_Done)
  qed
qed

lemma load_not_stuck:
  assumes inv: "load_inv jobs_total c interval env s" and "0 < c" and "lg_panic s = None" and "lg_pc s \<noteq> MReport"
  shows "\<exists>s'. load_step jobs_total c interval env s s'"
proof (cases "lg_pc s")
  case MLoop
  with assms(3) show ?thesis by (blast intro: wg_Add loop_ends)
next
  case MAcquire
  show ?thesis
  proof (cases "lg_sem s < c")
    case True
    with MAcquire assms(3) show ?thesis by (blast intro: acquire)
  next
    case False
    with inv assms(2) have "0 < weigh in_flight (lg_next s) (lg_jobs s)" by (simp add: load_inv_def)
    then obtain i where "0 < in_flight (lg_jobs s i)" using weigh_pos by blast
    then have "lg_jobs s i \<noteq> JIdle" "lg_jobs s i \<noteq> JEnded" by (auto simp: weights)
    then show ?thesis by (rule job_can_step [OF inv assms(3)])
  qed
next
  case MWait
  show ?thesis
  proof (cases "lg_wg s = 0")
    case True
    with MWait assms(3) show ?thesis by (blast intro: wg_Wait)
  next
    case False
    with MWait inv have "0 < weigh not_ended (lg_next s) (lg_jobs s)" by (simp add: load_inv_def)
    then obtain i where "i < lg_next s" "0 < not_ended (lg_jobs s i)" using weigh_pos by blast
    with inv have "lg_jobs s i \<noteq> JIdle" "lg_jobs s i \<noteq> JEnded" by (auto simp: weights load_inv_def)
    then show ?thesis by (rule job_can_step [OF inv assms(3)])
  qed
qed (use assms(4) in simp)

interpretation load: ending_system "\<lambda>s. runnable_load c interval timeout env \<and> s = load_begin jobs_total"
    "load_step jobs_total c interval env"
    "\<lambda>s. runnable_load c interval timeout env \<and> load_inv jobs_total c interval env s"
    "\<lambda>s. lg_pc s = MReport" "load_left jobs_total (turns_max interval timeout)" for jobs_total c interval timeout env
proof unfold_locales
  fix s
  assume "runnable_load c interval timeout env \<and> load_inv jobs_total c interval env s" and "lg_pc s \<noteq> MReport"
  then show "\<exists>s'. load_step jobs_total c interval env s s'"
    by (intro load_not_stuck) (simp_all add: runnable_load_def load_inv_def)
qed (auto simp: load_inv_begin load_left_step intro: load_inv_step)

text \<open>The bounds on the jobs in flight and what the results are hold under no conditions.\<close>

interpretation load_bound: inductive_invariant "\<lambda>s. s = load_begin jobs_total" "load_step jobs_total c interval env"
    "load_inv jobs_total c interval env" for jobs_total c interval env
  by unfold_locales (auto simp: load_inv_begin intro: load_inv_step)

section \<open>Sample data\<close>

text \<open>A job that is accepted, sees its submission running twice and then completed.\<close>

definition sample_job :: job_env where
  "sample_job =
     \<lparr>je_sub = Answer 202 ''202 Accepted'' [] (Inr ''7''),
      je_turn = (\<lambda>k. if k < 2 then Seen ''running'' else if k = 2 then Seen ''completed'' else DeadlinePassed),
      je_at = (\<lambda>k. int (Suc k) * second), je_latency = 3 * second\<rparr>"

lemma sample_job_time: "keeps_time second (4 * second) sample_job"
  by (auto simp: keeps_time_def sample_job_def)

lemma sample_load: "runnable_load 2 second (4 * second) (\<lambda>_. sample_job)"
  unfolding runnable_load_def by (intro conjI allI sample_job_time) simp_all

section \<open>Properties\<close>

abbreviation "load_reach jobs_total c interval env \<equiv>
  reach (\<lambda>s. s = load_begin jobs_total) (load_step jobs_total c interval env)"

lemma load_reach_begin: "load_reach jobs_total c interval env (load_begin jobs_total)"
  by (rule reach_start) simp

lemma load_reach_step:
  "load_reach jobs_total c interval env s \<Longrightarrow> load_step jobs_total c interval env s s' \<Longrightarrow>
   load_reach jobs_total c interval env s'"
  by (rule reach_step)

text \<open>
  C40. At every moment at most the given number of jobs are between the send to the semaphore and the
  receive from it.
\<close>

theorem in_flight_bounded:
  assumes "load_reach jobs_total c interval env s"
  shows "card {k. lg_jobs s k \<notin> {JIdle, JReleased, JEnded}} \<le> c"
proof -
  let ?A = "{k. lg_jobs s k \<notin> {JIdle, JReleased, JEnded}}"
  have inv: "load_inv jobs_total c interval env s" using load_bound.reach_inv [OF assms] .
  then have "?A \<subseteq> {..<lg_next s}" by (auto intro: started)
  then have "?A = {..<lg_next s} \<inter> {k. lg_jobs s k \<notin> {JIdle, JReleased, JEnded}}" by auto
  then have "card ?A = weigh in_flight (lg_next s) (lg_jobs s)"
    by (simp add: weigh_def in_flight_def sum.If_cases of_bool_def)
  with inv show ?thesis by (simp add: load_inv_def)
qed

theorem in_flight_bounded_witness:
  "\<exists>s. load_reach 3 2 second (\<lambda>_. sample_job) s \<and> lg_jobs s 0 = JSubmitting \<and> lg_jobs s 1 = JSubmitting \<and>
     card {k. lg_jobs s k \<notin> {JIdle, JReleased, JEnded}} \<le> 2"
proof -
  let ?env = "\<lambda>_. sample_job"
  let ?go = "\<lambda>s. s\<lparr>lg_pc := MLoop, lg_sem := lg_sem s + 1, lg_jobs := (lg_jobs s)(lg_next s := JSubmitting),
         lg_next := lg_next s + 1\<rparr>"
  let ?add = "\<lambda>s. s\<lparr>lg_pc := MAcquire, lg_wg := lg_wg s + 1\<rparr>"
  let ?s = "?go (?add (?go (?add (load_begin 3))))"
  have "load_reach 3 2 second ?env (?add (load_begin 3))"
    by (rule load_reach_step [OF load_reach_begin wg_Add]) (simp_all add: load_begin_def)
  then have "load_reach 3 2 second ?env (?go (?add (load_begin 3)))"
    by (rule load_reach_step [OF _ acquire]) (simp_all add: load_begin_def)
  then have "load_reach 3 2 second ?env (?add (?go (?add (load_begin 3))))"
    by (rule load_reach_step [OF _ wg_Add]) (simp_all add: load_begin_def)
  then have "load_reach 3 2 second ?env ?s"
    by (rule load_reach_step [OF _ acquire]) (simp_all add: load_begin_def)
  with in_flight_bounded [OF this] show ?thesis by (intro exI [of _ ?s]) (simp add: load_begin_def)
qed

text \<open>
  C39. When the report is made, every job has ended and been counted, and the entry of every job is the
  outcome of \<open>runOne\<close> on the answer to its own submission and the turns of its own poll loop, with its own
  latency.
\<close>

theorem report_sees_all_jobs:
  assumes "load_reach jobs_total c interval env s" and "lg_pc s = MReport"
  shows "length (lg_results s) = jobs_total \<and> lg_completed s = jobs_total \<and>
    (\<forall>k<jobs_total. lg_jobs s k = JEnded \<and>
       (\<exists>n r. runOne interval (je_sub (env k)) (map (je_turn (env k)) [0..<n]) = Some (Returns r) \<and>
          lg_results s ! k = r\<lparr>jr_latency := je_latency (env k)\<rparr>))"
proof -
  have inv: "load_inv jobs_total c interval env s" using load_bound.reach_inv [OF assms(1)] .
  with assms(2) have "weigh not_ended jobs_total (lg_jobs s) = 0" by (auto simp: load_inv_def)
  then have ended: "lg_jobs s k = JEnded" if "k < jobs_total" for k
    using weigh_zero [of not_ended jobs_total "lg_jobs s" k] that by (simp add: not_ended_def)
  then have "weigh was_counted jobs_total (lg_jobs s) = jobs_total" by (simp add: weigh_def was_counted_def)
  moreover have "own_result interval (env k) (lg_results s ! k)" if "k < jobs_total" for k
    using inv ended [OF that] that unfolding load_inv_def by (metis job_ok.simps(7))
  ultimately show ?thesis using inv assms(2) ended by (simp add: load_inv_def own_result_def)
qed

theorem report_sees_all_jobs_witness:
  "\<exists>s n r. load_reach 3 2 second (\<lambda>_. sample_job) s \<and> lg_pc s = MReport \<and> lg_completed s = 3 \<and>
     runOne second (je_sub sample_job) (map (je_turn sample_job) [0..<n]) = Some (Returns r) \<and>
     lg_results s ! 2 = r\<lparr>jr_latency := 3 * second\<rparr>"
proof -
  let ?env = "\<lambda>_. sample_job"
  obtain s where s: "(load_step 3 2 second ?env)\<^sup>*\<^sup>* (load_begin 3) s" "lg_pc s = MReport"
    using load.ends [OF conjI [OF sample_load load_inv_begin [of 3]]] by blast
  have r: "load_reach 3 2 second ?env s" by (rule reach_steps [OF s(1) load_reach_begin])
  have "je_latency sample_job = 3 * second" by (simp add: sample_job_def)
  with report_sees_all_jobs [OF r s(2)] r s(2) show ?thesis by (metis lessI numeral_3_eq_3 numeral_2_eq_2)
qed

text \<open>
  C38. With a positive concurrency, a positive poll interval and clocks that keep time, every run ends with the
  report, whatever the order of the steps: a job polls at most once per interval within its deadline and
  once more, so the run makes at most \<open>(7 + timeout div interval) * n + 3\<close> steps, and where it cannot go on it
  has reported.
\<close>

theorem load_run_ends:
  assumes "load_main language t c = LoadBegins s0" and "0 < c" and "0 < interval"
    and "\<And>k. keeps_time interval timeout (env k)"
    and "(load_step (nat t) (nat c) interval env ^^ n) s0 s"
  shows "n \<le> (7 + nat (timeout div interval)) * nat t + 3 \<and>
    ((\<nexists>s'. load_step (nat t) (nat c) interval env s s') \<longrightarrow> lg_pc s = MReport)"
proof -
  let ?b = "turns_max interval timeout"
  have s0: "s0 = load_begin (nat t)" using assms(1) by (auto simp: load_main_def split: if_splits)
  have cond: "runnable_load (nat c) interval timeout env \<and> load_inv (nat t) (nat c) interval env s0"
    using assms(2-4) load_inv_begin by (simp add: runnable_load_def s0)
  have "n + load_left (nat t) ?b s \<le> load_left (nat t) ?b s0"
    using load.run_bounded [OF assms(5) cond] .
  moreover have "load_left (nat t) ?b s0 = (7 + nat (timeout div interval)) * nat t + 3"
    by (simp add: load_left_def load_begin_def weigh_def turns_max_def s0)
  ultimately show ?thesis
    using load.stops_final [OF cond relpowp_imp_rtranclp [OF assms(5)]] by auto
qed

theorem load_run_ends_witness:
  "\<exists>s. load_main ''python'' 3 2 = LoadBegins (load_begin 3) \<and> load_step 3 2 second (\<lambda>_. sample_job) (load_begin 3) s \<and>
     1 \<le> (7 + nat (4 * second div second)) * nat 3 + 3"
proof -
  let ?s = "(load_begin 3)\<lparr>lg_pc := MAcquire, lg_wg := lg_wg (load_begin 3) + 1\<rparr>"
  have m: "load_main ''python'' 3 2 = LoadBegins (load_begin 3)" by (simp add: load_main_def defaultCode_def)
  have st: "load_step 3 2 second (\<lambda>_. sample_job) (load_begin 3) ?s" by (rule wg_Add) (simp_all add: load_begin_def)
  then have "(load_step (nat 3) (nat 2) second (\<lambda>_. sample_job) ^^ 1) (load_begin 3) ?s"
    by (simp add: relpowp_1 del: One_nat_def)
  from load_run_ends [OF m _ _ sample_job_time this] m st show ?thesis by auto
qed

text \<open>
  With concurrency 0 and at least one job, the generator never reports: it can only make its first
  step, and then waits for the semaphore forever.
\<close>

theorem zero_concurrency_deadlocks:
  assumes "0 < jobs_total" and "load_reach jobs_total 0 interval env s"
  shows "lg_pc s \<noteq> MReport \<and> (lg_pc s = MAcquire \<longrightarrow> (\<nexists>s'. load_step jobs_total 0 interval env s s'))"
proof -
  have "lg_next s = 0 \<and> (\<forall>k. lg_jobs s k = JIdle) \<and> lg_pc s \<in> {MLoop, MAcquire}"
    using assms(2)
  proof (induction rule: reach.induct)
    case (reach_start s)
    then show ?case by (simp add: load_begin_def)
  next
    case (reach_step s s')
    from reach_step(2) show ?case by cases (use reach_step(3) assms(1) in auto)
  qed
  then show ?thesis by (auto elim!: load_stepE)
qed

theorem zero_concurrency_deadlocks_witness:
  "\<nexists>s'. load_step 1 0 second (\<lambda>_. sample_job) ((load_begin 1)\<lparr>lg_pc := MAcquire, lg_wg := 1\<rparr>) s'"
proof -
  let ?s = "(load_begin 1)\<lparr>lg_pc := MAcquire, lg_wg := 1\<rparr>"
  let ?step = "load_step 1 0 second (\<lambda>_. sample_job)"
  have "?step (load_begin 1) ((load_begin 1)\<lparr>lg_pc := MAcquire, lg_wg := lg_wg (load_begin 1) + 1\<rparr>)"
    by (rule wg_Add) (simp_all add: load_begin_def)
  then have "?step (load_begin 1) ?s" by (simp add: load_begin_def)
  then have "load_reach 1 0 second (\<lambda>_. sample_job) ?s" by (rule load_reach_step [OF load_reach_begin])
  from zero_concurrency_deadlocks [OF _ this] show ?thesis by simp
qed

text \<open>
  With a poll interval that is not positive the generator never reports if a job was accepted: \<^verbatim>\<open>time.NewTicker\<close>
  panics in its goroutine, which ends the program.
\<close>

theorem nonpositive_interval_never_reports:
  assumes "interval \<le> 0" and "load_reach jobs_total c interval env s"
    and "k < jobs_total" and "je_sub (env k) = Answer 202 status raw (Inr i)"
  shows "lg_pc s \<noteq> MReport"
proof
  assume "lg_pc s = MReport"
  with load_bound.reach_inv [OF assms(2)] assms(3) have "lg_jobs s k = JEnded"
    using weigh_zero [of not_ended jobs_total "lg_jobs s" k] by (auto simp: load_inv_def not_ended_def)
  with load_bound.reach_inv [OF assms(2)] assms(3) have "own_result interval (env k) (lg_results s ! k)"
    unfolding load_inv_def by (metis job_ok.simps(7))
  with assms(1,4) show False by (auto simp: own_result_def runOne_def submit_job_def)
qed

theorem nonpositive_interval_never_reports_witness:
  "lg_pc ((load_begin 1)\<lparr>lg_pc := MAcquire, lg_wg := 1\<rparr>) \<noteq> MReport"
proof -
  let ?env = "\<lambda>_. sample_job"
  have "load_step 1 1 0 ?env (load_begin 1) ((load_begin 1)\<lparr>lg_pc := MAcquire, lg_wg := lg_wg (load_begin 1) + 1\<rparr>)"
    by (rule wg_Add) (simp_all add: load_begin_def)
  then have "load_reach 1 1 0 ?env ((load_begin 1)\<lparr>lg_pc := MAcquire, lg_wg := lg_wg (load_begin 1) + 1\<rparr>)"
    by (rule load_reach_step [OF load_reach_begin])
  from nonpositive_interval_never_reports [OF _ this, of 0] show ?thesis
    by (simp add: sample_job_def load_begin_def)
qed

end
