(* ===== verification/Spec2Isabelle.thy ===== *)
theory Spec2Isabelle
  imports Ocee_System Ocee_Startup Ocee_Pull Ocee_Loadmain
begin

text \<open>
  A verification of the code execution engine in \<^verbatim>\<open>src/\<close>: a service that runs programs submitted by
  strangers in Docker containers. Clients submit a program over HTTP; the API stores it in PostgreSQL and
  puts a task into a Redis queue (asynq); a worker takes the task, runs the program in a locked-down
  container, stores what happened and, if the client gave an address, has the result posted to it.

  \<^bold>\<open>Theories and what they model.\<close>
  \<^item> \<open>Ocee_Prelude\<close>, \<open>Ocee_Encoding\<close>, \<open>Ocee_Float\<close>, \<open>Ocee_Url\<close>: the parts of the Go language and its
    standard library that the program uses, as executable functions: two's complement conversions,
    package \<^verbatim>\<open>strings\<close>, \<^verbatim>\<open>strconv\<close>, base64, hex, UTF-8 validity, \<^verbatim>\<open>float64\<close> rounding, \<^verbatim>\<open>url.Parse\<close>. Locales:
    \<open>partial_codec\<close> (an encoder with its decoder; interpreted on decimal numbers and base64) and
    \<open>digit_scanner\<close> (a loop that reads digits up to a bound; interpreted on \<^verbatim>\<open>ParseUint\<close> and on
    \<^verbatim>\<open>leadingInt\<close> of \<^verbatim>\<open>time.ParseDuration\<close>).
  \<^item> \<open>Ocee_Config\<close>: \<^verbatim>\<open>internal/config\<close>. \<open>Load\<close> builds the record \<open>Config\<close> from the environment.
  \<^item> \<open>Ocee_Lang\<close>: \<^verbatim>\<open>internal/lang\<close>. The registry of languages, \<open>Get\<close>, \<open>All\<close>, \<open>Images\<close>.
  \<^item> \<open>Ocee_Sandbox\<close>: \<^verbatim>\<open>internal/executor/script.go\<close>. The shell script in the container, as a function from
    what it observes (\<open>sandbox\<close>, \<open>cgroup\<close>) to what it writes.
  \<^item> \<open>Ocee_Outcome\<close>: \<open>limitedWriter\<close>, \<open>extractMarker\<close>, \<open>buildOutcome\<close>, \<open>newNonce\<close> of
    \<^verbatim>\<open>internal/executor/executor.go\<close>. Locale \<open>capped_writer\<close>, interpreted on \<open>limitedWriter\<close>.
  \<^item> \<open>Ocee_Executor\<close>: the rest of \<^verbatim>\<open>executor.go\<close>. \<open>Execute\<close> with image handling, container creation and
    supervision, as a function of the daemon's answers (\<open>docker\<close>) that returns the calls it makes.
  \<^item> \<open>Ocee_Db\<close>: \<^verbatim>\<open>internal/db\<close>. The table as a map from ids to rows and one function per SQL statement. Locale
    \<open>submission_store\<close>, interpreted on the statements, carries the invariants of the handlers.
  \<^item> \<open>Ocee_Queue\<close>: \<^verbatim>\<open>internal/queue\<close>. Tasks and the retry delay.
  \<^item> \<open>Ocee_Webhook\<close>: \<^verbatim>\<open>internal/webhook\<close>. Validation of addresses and delivery.
  \<^item> \<open>Ocee_World\<close>: the state API and worker share (\<open>world\<close>) and the third-party encodings (\<open>codec\<close>).
  \<^item> \<open>Ocee_Worker\<close>: \<^verbatim>\<open>internal/worker\<close>. \<open>handleExecute\<close>, \<open>handleWebhook\<close> and their helpers. Locale
    \<open>retried_task\<close>: a handler the queue calls until it stops asking for a retry; interpreted on
    \<open>handleExecute\<close>.
  \<^item> \<open>Ocee_Api\<close>: \<^verbatim>\<open>internal/api\<close>. The six handlers, the messages, the routes, the middleware, and their
    composition \<open>serve\<close>.
  \<^item> \<open>Ocee_Transition\<close>: transition systems. Locales \<open>inductive_invariant\<close>, \<open>refinement_map\<close> and \<open>ending_system\<close>,
    interpreted on every step relation below.
  \<^item> \<open>Ocee_Pull\<close>: \<open>ensureImage\<close> with its goroutines interleaved at every access to the shared maps, the \<^verbatim>\<open>Once\<close> and the
    daemon; the atomic \<open>ensureImage\<close> of \<open>Ocee_Executor\<close> is its uninterrupted run (lemma \<open>ensureImage_steps\<close>).
  \<^item> \<open>Ocee_Interleave\<close>: requests, workers and deliveries interleaved, with \<open>handleCreateSubmission\<close> and \<open>handleExecute\<close>
    split at every call to the database, the queue and the executor (\<open>create_step\<close>, \<open>exec_step\<close>, \<open>int_step\<close>).
  \<^item> \<open>Ocee_System\<close>: the same with whole handler calls as steps (\<open>sys_step\<close>), and the abstract life cycle of
    submissions (\<open>cycle_step\<close>) they refine.
  \<^item> \<open>Ocee_Startup\<close>: \<^verbatim>\<open>cmd/api/main.go\<close>, \<^verbatim>\<open>cmd/worker/main.go\<close>, with the configuration of the worker's server.
    A function body is a frame of events with the deferred calls it has collected; a return runs them.
  \<^item> \<open>Ocee_Loadtest\<close>, \<open>Ocee_Loadmain\<close>: \<^verbatim>\<open>scripts/loadtest/main.go\<close>; the second has its \<open>main\<close> with the semaphore, the
    wait group and one goroutine per job that submits and then polls turn by turn.
  \<^item> This theory: properties that connect the configuration with the container and the API with the queues.

  \<^bold>\<open>How code corresponds to definitions.\<close> Structs are records with the source's field names behind a
  prefix, functions keep their names, an error result is the left side of a sum or the \<open>Some\<close> case of an
  optional text, a deferred call is appended on every path. Effects are explicit: every operation takes
  and returns the state it changes, and lists the calls it makes to the outside (\<open>docker_call\<close>,
  \<open>request\<close>, \<open>event\<close>). Go strings are byte lists; integers are unbounded with the wrap-around written out
  where the source converts, shifts or adds durations.

  \<^bold>\<open>Parameters.\<close> What is not part of the repository is an argument: the answers of the Docker daemon
  (\<open>docker\<close>), what PostgreSQL does with a statement (\<open>db_env\<close>: it takes effect and is answered, is refused, or
  takes effect and the answer is lost; which texts are accepted; the time), the same for the queue, the
  resolver, the exchange with a webhook receiver, JSON and UUID texts (\<open>codec\<close>), what the JSON decoder makes
  of a request body, \<^verbatim>\<open>strconv.ParseFloat\<close> (infinities and NaN included), Unicode lower case and quoting,
  whether a handler panics (\<open>se_panic\<close>). The conversion of a \<^verbatim>\<open>float64\<close> out of range to \<^verbatim>\<open>int64\<close>, which Go leaves to the
  platform, is the one of amd64. The step relations of the engine take
  the set of resolver answers that can occur (\<open>rs\<close>). The theorems hold for all of
  their values; where one relies on documented behaviour this is a named hypothesis (\<open>codec_ok\<close>: what was
  marshalled is read back; \<open>codecs_ok\<close>: the same for every id and every address that is valid UTF-8;
  \<open>utf8_decoder\<close>: the JSON decoder yields valid UTF-8; \<open>int63n_ok\<close>: the range of the random source; \<open>scans\<close>: a
  query reads each row once; \<open>delivers\<close>: the daemon hands over what the container wrote; \<open>keeps_time\<close>: ticks of a
  load generator job are an interval apart and a turn after its deadline is cut off) with a witness that fulfils it.

  \<^bold>\<open>What is shown.\<close>
  \<^item> System: \<open>reachable_states_sound\<close>, \<open>worker_runs_submitted_code\<close>, \<open>no_delivery_to_internal_host\<close>,
    \<open>queued_tasks_are_served\<close> hold in every interleaving; the library lemmas
    \<open>create_steps\<close> and \<open>handleExecute_steps\<close> tie the split handlers to the whole ones;
    \<open>engine_refines_life_cycle\<close> and \<open>finished_rows_final\<close> hold when no two calls overlap, and
    \<open>interleaving_reopens_finished_row\<close> and \<open>lost_enqueue_reply_overwrites_result\<close> show how overlapping
    calls break them.
  \<^item> Images: \<open>pulls_exclusive\<close>, \<open>ensureImage_returns\<close>.
  \<^item> Worker: \<open>execute_task_settles\<close> (every attempt and retry together), \<open>handleExecute_stores_result\<close>,
    \<open>handleExecute_engine_failure\<close>, \<open>handleExecute_writes_own_row\<close>, \<open>finished_submission_untouched\<close>,
    \<open>handleWebhook_delivers\<close>; \<open>unstorable_output_never_settles\<close> and \<open>lost_failure_record\<close> are the cases that do not
    settle.
  \<^item> Executor: \<open>Execute_lifecycle\<close>, \<open>Execute_locked_down\<close>, \<open>Execute_reports_run\<close>,
    \<open>Execute_reports_compile_error\<close>, \<open>marker_roundtrip\<close>, \<open>limited_writer_keeps_prefix\<close>,
    \<open>Execute_reports_stopped_container\<close>, \<open>outcome_fits_columns\<close>, \<open>image_pulled_once\<close>, \<open>warm_images_suffice\<close>; the limits
    of the marker protocol, \<open>Execute_loses_status\<close> and \<open>Execute_accepts_forged_marker\<close>; and \<open>create_error_not_cleaned\<close>,
    the container left behind when the answer to its creation is lost.
  \<^item> API: \<open>create_accepted\<close>, \<open>create_refused_no_trace\<close>, \<open>enqueue_failure_recorded\<close>, \<open>accepted_is_visible\<close>,
    \<open>requests_answered\<close>, \<open>page_bounds\<close>, \<open>task_outlives_budget\<close>, \<open>webhook_body_mirrors_get\<close>.
  \<^item> Storage, queue, webhooks, configuration, programs: \<open>rows_well_formed\<close>, \<open>ListSubmissions_page\<close>,
    \<open>RetryDelay_bounds\<close>, \<open>isInternal_v4\<close>, \<open>Validate_resolved\<close>, \<open>Deliver_once\<close>,
    \<open>run_timeout_reaches_container\<close>, \<open>zero_memory_limit_accepted\<close>, \<open>languages_listed\<close>, \<open>connectDB_returns\<close>, \<open>runs_release_resources\<close>.
  \<^item> Load generator: \<open>in_flight_bounded\<close>, \<open>report_sees_all_jobs\<close>, \<open>load_run_ends\<close>, \<open>zero_concurrency_deadlocks\<close>,
    \<open>nonpositive_interval_never_reports\<close>.

  \<^bold>\<open>Bounds and termination.\<close> The loops of the source are structural recursions or recursions with a
  termination proof; the loop of \<open>connectDB\<close>, which has no bound in its header, is a partial function that
  is proved to return after at most 30 attempts. The only fuel is the number of redirects an HTTP client
  follows, ten in Go's library; with the program's client it is never used. \<open>process\<close> runs a handler once
  and then for the number of retries of the task, two for executions, which is what the queue does.

  The step relations of \<open>Ocee_Pull\<close> and \<open>Ocee_Loadmain\<close> are proved to end, with a bound on the number of steps.

  \<^bold>\<open>Not modelled.\<close> Log output and the printing of the load generator; the methods \<open>Ping\<close> and \<open>Close\<close> that only
  pass values on; \<^verbatim>\<open>internal/db/db.go\<close>; the order in which the queue draws tasks. \<open>handleWebhook\<close>
  is one step of the interleaved engine: it writes neither the database nor the queue. \<open>int_step\<close> admits more runs than
  the queue does (a task stays deliverable, and a worker may resume a handler with another task), which makes
  its invariants stronger; the runs given as counterexamples keep one task and attempt per worker. Time enters only through the
  answers: a deadline is the daemon answering that the budget is exceeded. The goroutines that copy a
  container's streams are not interleaved with its supervision: what they delivered until the wait for
  them ended is the list of frames.
\<close>

section \<open>From the environment to the container\<close>

lemma RunTimeout_seconds:
  assumes "Load pf e = Inr cfg" and "e ''RUN_TIMEOUT'' = show_nat n @ ''s''" and "n < 2 ^ 22"
  shows "RunTimeout cfg = int n * second" and "seconds_int (RunTimeout cfg) = int n"
proof -
  have "n \<le> 9223372036" using assms(3) by simp
  then have "ParseDuration (e ''RUN_TIMEOUT'') = Some (int n * second)"
    unfolding assms(2) by (rule ParseDuration_seconds)
  then show run: "RunTimeout cfg = int n * second"
    using assms(1,2) by (auto simp: Load_Inr read_config_def envDur_def)
  show "seconds_int (RunTimeout cfg) = int n"
    unfolding run using assms(3) by (subst seconds_int_eq) simp_all
qed

text \<open>
  C17. A run timeout configured as a whole number of seconds, \<open>RUN_TIMEOUT=<n>s\<close>, arrives unchanged at the
  script in the container: the duration is parsed, converted to floating-point seconds and back, and
  printed as the same number.
\<close>

theorem run_timeout_reaches_container:
  assumes "Load pf e = Inr cfg" and "e ''RUN_TIMEOUT'' = show_nat n @ ''s''" and "n < 2 ^ 22"
  shows "''OCEE_RUN_SECS='' @ show_nat n \<in> set (container_env cfg spec code nonce)"
  using RunTimeout_seconds(2) [OF assms] by (simp add: container_env_def Itoa_def)

theorem run_timeout_reaches_container_witness:
  "''OCEE_RUN_SECS='' @ show_nat 25 \<in>
     set (container_env (read_config (\<lambda>_. None) ((\<lambda>_. [])(''RUN_TIMEOUT'' := show_nat 25 @ ''s''))) python_spec ''x'' ''n'')"
proof (rule run_timeout_reaches_container)
  show "Load (\<lambda>_. None) ((\<lambda>_. [])(''RUN_TIMEOUT'' := show_nat 25 @ ''s'')) =
      Inr (read_config (\<lambda>_. None) ((\<lambda>_. [])(''RUN_TIMEOUT'' := show_nat 25 @ ''s'')))"
    by (simp add: Load_Inr read_config_def envInt_def)
qed simp_all

text \<open>
  A run timeout below one second becomes the number 0 in the container, with which \<^verbatim>\<open>timeout\<close> sets no limit
  at all.
\<close>

theorem subsecond_timeout_is_zero:
  assumes "0 \<le> RunTimeout cfg" and "RunTimeout cfg < second"
  shows "''OCEE_RUN_SECS='' @ Itoa 0 \<in> set (container_env cfg spec code nonce)"
  using assms by (simp add: container_env_def seconds_int_eq)

text \<open>
  The limits are not checked when the configuration is loaded: with \<^verbatim>\<open>MEMORY_LIMIT_MB=0\<close>, or a number that
  overflows in bytes, containers are created with the memory limit 0, which Docker reads as none.
\<close>

theorem zero_memory_limit_accepted:
  assumes "n \<in> {0, 2 ^ 44}"
  shows "\<exists>cfg. Load (\<lambda>_. None) ((\<lambda>_. [])(''MEMORY_LIMIT_MB'' := Itoa n)) = Inr cfg \<and> hc_Memory (host_config cfg) = 0"
proof -
  let ?e = "(\<lambda>_. [])(''MEMORY_LIMIT_MB'' := Itoa n)"
  have "Atoi (Itoa n) = Inr n" using assms ParseInt_Itoa [of n] by (auto simp: Atoi_def)
  then have "MemoryLimitMB (read_config (\<lambda>_. None) ?e) = n"
    by (simp add: read_config_def envInt_def Itoa_nonempty)
  then have "hc_Memory (host_config (read_config (\<lambda>_. None) ?e)) = 0"
    using assms by (auto simp: host_config_def wrap64_def wrap_def)
  moreover have "Load (\<lambda>_. None) ?e = Inr (read_config (\<lambda>_. None) ?e)"
    by (simp add: Load_Inr read_config_def envInt_def)
  ultimately show ?thesis by blast
qed

theorem zero_memory_limit_accepted_witness:
  "\<exists>cfg. Load (\<lambda>_. None) ((\<lambda>_. [])(''MEMORY_LIMIT_MB'' := Itoa 0)) = Inr cfg \<and> hc_Memory (host_config cfg) = 0"
  by (rule zero_memory_limit_accepted) simp

section \<open>From the API to the worker's queues\<close>

text \<open>
  C7. No task is stranded: in every reachable state, every task in the queue is of a kind the worker has a
  handler for and lies in a queue the worker's server draws from with a positive weight; there is at
  least one goroutine to serve it; and for every retry count the server gets a delay.
\<close>

theorem queued_tasks_are_served:
  assumes "engine_reach rs cd script cfg (w, pcs, reqs)" and "codecs_ok cd" and "t \<in> set (w_tasks w)"
    and "Load pf e = Inr cfg" and "int63n_ok r" and "0 \<le> n"
  shows "(\<exists>h. map_of Mux (t_type t) = Some h) \<and>
    (\<exists>weight>0. (t_queue t, weight) \<in> set (aq_Queues (server_config cfg))) \<and>
    1 \<le> aq_Concurrency (server_config cfg) \<and> (\<exists>d. aq_RetryDelayFunc (server_config cfg) r n = Some d)"
proof -
  have "task_ok cd (w_table w) t"
    using engine.reach_inv [OF assms(1)] assms(2,3) by (simp add: world_ok_def)
  then have "(t_type t = TypeExecute \<and> t_queue t = QueueDefault) \<or> (t_type t = TypeWebhook \<and> t_queue t = QueueWebhooks)"
    unfolding task_ok_def by blast
  moreover have "1 \<le> WorkerConcurrency cfg" using assms(4) unfolding Load_Inr by blast
  ultimately show ?thesis
    using RetryDelay_eq [OF assms(6,5)]
    by (auto simp: Mux_def server_config_def TypeExecute_def TypeWebhook_def QueueDefault_def QueueWebhooks_def)
qed

theorem queued_tasks_are_served_witness:
  "\<exists>weight>0. (t_queue demo_task, weight) \<in> set (aq_Queues (server_config default_config))"
proof -
  obtain reqs where "demo_reach (demo_world demo_row, \<lambda>_. Begin, reqs)" using demo_accepted by blast
  then show ?thesis
    using queued_tasks_are_served [of demo_rs sample_codec "''s''" default_config "demo_world demo_row" "\<lambda>_. Begin" reqs
        demo_task "\<lambda>_. None" "\<lambda>_. []" "\<lambda>k. k - 1" 3]
    by (simp add: Load_default int63n_ok_def)
qed

text \<open>
  The configuration can be loaded although neither the database nor the queue address is set.
\<close>

theorem Load_needs_no_addresses:
  "\<exists>cfg. Load (\<lambda>_. None) (\<lambda>_. []) = Inr cfg \<and> DatabaseURL cfg \<noteq> [] \<and> RedisAddr cfg \<noteq> []"
  using Load_default by (auto simp: default_config_def read_config_def env_def)

end
